theory Spec2Isabelle
  imports Main "HOL-Library.Multiset" "HOL-Library.List_Lexorder" "HOL-Library.Char_ord"
begin

section \<open>JavaScript strings\<close>

text \<open>
  The adapter is TypeScript; its strings are modelled as \<^typ>\<open>string\<close>, one
  \<^typ>\<open>char\<close> per code unit.  \<open>undefined\<close> is \<^const>\<open>None\<close> of an option
  type wherever the source can produce it.  The helpers below are the fragments of
  the String built-ins that the adapter calls.
\<close>

fun startsWith :: "string \<Rightarrow> string \<Rightarrow> bool" where
  "startsWith [] s = True"
| "startsWith (p # ps) [] = False"
| "startsWith (p # ps) (c # cs) = (p = c \<and> startsWith ps cs)"

text \<open>\<open>str_includes pat s\<close>: \<open>pat\<close> occurs in \<open>s\<close> as a contiguous substring.\<close>

fun str_includes :: "string \<Rightarrow> string \<Rightarrow> bool" where
  "str_includes pat [] = (pat = [])"
| "str_includes pat (c # cs) = (startsWith pat (c # cs) \<or> str_includes pat cs)"

text \<open>
  \<open>s.match(new RegExp(e))\<close> and \<open>s.match(/.../)\<close> are only used with patterns that
  denote one literal string (letters, digits, blanks, \<open>_\<close>, and the escaped
  parentheses of \<open>GraphQL Error \(Code: 404\)\<close>), so a match is a substring test
  for the literal.
\<close>

definition matchLiteral :: "string \<Rightarrow> string \<Rightarrow> bool" where
  "matchLiteral s lit = str_includes lit s"

text \<open>A string is truthy when it is not empty; \<open>undefined\<close> is falsy.\<close>

fun truthy :: "string option \<Rightarrow> bool" where
  "truthy None = False"
| "truthy (Some s) = (s \<noteq> [])"

section \<open>Errors\<close>

text \<open>
  An exception raised by the transport (\<open>graphql-request\<close>, \<open>node-fetch\<close>) carries an
  optional \<open>message\<close> and an optional structured \<open>response\<close> with its own \<open>message\<close>
  and, for GraphQL, an \<open>errors\<close> array whose entries have a \<open>type\<close>.
\<close>

record gql_error =
  err_type :: "string option"

record ex_response =
  resp_message :: "string option"
  resp_errors :: "gql_error list option"

record exn =
  ex_message :: "string option"
  ex_response :: "ex_response option"

datatype ReportSuppressedMessages = AccessTokenInvalid | ConnectionError | NetworkError

text \<open>
  Everything an operation of the adapter can throw: a transport exception passed on
  unchanged, an \<open>InternalError\<close> of a suppressed class wrapping the original exception
  (if any), and the runtime's own \<open>TypeError\<close> and \<open>SyntaxError\<close>.  A plain
  \<open>new Error(msg)\<close> is an exception object with that message and no response.
\<close>

datatype error =
    Thrown exn
  | InternalError ReportSuppressedMessages "exn option"
  | TypeError
  | SyntaxError

definition newError :: "string \<Rightarrow> exn" where
  "newError msg = \<lparr>ex_message = Some msg, ex_response = None\<rparr>"

section \<open>Error classifier\<close>

definition networkErrors :: "string list" where
  "networkErrors =
    [''ENOTFOUND'', ''ETIMEDOUT'', ''EAI_AGAIN'', ''ECONNRESET'', ''ECONNREFUSED'',
     ''ENETDOWN'', ''ENETUNREACH'', ''socket disconnected before secure'',
     ''socket hang up'']"

definition matchesNetworkError :: "exn \<Rightarrow> bool" where
  "matchesNetworkError ex =
    (case ex_message ex of
       None \<Rightarrow> False
     | Some m \<Rightarrow> m \<noteq> [] \<and> list_ex (\<lambda>e. matchLiteral m e) networkErrors)"

definition matchesNotFound :: "exn \<Rightarrow> bool" where
  "matchesNotFound ex =
    (case ex_message ex of
       None \<Rightarrow> False
     | Some m \<Rightarrow> m \<noteq> [] \<and> matchLiteral m ''GraphQL Error (Code: 404)'')"

definition hasForbidden :: "ex_response \<Rightarrow> bool" where
  "hasForbidden r =
    (case resp_errors r of
       None \<Rightarrow> False
     | Some es \<Rightarrow> find (\<lambda>e. err_type e = Some ''FORBIDDEN'') es \<noteq> None)"

definition credentialRejected :: "exn \<Rightarrow> bool" where
  "credentialRejected ex =
    (case ex_response ex of
       None \<Rightarrow> False
     | Some r \<Rightarrow> resp_message r = Some ''Bad credentials'' \<or> hasForbidden r)"

definition isSuppressedException :: "exn \<Rightarrow> ReportSuppressedMessages option" where
  "isSuppressedException ex =
    (if matchesNetworkError ex then Some NetworkError
     else if matchesNotFound ex then Some ConnectionError
     else if credentialRejected ex then Some AccessTokenInvalid
     else None)"

section \<open>Data model\<close>

text \<open>
  The GraphQL reply of the detail query and the canonical pull request are one
  object in the source: the adapter normalises the reply in place.  The record
  below has the reply's fields that the modelled operations read, and the fields
  the normaliser adds (\<^const>\<open>None\<close> until set).  \<open>reactionGroups\<close> (a lodash
  \<open>groupBy\<close> of the award list) and \<open>number\<close> (a \<open>parseInt\<close>) are not among them;
  the award fetch itself is kept, because its failure aborts the assembly.
\<close>

record author =
  a_name :: string
  a_username :: string
  a_avatarUrl :: string

record position =
  oldPath :: "string option"
  newPath :: "string option"
  newLine :: "int option"

text \<open>
  A note.  \<open>n_discussionId\<close> is \<open>n.discussion.id\<close> when \<open>n.discussion\<close> and its id
  are set.  \<open>n_replies\<close> is \<open>undefined\<close> until the splitter assigns it.
\<close>

datatype pr_note = Note
  (n_id: string)
  (n_author: author)
  (n_body: "string option")
  (n_bodyText: "string option")
  (n_createdAt: string)
  (n_discussionId: "string option")
  (n_position: "position option")
  (n_pending: bool)
  (n_state: "string option")
  (n_databaseId: "string option")
  (n_mergeRequestIdComputed: "string option")
  (n_replies: "pr_note list option")

record discussion =
  d_id :: string
  d_createdAt :: string
  d_pending :: bool
  d_notes :: "pr_note list option"

text \<open>The REST payloads of the three auxiliary event endpoints.\<close>

record project_event_raw =
  pr_action_name :: string
  pr_author :: string
  pr_created_at :: string
  pr_id :: int
  pr_project_id :: int
  pr_target_id :: "int option"
  pr_target_title :: "string option"
  pr_target_type :: "string option"

record resource_event_raw =
  rr_created_at :: string
  rr_action :: string
  rr_id :: int
  rr_label :: "string option"
  rr_resource_type :: string
  rr_user :: string

text \<open>The events as the adapter maps them into the timeline.\<close>

record project_event =
  pe_type :: string
  pe_author :: string
  pe_action :: string
  pe_createdAt :: string
  pe_id :: int
  pe_projectId :: int
  pe_targetId :: "int option"
  pe_targetTitle :: "string option"
  pe_targetType :: "string option"

record resource_event =
  re_type :: string
  re_createdAt :: string
  re_action :: string
  re_id :: int
  re_label :: "string option"
  re_resourceType :: string
  re_user :: string

text \<open>An entry of \<open>discussions.nodes\<close>: a discussion or one of the merged-in events.\<close>

datatype node =
    DiscussionNode discussion
  | ProjectEventNode project_event
  | ResourceEventNode resource_event

fun createdAt :: "node \<Rightarrow> string" where
  "createdAt (DiscussionNode d) = d_createdAt d"
| "createdAt (ProjectEventNode e) = pe_createdAt e"
| "createdAt (ResourceEventNode e) = re_createdAt e"

record source_project =
  sp_name :: string
  sp_webUrl :: string
  sp_fullPath :: string

record diff_refs =
  baseSha :: string
  headSha :: string
  startSha :: string

record repository =
  repo_name :: string
  repo_nameWithOwner :: string
  repo_url :: string

record merge_request =
  mr_id :: string
  mr_iid :: string
  mr_sourceBranch :: string
  mr_targetBranch :: string
  mr_mergedAt :: "string option"
  mr_reference :: string
  mr_sourceProject :: source_project
  mr_diffRefs :: "diff_refs option"
  mr_discussions :: "node list"
  mr_viewer :: "string option"
  mr_providerId :: "string option"
  mr_baseRefOid :: "string option"
  mr_baseRefName :: "string option"
  mr_headRefOid :: "string option"
  mr_headRefName :: "string option"
  mr_repository :: "repository option"
  mr_url :: "string option"
  mr_merged :: "bool option"
  mr_references_full :: "string option"
  mr_idComputed :: "string option"
  mr_pendingReview :: "nat option"

record pr_response =
  currentUser_username :: string
  mergeRequest :: merge_request

text \<open>What \<open>getPullRequest\<close> returns: the initial \<open>{}\<close> or the (possibly partly
  normalised) reply object.\<close>

datatype pr_result = EmptyResponse | Response pr_response

section \<open>Identifier codec\<close>

subsection \<open>The JSON fragment of the tokens\<close>

text \<open>
  A pull-request token is \<open>JSON.stringify({ id, full })\<close>; every operation starts
  with \<open>JSON.parse\<close> of it.  Both built-ins are modelled on the fragment the tokens
  live in: objects whose members are strings.  \<open>JSON_stringify\<close> is ECMAScript's
  \<open>QuoteJSONString\<close> on keys and values, members in insertion order, no blanks.
  \<open>JSON_parse\<close> reads that grammar with the blanks and all escapes JSON allows;
  \<^const>\<open>None\<close> is its \<open>SyntaxError\<close>.  A text outside the fragment (a number or
  a nested value as a member, an escape \<open>\uXXXX\<close> above \<open>00FF\<close>) is also answered
  \<^const>\<open>None\<close>.
\<close>

definition hexDigit :: "nat \<Rightarrow> char" where
  "hexDigit n = char_of (if n < 10 then 48 + n else 87 + n)"

definition hexVal :: "char \<Rightarrow> nat option" where
  "hexVal c =
    (let n = of_char c :: nat in
     if 48 \<le> n \<and> n \<le> 57 then Some (n - 48)
     else if 97 \<le> n \<and> n \<le> 102 then Some (n - 87)
     else if 65 \<le> n \<and> n \<le> 70 then Some (n - 55)
     else None)"

definition quoteChar :: "char \<Rightarrow> string" where
  "quoteChar c =
    (if c = CHR 0x08 then [CHR 0x5C, CHR ''b'']
     else if c = CHR 0x09 then [CHR 0x5C, CHR ''t'']
     else if c = CHR 0x0A then [CHR 0x5C, CHR ''n'']
     else if c = CHR 0x0C then [CHR 0x5C, CHR ''f'']
     else if c = CHR 0x0D then [CHR 0x5C, CHR ''r'']
     else if c = CHR 0x22 then [CHR 0x5C, CHR 0x22]
     else if c = CHR 0x5C then [CHR 0x5C, CHR 0x5C]
     else if (of_char c :: nat) < 32 then
       [CHR 0x5C, CHR ''u'', CHR ''0'', CHR ''0'',
        hexDigit (of_char c div 16), hexDigit (of_char c mod 16)]
     else [c])"

definition JSON_quote :: "string \<Rightarrow> string" where
  "JSON_quote s = CHR 0x22 # concat (map quoteChar s) @ [CHR 0x22]"

definition encodeMember :: "string \<times> string \<Rightarrow> string" where
  "encodeMember m = (case m of (k, v) \<Rightarrow> JSON_quote k @ CHR '':'' # JSON_quote v)"

fun joinMembers :: "string list \<Rightarrow> string" where
  "joinMembers [] = []"
| "joinMembers [m] = m"
| "joinMembers (m # ms) = m @ CHR '','' # joinMembers ms"

definition JSON_stringify :: "(string \<times> string) list \<Rightarrow> string" where
  "JSON_stringify ms =
    CHR ''{'' # joinMembers (map encodeMember ms) @ [CHR ''}'']"

definition unescape :: "char \<Rightarrow> char option" where
  "unescape e =
    (if e = CHR 0x22 then Some (CHR 0x22)
     else if e = CHR 0x5C then Some (CHR 0x5C)
     else if e = CHR ''/'' then Some (CHR ''/'')
     else if e = CHR ''b'' then Some (CHR 0x08)
     else if e = CHR ''f'' then Some (CHR 0x0C)
     else if e = CHR ''n'' then Some (CHR 0x0A)
     else if e = CHR ''r'' then Some (CHR 0x0D)
     else if e = CHR ''t'' then Some (CHR 0x09)
     else None)"

definition hex4 :: "char \<Rightarrow> char \<Rightarrow> char \<Rightarrow> char \<Rightarrow> nat option" where
  "hex4 a b c d =
    (case (hexVal a, hexVal b, hexVal c, hexVal d) of
       (Some x, Some y, Some z, Some w) \<Rightarrow> Some (((x * 16 + y) * 16 + z) * 16 + w)
     | _ \<Rightarrow> None)"

definition consChar :: "char \<Rightarrow> (string \<times> string) option \<Rightarrow> (string \<times> string) option" where
  "consChar c r = (case r of None \<Rightarrow> None | Some (s, rest) \<Rightarrow> Some (c # s, rest))"

fun readChars :: "string \<Rightarrow> (string \<times> string) option" where
  "readChars [] = None"
| "readChars (c # cs) =
    (if c = CHR 0x22 then Some ([], cs)
     else if c = CHR 0x5C then
       (case cs of
          [] \<Rightarrow> None
        | e # cs' \<Rightarrow>
            if e = CHR ''u'' then
              (case cs' of
                 h1 # h2 # h3 # h4 # cs'' \<Rightarrow>
                   (case hex4 h1 h2 h3 h4 of
                      None \<Rightarrow> None
                    | Some n \<Rightarrow> if n < 256 then consChar (char_of n) (readChars cs'') else None)
               | _ \<Rightarrow> None)
            else
              (case unescape e of
                 None \<Rightarrow> None
               | Some d \<Rightarrow> consChar d (readChars cs')))
     else if (of_char c :: nat) < 32 then None
     else consChar c (readChars cs))"

fun skipWs :: "string \<Rightarrow> string" where
  "skipWs [] = []"
| "skipWs (c # cs) =
    (if c = CHR '' '' \<or> c = CHR 0x09 \<or> c = CHR 0x0A \<or> c = CHR 0x0D then skipWs cs else c # cs)"

definition readString :: "string \<Rightarrow> (string \<times> string) option" where
  "readString cs =
    (case skipWs cs of
       [] \<Rightarrow> None
     | q # r \<Rightarrow> if q = CHR 0x22 then readChars r else None)"

definition parseMember :: "string \<Rightarrow> ((string \<times> string) \<times> string) option" where
  "parseMember cs =
    (case readString cs of
       None \<Rightarrow> None
     | Some (k, r1) \<Rightarrow>
        (case skipWs r1 of
           [] \<Rightarrow> None
         | c # r2 \<Rightarrow>
            if c = CHR '':'' then
              (case readString r2 of
                 None \<Rightarrow> None
               | Some (v, r3) \<Rightarrow> Some ((k, v), skipWs r3))
            else None))"

lemma skipWs_length: "length (skipWs cs) \<le> length cs"
  by (induction cs) auto

lemma readChars_length: "readChars cs = Some (s, r) \<Longrightarrow> length r < length cs"
proof (induction cs arbitrary: s r rule: readChars.induct)
  case 1
  then show ?case by simp
next
  case (2 c cs)
  then show ?case
    by (fastforce simp: consChar_def split: if_splits list.splits option.splits)
qed

lemma readString_length: "readString cs = Some (s, r) \<Longrightarrow> length r < length cs"
  using skipWs_length [of cs]
  by (auto simp: readString_def split: list.splits if_splits dest!: readChars_length)

lemma parseMember_length:
  assumes "parseMember cs = Some (m, r)"
  shows "length r < length cs"
proof -
  from assms obtain k r1 c r2 v r3 where
    k: "readString cs = Some (k, r1)" and c: "skipWs r1 = c # r2"
    and v: "readString r2 = Some (v, r3)" and r: "r = skipWs r3"
    by (auto simp: parseMember_def split: option.splits list.splits if_splits)
  have "length r \<le> length r3" using r skipWs_length by simp
  also have "\<dots> < length r2" using v by (rule readString_length)
  also have "\<dots> < length (skipWs r1)" using c by simp
  also have "\<dots> \<le> length r1" by (rule skipWs_length)
  also have "\<dots> < length cs" using k by (rule readString_length)
  finally show ?thesis .
qed

function parseMembers :: "string \<Rightarrow> ((string \<times> string) list \<times> string) option" where
  "parseMembers cs =
    (case parseMember cs of
       None \<Rightarrow> None
     | Some (m, r) \<Rightarrow>
        (case r of
           [] \<Rightarrow> None
         | c # r' \<Rightarrow>
            if c = CHR '','' then
              (case parseMembers r' of
                 None \<Rightarrow> None
               | Some (ms, r'') \<Rightarrow> Some (m # ms, r''))
            else if c = CHR ''}'' then Some ([m], r')
            else None))"
  by pat_completeness auto
termination
  by (relation "measure length") (auto dest!: parseMember_length)

definition JSON_parse :: "string \<Rightarrow> (string \<times> string) list option" where
  "JSON_parse s =
    (case skipWs s of
       [] \<Rightarrow> None
     | c # r \<Rightarrow>
        if c = CHR ''{'' then
          (case skipWs r of
             [] \<Rightarrow> None
           | d # r' \<Rightarrow>
              if d = CHR ''}'' then (if skipWs r' = [] then Some [] else None)
              else
                (case parseMembers (d # r') of
                   None \<Rightarrow> None
                 | Some (ms, rest) \<Rightarrow> if skipWs rest = [] then Some ms else None))
        else None)"

subsection \<open>Encoding and decoding\<close>

text \<open>A property read \<open>parsed.k\<close>: the last member named \<open>k\<close>, else \<open>undefined\<close>.\<close>

definition jsProp :: "string \<Rightarrow> (string \<times> string) list \<Rightarrow> string option" where
  "jsProp k ms = map_of (rev ms) k"

text \<open>\<open>s.split(sep)\<close> for a separator of one character.\<close>

fun js_split :: "char \<Rightarrow> string \<Rightarrow> string list" where
  "js_split sep [] = [[]]"
| "js_split sep (c # cs) =
    (if c = sep then [] # js_split sep cs
     else (case js_split sep cs of
             [] \<Rightarrow> [[c]]
           | x # xs \<Rightarrow> (c # x) # xs))"

text \<open>An array read \<open>xs[i]\<close>: \<open>undefined\<close> out of range.\<close>

definition nth_opt :: "'a list \<Rightarrow> nat \<Rightarrow> 'a option" where
  "nth_opt xs i = (if i < length xs then Some (xs ! i) else None)"

text \<open>
  The two places that mint a token: \<open>getPullRequest\<close> (\<open>mergeRequestFullId\<close>, members
  \<open>id\<close> then \<open>full\<close>) and \<open>getRepoInfo\<close> (members \<open>full\<close> then \<open>id\<close>).
\<close>

definition encodeId :: "string \<Rightarrow> string \<Rightarrow> string" where
  "encodeId numericId fullReference = JSON_stringify [(''id'', numericId), (''full'', fullReference)]"

definition encodeListingId :: "string \<Rightarrow> string \<Rightarrow> string" where
  "encodeListingId fullReference numericId = JSON_stringify [(''full'', fullReference), (''id'', numericId)]"

text \<open>
  \<open>parseId\<close>: \<open>JSON.parse\<close>, then \<open>parsed.full.split("!")\<close> read at 0 and at 1.
  A token without \<open>full\<close> raises \<open>TypeError\<close> (\<open>split\<close> of \<open>undefined\<close>).
\<close>

definition parseId :: "string \<Rightarrow> error + (string option \<times> string option)" where
  "parseId pullRequestId =
    (case JSON_parse pullRequestId of
       None \<Rightarrow> Inl SyntaxError
     | Some parsed \<Rightarrow>
        (case jsProp ''full'' parsed of
           None \<Rightarrow> Inl TypeError
         | Some full \<Rightarrow>
            Inr (nth_opt (js_split (CHR ''!'') full) 0, nth_opt (js_split (CHR ''!'') full) 1)))"

text \<open>
  The inlined decoders.  Operations that start with \<open>if (request.pullRequestId)\<close>
  leave all parts \<open>undefined\<close> on an empty token; the others parse unguarded.
  The triple is (\<open>actualPullRequestId\<close>, \<open>projectFullPath\<close>, \<open>iid\<close>).
\<close>

definition decodeUnguarded ::
  "string \<Rightarrow> error + (string option \<times> string option \<times> string option)" where
  "decodeUnguarded pullRequestId =
    (case JSON_parse pullRequestId of
       None \<Rightarrow> Inl SyntaxError
     | Some parsed \<Rightarrow>
        (case jsProp ''full'' parsed of
           None \<Rightarrow> Inl TypeError
         | Some full \<Rightarrow>
            Inr (jsProp ''id'' parsed,
                 nth_opt (js_split (CHR ''!'') full) 0,
                 nth_opt (js_split (CHR ''!'') full) 1)))"

definition decodeGuarded ::
  "string \<Rightarrow> error + (string option \<times> string option \<times> string option)" where
  "decodeGuarded pullRequestId =
    (if pullRequestId = [] then Inr (None, None, None) else decodeUnguarded pullRequestId)"

definition decodeIdOnly :: "string \<Rightarrow> error + string option" where
  "decodeIdOnly pullRequestId =
    (if pullRequestId = [] then Inr None
     else (case JSON_parse pullRequestId of
             None \<Rightarrow> Inl SyntaxError
           | Some parsed \<Rightarrow> Inr (jsProp ''id'' parsed)))"

section \<open>Provider state and transport\<close>

text \<open>
  A staged inline comment.  The first comment staged for a pull request is stored as
  the request itself (\<open>[request]\<close>), every later one wrapped in an object
  (\<open>push({ request })\<close>); a wrapped entry has no \<open>text\<close>, \<open>filePath\<close> or \<open>startLine\<close>
  of its own.
\<close>

record review_comment_request =
  rc_pullRequestId :: string
  rc_text :: string
  rc_filePath :: "string option"
  rc_startLine :: "int option"
  rc_leftSha :: "string option"
  rc_sha :: "string option"
  rc_rightSha :: "string option"

datatype pending_entry = Bare review_comment_request | Wrapped review_comment_request

fun entryText :: "pending_entry \<Rightarrow> string option" where
  "entryText (Bare r) = Some (rc_text r)"
| "entryText (Wrapped r) = None"

fun entryFilePath :: "pending_entry \<Rightarrow> string option" where
  "entryFilePath (Bare r) = rc_filePath r"
| "entryFilePath (Wrapped r) = None"

fun entryStartLine :: "pending_entry \<Rightarrow> int option" where
  "entryStartLine (Bare r) = rc_startLine r"
| "entryStartLine (Wrapped r) = None"

fun entryLeftSha :: "pending_entry \<Rightarrow> string option" where
  "entryLeftSha (Bare r) = rc_leftSha r"
| "entryLeftSha (Wrapped r) = None"

fun entrySha :: "pending_entry \<Rightarrow> string option" where
  "entrySha (Bare r) = rc_sha r"
| "entrySha (Wrapped r) = None"

fun entryRightSha :: "pending_entry \<Rightarrow> string option" where
  "entryRightSha (Bare r) = rc_rightSha r"
| "entryRightSha (Wrapped r) = None"

text \<open>A \<open>DidChangePullRequestComments\<close> notification sent to the session.\<close>

record notification =
  nf_pullRequestId :: "string option"
  nf_filePath :: "string option"
  nf_commentId :: "string option"

text \<open>A token-error record handed to \<open>setThirdPartyProviderInfo\<close>.\<close>

record token_error =
  te_error :: exn
  te_occurredAt :: nat
  te_isConnectionError :: bool

text \<open>
  One entry of the network log: the kind of call (\<open>QUERY\<close>, \<open>MUTATE\<close>, \<open>GET\<close>,
  \<open>POST\<close>, \<open>PUT\<close>), the endpoint, and the project path and internal id it
  addresses (for a listing page: the URL, and nothing).
\<close>

datatype call = Call string string "string option" "string option"

text \<open>
  The adapter instance: its configuration, its caches and its GraphQL client
  handle, together with the outside \<open>world\<close> the transport talks to and the log of
  the calls issued so far.  Both maps are keyed by \<open>actualPullRequestId\<close>, which is
  \<open>undefined\<close> (\<^const>\<open>None\<close>) for an empty token or a token without \<open>id\<close>.
\<close>

record 'w provider =
  baseUrl :: string
  accessToken :: "string option"
  providerConfigId :: "string option"
  tokenError :: bool
  client :: bool
  reportedTokenErrors :: "token_error list"
  gitlabUsername :: "string option"
  pullRequestCache :: "string option \<rightharpoonup> pr_response"
  pendingReviewStore :: "string option \<rightharpoonup> pending_entry list"
  notifications :: "notification list"
  world :: 'w
  calls :: "call list"

text \<open>Payloads and replies of the mutating endpoints.\<close>

record discussion_payload =
  dp_body :: "string option"
  dp_base_sha :: "string option"
  dp_head_sha :: "string option"
  dp_start_sha :: "string option"
  dp_position_type :: string
  dp_new_path :: "string option"
  dp_new_line :: "int option"

record create_note_reply =
  cn_noteId :: string
  cn_nodes :: "discussion list"

datatype mr_update = SetDiscussionLocked bool | SetMilestoneId string

record mr_put_reply =
  put_discussion_locked :: bool
  put_milestone :: "string option"

record merge_payload =
  mp_merge_commit_message :: string
  mp_squash :: "bool option"
  mp_should_remove_source_branch :: "bool option"

record merge_reply =
  mg_state :: string
  mg_merged_at :: "string option"
  mg_updated_at :: "string option"

record approver =
  ap_avatar_url :: string
  ap_username :: string
  ap_name :: string

record wip_reply =
  wip_workInProgress :: bool
  wip_title :: string

text \<open>A page of a REST listing: the items and the \<open>Link\<close> header, if any.\<close>

record 'a api_page =
  pg_body :: "'a list"
  pg_link :: "string option"

text \<open>
  The transport: one oracle per endpoint the modelled operations call.  An oracle
  takes what the request carries and the world, and answers with the reply body or
  the exception raised, and the next world.  Replies have the shape the source
  declares for them.  The clock is read from the world.
\<close>

type_synonym ('w, 'r) endpoint = "'w \<Rightarrow> (exn + 'r) \<times> 'w"

record ('w, 'a) transport =
  dateNow :: "'w \<Rightarrow> nat"
  toISOString :: "'w \<Rightarrow> string"
  gqlGetPullRequest :: "string option \<Rightarrow> string \<Rightarrow> ('w, pr_response) endpoint"
  restGetAwardEmoji :: "string option \<Rightarrow> string option \<Rightarrow> ('w, string list) endpoint"
  restGetProjectEvents :: "string option \<Rightarrow> ('w, project_event_raw list) endpoint"
  restGetLabelEvents :: "string option \<Rightarrow> string option \<Rightarrow> ('w, resource_event_raw list) endpoint"
  restGetMilestoneEvents :: "string option \<Rightarrow> string option \<Rightarrow> ('w, resource_event_raw list) endpoint"
  restPostDiscussions :: "string option \<Rightarrow> string option \<Rightarrow> discussion_payload \<Rightarrow> ('w, string) endpoint"
  gqlCreateNote :: "string option \<Rightarrow> string \<Rightarrow> string \<Rightarrow> ('w, create_note_reply) endpoint"
  gqlDestroyNote :: "string \<Rightarrow> ('w, unit) endpoint"
  restPutMergeRequest :: "string option \<Rightarrow> string option \<Rightarrow> mr_update \<Rightarrow> ('w, mr_put_reply) endpoint"
  restPutMerge :: "string option \<Rightarrow> string option \<Rightarrow> merge_payload \<Rightarrow> ('w, merge_reply) endpoint"
  restPostApprove :: "string option \<Rightarrow> string option \<Rightarrow> ('w, approver list) endpoint"
  restPostUnapprove :: "string option \<Rightarrow> string option \<Rightarrow> ('w, approver list) endpoint"
  gqlSetWip :: "string option \<Rightarrow> string option \<Rightarrow> bool \<Rightarrow> ('w, wip_reply) endpoint"
  gqlSetLabels :: "string option \<Rightarrow> string option \<Rightarrow> string list \<Rightarrow> ('w, string) endpoint"
  restGetPage :: "string \<Rightarrow> ('w, 'a api_page) endpoint"

text \<open>Issuing a call: run the oracle on the world and log the call.\<close>

definition perform :: "call \<Rightarrow> ('w, 'r) endpoint \<Rightarrow> 'w provider \<Rightarrow> (exn + 'r) \<times> 'w provider" where
  "perform c f s =
    (case f (world s) of (r, w') \<Rightarrow> (r, s\<lparr>world := w', calls := calls s @ [c]\<rparr>))"

text \<open>
  The REST verbs of the base class (\<open>get\<close>, \<open>post\<close>, \<open>put\<close>, \<open>delete\<close> and their
  \<open>rest...\<close> wrappers): the call, and its exception thrown on as it is.
\<close>

definition restCall :: "call \<Rightarrow> ('w, 'r) endpoint \<Rightarrow> 'w provider \<Rightarrow> (error + 'r) \<times> 'w provider" where
  "restCall c f s =
    (case perform c f s of
       (Inl ex, s') \<Rightarrow> (Inl (Thrown ex), s')
     | (Inr r, s') \<Rightarrow> (Inr r, s'))"

text \<open>
  \<open>client()\<close>: creates the handle if there is none, then fails without an access
  token.
\<close>

definition getClient :: "'w provider \<Rightarrow> (exn + unit) \<times> 'w provider" where
  "getClient s =
    (if truthy (accessToken s) then (Inr (), s\<lparr>client := True\<rparr>)
     else (Inl (newError ''Could not get a GitLab personal access token''), s\<lparr>client := True\<rparr>))"

text \<open>
  The \<open>catch\<close> of \<open>query\<close>: a classified exception is wrapped into an
  \<open>InternalError\<close> of its class; unless the class is the network one, a token-error
  record is reported first and the client handle dropped.  An unclassified exception
  is thrown on unchanged.
\<close>

definition queryCaught :: "('w, 'a) transport \<Rightarrow> exn \<Rightarrow> 'w provider \<Rightarrow> error \<times> 'w provider" where
  "queryCaught t ex s =
    (case isSuppressedException ex of
       None \<Rightarrow> (Thrown ex, s)
     | Some exType \<Rightarrow>
        (InternalError exType (Some ex),
         if exType \<noteq> NetworkError then
           s\<lparr>reportedTokenErrors := reportedTokenErrors s @
                [\<lparr>te_error = ex, te_occurredAt = dateNow t (world s),
                  te_isConnectionError = (exType = ConnectionError)\<rparr>],
              client := False\<rparr>
         else s))"

definition query ::
  "('w, 'a) transport \<Rightarrow> call \<Rightarrow> ('w, 'r) endpoint \<Rightarrow> 'w provider \<Rightarrow> (error + 'r) \<times> 'w provider" where
  "query t c f s =
    (if tokenError s then (Inl (InternalError AccessTokenInvalid None), s\<lparr>client := False\<rparr>)
     else
       (case getClient s of
          (Inl ex, s1) \<Rightarrow> (case queryCaught t ex s1 of (e, s2) \<Rightarrow> (Inl e, s2))
        | (Inr u, s1) \<Rightarrow>
           (case perform c f s1 of
              (Inl ex, s2) \<Rightarrow> (case queryCaught t ex s2 of (e, s3) \<Rightarrow> (Inl e, s3))
            | (Inr r, s2) \<Rightarrow> (Inr r, s2))))"

definition mutate :: "call \<Rightarrow> ('w, 'r) endpoint \<Rightarrow> 'w provider \<Rightarrow> (error + 'r) \<times> 'w provider" where
  "mutate c f s =
    (case getClient s of
       (Inl ex, s1) \<Rightarrow> (Inl (Thrown ex), s1)
     | (Inr u, s1) \<Rightarrow> restCall c f s1)"

section \<open>Pagination walker\<close>

text \<open>
  \<open>String.prototype.trim\<close> strips white space and line terminators from both ends;
  among the code units modelled these are 9 to 13, 32 and 160.
\<close>

definition isWhiteSpace :: "char \<Rightarrow> bool" where
  "isWhiteSpace c =
    (let n = of_char c :: nat in (9 \<le> n \<and> n \<le> 13) \<or> n = 32 \<or> n = 160)"

definition js_trim :: "string \<Rightarrow> string" where
  "js_trim s = rev (dropWhile isWhiteSpace (rev (dropWhile isWhiteSpace s)))"

text \<open>\<open>s.substring(start, end)\<close>: both bounds clamped to the string, swapped if
  out of order.\<close>

definition js_substring :: "string \<Rightarrow> int \<Rightarrow> int \<Rightarrow> string" where
  "js_substring s start end' =
    (let len = int (length s);
         a = min (max start 0) len;
         b = min (max end' 0) len
     in take (nat (max a b - min a b)) (drop (nat (min a b)) s))"

text \<open>\<open>s.replace(pat, "")\<close> for a string pattern: the first occurrence goes.\<close>

fun removeFirst :: "string \<Rightarrow> string \<Rightarrow> string" where
  "removeFirst pat [] = []"
| "removeFirst pat (c # cs) =
    (if startsWith pat (c # cs) then drop (length pat) (c # cs) else c # removeFirst pat cs)"

definition relNext :: string where
  "relNext = ''rel='' @ [CHR 0x22] @ ''next'' @ [CHR 0x22]"

text \<open>
  The body of the \<open>for\<close> loop of \<open>nextPage\<close>.  \<open>const [rawUrl, rawRel] =
  link.split(";")\<close> leaves \<open>rawRel\<close> undefined when the segment has no \<open>;\<close>, and
  \<open>rawRel.trim()\<close> then raises \<open>TypeError\<close>.
\<close>

fun scanLinks :: "string \<Rightarrow> string list \<Rightarrow> error + string option" where
  "scanLinks base [] = Inr None"
| "scanLinks base (link # links) =
    (case js_split (CHR '';'') link of
       [] \<Rightarrow> Inl TypeError
     | [rawUrl] \<Rightarrow> Inl TypeError
     | rawUrl # rawRel # others \<Rightarrow>
        (let url = js_trim rawUrl; rel = js_trim rawRel in
         if rel = relNext
         then Inr (Some (removeFirst base (js_substring url 1 (int (length url) - 1))))
         else scanLinks base links))"

text \<open>\<open>nextPage\<close>; the first argument is \<open>this.baseUrl\<close>, the second
  \<open>response.headers.get("Link")\<close>.\<close>

definition nextPage :: "string \<Rightarrow> string option \<Rightarrow> error + string option" where
  "nextPage base link =
    (let linkHeader = (case link of None \<Rightarrow> [] | Some h \<Rightarrow> h) in
     if js_trim linkHeader = [] then Inr None
     else scanLinks base (js_split (CHR '','') linkHeader))"

text \<open>
  \<open>encodeURIComponent\<close> on the code units modelled: the unreserved marks stay, any
  other code unit becomes its UTF-8 bytes, each as \<open>%XX\<close> in upper-case hex.
\<close>

definition upperHexDigit :: "nat \<Rightarrow> char" where
  "upperHexDigit n = char_of (if n < 10 then 48 + n else 55 + n)"

definition percentByte :: "nat \<Rightarrow> string" where
  "percentByte n = [CHR ''%'', upperHexDigit (n div 16), upperHexDigit (n mod 16)]"

definition uriUnreserved :: "char \<Rightarrow> bool" where
  "uriUnreserved c =
    (let n = of_char c :: nat in
     (48 \<le> n \<and> n \<le> 57) \<or> (65 \<le> n \<and> n \<le> 90) \<or> (97 \<le> n \<and> n \<le> 122)
     \<or> c \<in> set ''-_.!~*()'' \<or> n = 39)"

definition encodeURIChar :: "char \<Rightarrow> string" where
  "encodeURIChar c =
    (let n = of_char c :: nat in
     if uriUnreserved c then [c]
     else if n < 128 then percentByte n
     else percentByte (192 + n div 64) @ percentByte (128 + n mod 64))"

definition encodeURIComponent :: "string \<Rightarrow> string" where
  "encodeURIComponent s = concat (map encodeURIChar s)"

record gitlab_pull_request =
  gp_id :: int
  gp_iid :: int
  gp_number :: "int option"
  gp_title :: string
  gp_web_url :: string
  gp_state :: string
  gp_target_branch :: string
  gp_source_branch :: string

text \<open>
  The \<open>do ... while (url)\<close> loop of \<open>_getPullRequestsByState\<close> inside its
  \<open>try\<close>: fetch, append, read the next link.  An exception of the fetch or of
  \<open>nextPage\<close> ends the loop with the items gathered so far (the \<open>catch\<close> logs it).
  The loop has no bound of its own, so the model is a partial function:
  \<^const>\<open>None\<close> means it runs forever.
\<close>

partial_function (option) walkPages ::
  "('w, 'a) transport \<Rightarrow> string \<Rightarrow> 'a list \<Rightarrow> 'w provider \<Rightarrow> ('a list \<times> 'w provider) option" where
  "walkPages t url prs s =
    (case restCall (Call ''GET'' url None None) (restGetPage t url) s of
       (Inl e, s') \<Rightarrow> Some (prs, s')
     | (Inr page, s') \<Rightarrow>
        (case nextPage (baseUrl s') (pg_link page) of
           Inl e \<Rightarrow> Some (prs @ pg_body page, s')
         | Inr None \<Rightarrow> Some (prs @ pg_body page, s')
         | Inr (Some u) \<Rightarrow>
            if u = [] then Some (prs @ pg_body page, s')
            else walkPages t u (prs @ pg_body page) s'))"

definition listingUrl :: "string \<Rightarrow> string \<Rightarrow> string" where
  "listingUrl remotePath state =
    ''/projects/'' @ encodeURIComponent remotePath @ ''/merge_requests?state='' @ state"

text \<open>\<open>_getPullRequestsByState\<close>: the loop from the listing URL, then
  \<open>prs.forEach(pr => (pr.number = pr.iid))\<close>.\<close>

definition getPullRequestsByState ::
  "('w, gitlab_pull_request) transport \<Rightarrow> string \<Rightarrow> string \<Rightarrow> 'w provider
    \<Rightarrow> (gitlab_pull_request list \<times> 'w provider) option" where
  "getPullRequestsByState t remotePath state s =
    (case walkPages t (listingUrl remotePath state) [] s of
       None \<Rightarrow> None
     | Some (prs, s') \<Rightarrow> Some (map (\<lambda>pr. pr\<lparr>gp_number := Some (gp_iid pr)\<rparr>) prs, s'))"

subsection \<open>Page sequences and well-formed headers\<close>

text \<open>
  \<open>pageSequence t base url w ps\<close>: starting at \<open>url\<close> in world \<open>w\<close>, the transport
  serves the pages \<open>ps\<close> in turn, \<open>nextPage\<close> reads a non-empty next path from every
  page but the last, and reads none from the last.  \<open>pageUrls\<close> are the URLs asked
  for on the way.
\<close>

fun pageSequence :: "('w, 'a) transport \<Rightarrow> string \<Rightarrow> string \<Rightarrow> 'w \<Rightarrow> 'a api_page list \<Rightarrow> bool" where
  "pageSequence t base url w [] = False"
| "pageSequence t base url w (p # ps) =
    (case restGetPage t url w of
       (Inl e, w') \<Rightarrow> False
     | (Inr q, w') \<Rightarrow>
        q = p \<and>
        (case nextPage base (pg_link p) of
           Inl e \<Rightarrow> False
         | Inr None \<Rightarrow> ps = []
         | Inr (Some u) \<Rightarrow> u \<noteq> [] \<and> ps \<noteq> [] \<and> pageSequence t base u w' ps))"

fun pageUrls :: "string \<Rightarrow> string \<Rightarrow> 'a api_page list \<Rightarrow> string list" where
  "pageUrls base url [] = []"
| "pageUrls base url (p # ps) =
    url # (case nextPage base (pg_link p) of
             Inr (Some u) \<Rightarrow> pageUrls base u ps
           | _ \<Rightarrow> [])"

text \<open>
  A \<open>Link\<close> header as GitLab writes it: values \<open><url>; rel="name"\<close> joined by a
  comma and a blank.  A link is clean when neither its URL nor its relation name
  contains a comma or a semicolon.  \<open>advertised\<close> is the URL of the first link named
  \<open>next\<close>, less the first occurrence of the base URL.
\<close>

definition linkValue :: "string \<Rightarrow> string \<Rightarrow> string" where
  "linkValue url rel = CHR ''<'' # url @ ''>; rel='' @ [CHR 0x22] @ rel @ [CHR 0x22]"

fun linkHeaderOf :: "(string \<times> string) list \<Rightarrow> string" where
  "linkHeaderOf [] = []"
| "linkHeaderOf [l] = linkValue (fst l) (snd l)"
| "linkHeaderOf (l # ls) = linkValue (fst l) (snd l) @ '', '' @ linkHeaderOf ls"

definition cleanLink :: "string \<times> string \<Rightarrow> bool" where
  "cleanLink l =
    (CHR '','' \<notin> set (fst l) \<and> CHR '';'' \<notin> set (fst l)
     \<and> CHR '','' \<notin> set (snd l) \<and> CHR '';'' \<notin> set (snd l))"

definition advertised :: "string \<Rightarrow> (string \<times> string) list \<Rightarrow> string option" where
  "advertised base links =
    (case find (\<lambda>l. snd l = ''next'') links of
       None \<Rightarrow> None
     | Some l \<Rightarrow> Some (removeFirst base (fst l)))"

section \<open>Response normaliser and discussion assembler\<close>

text \<open>
  The field renames of \<open>getPullRequest\<close> after the award fetch.  \<open>pid\<close> is
  \<open>this.providerConfig?.id\<close>.
\<close>

definition normalise :: "string option \<Rightarrow> pr_response \<Rightarrow> pr_response" where
  "normalise pid r =
    (let mr = mergeRequest r;
         sp = mr_sourceProject mr;
         full = sp_fullPath sp @ mr_reference mr
     in r\<lparr>mergeRequest := mr
          \<lparr>mr_providerId := pid,
           mr_baseRefOid := map_option baseSha (mr_diffRefs mr),
           mr_baseRefName := Some (mr_targetBranch mr),
           mr_headRefOid := map_option headSha (mr_diffRefs mr),
           mr_headRefName := Some (mr_sourceBranch mr),
           mr_repository := Some \<lparr>repo_name = sp_name sp, repo_nameWithOwner = sp_fullPath sp,
                                   repo_url = sp_webUrl sp\<rparr>,
           mr_url := Some (sp_webUrl sp),
           mr_merged := Some (truthy (mr_mergedAt mr)),
           mr_references_full := Some full,
           mr_idComputed := Some (encodeId (mr_id mr) full)\<rparr>\<rparr>)"

fun setComputedIds :: "string \<Rightarrow> string \<Rightarrow> pr_note \<Rightarrow> pr_note" where
  "setComputedIds db fullId (Note i a b bt c d p pe st odb omc r) =
     Note i a b bt c d p pe st (Some db) (Some fullId) r"

fun setReplies :: "pr_note list \<Rightarrow> pr_note \<Rightarrow> pr_note" where
  "setReplies rs (Note i a b bt c d p pe st db mc r) = Note i a b bt c d p pe st db mc (Some rs)"

text \<open>The inner \<open>forEach\<close>: a note with a discussion id gets its \<open>databaseId\<close>
  (the id less the two global-id prefixes) and the merge request's computed id.\<close>

definition annotateNote :: "string \<Rightarrow> pr_note \<Rightarrow> pr_note" where
  "annotateNote fullId n =
    (case n_discussionId n of
       None \<Rightarrow> n
     | Some d \<Rightarrow>
        if d = [] then n
        else setComputedIds
               (removeFirst ''gid://gitlab/IndividualNoteDiscussion/''
                 (removeFirst ''gid://gitlab/DiffDiscussion/'' d))
               fullId n)"

text \<open>
  The splitter: with a non-empty note list, every note is annotated, the first gets
  as \<open>replies\<close> the notes whose id differs from its own, and the list is cut to
  length 1.
\<close>

definition splitNotes :: "string \<Rightarrow> discussion \<Rightarrow> discussion" where
  "splitNotes fullId d =
    (case d_notes d of
       None \<Rightarrow> d
     | Some [] \<Rightarrow> d
     | Some (n # ns) \<Rightarrow>
        d\<lparr>d_notes :=
            Some [setReplies
                    (filter (\<lambda>x. n_id x \<noteq> n_id (annotateNote fullId n))
                       (map (annotateNote fullId) (n # ns)))
                    (annotateNote fullId n)]\<rparr>)"

fun splitNode :: "string \<Rightarrow> node \<Rightarrow> node" where
  "splitNode fullId (DiscussionNode d) = DiscussionNode (splitNotes fullId d)"
| "splitNode fullId (ProjectEventNode e) = ProjectEventNode e"
| "splitNode fullId (ResourceEventNode e) = ResourceEventNode e"

definition splitDiscussions :: "pr_response \<Rightarrow> pr_response" where
  "splitDiscussions r =
    (let mr = mergeRequest r;
         fullId = (case mr_idComputed mr of None \<Rightarrow> [] | Some f \<Rightarrow> f)
     in r\<lparr>mergeRequest := mr\<lparr>mr_discussions := map (splitNode fullId) (mr_discussions mr)\<rparr>\<rparr>)"

text \<open>The synthetic node for a pending review.\<close>

definition pendingAuthor :: author where
  "pendingAuthor =
    \<lparr>a_name = ''Pending'', a_username = ''pending'',
     a_avatarUrl = ''https://about.gitlab.com/images/press/logo/png/gitlab-icon-rgb.png''\<rparr>"

definition pendingNote :: "string \<Rightarrow> pending_entry \<Rightarrow> pr_note" where
  "pendingNote now e =
    Note ''undefined'' pendingAuthor (entryText e) (entryText e) now None
      (Some \<lparr>oldPath = entryFilePath e, newPath = entryFilePath e, newLine = entryStartLine e\<rparr>)
      True (Some ''PENDING'') None None None"

definition pendingNode :: "string \<Rightarrow> pending_entry list \<Rightarrow> node" where
  "pendingNode now entries =
    DiscussionNode \<lparr>d_id = ''undefined'', d_createdAt = now, d_pending = True,
                    d_notes = Some (map (pendingNote now) entries)\<rparr>"

text \<open>
  \<open>const pendingReview = this._pendingReviewStore.get(response.project.mergeRequest.id)\<close>:
  any stored list, the empty one too, is truthy.
\<close>

definition withPending ::
  "string \<Rightarrow> (string option \<rightharpoonup> pending_entry list) \<Rightarrow> pr_response \<Rightarrow> pr_response" where
  "withPending now store r =
    (case store (Some (mr_id (mergeRequest r))) of
       None \<Rightarrow> r
     | Some pending \<Rightarrow>
        r\<lparr>mergeRequest := (mergeRequest r)
          \<lparr>mr_pendingReview := Some (length pending),
           mr_discussions := mr_discussions (mergeRequest r) @ [pendingNode now pending]\<rparr>\<rparr>)"

text \<open>The three auxiliary event fetches.\<close>

definition toProjectEvent :: "project_event_raw \<Rightarrow> project_event" where
  "toProjectEvent e =
    \<lparr>pe_type = ''merge-request'', pe_author = pr_author e, pe_action = pr_action_name e,
     pe_createdAt = pr_created_at e, pe_id = pr_id e, pe_projectId = pr_project_id e,
     pe_targetId = pr_target_id e, pe_targetTitle = pr_target_title e,
     pe_targetType = pr_target_type e\<rparr>"

definition toResourceEvent :: "string \<Rightarrow> resource_event_raw \<Rightarrow> resource_event" where
  "toResourceEvent ty e =
    \<lparr>re_type = ty, re_createdAt = rr_created_at e, re_action = rr_action e, re_id = rr_id e,
     re_label = rr_label e, re_resourceType = rr_resource_type e, re_user = rr_user e\<rparr>"

definition projectEvents ::
  "('w, 'a) transport \<Rightarrow> string option \<Rightarrow> 'w provider \<Rightarrow> (error + node list) \<times> 'w provider" where
  "projectEvents t projectFullPath s =
    (case restCall (Call ''GET'' ''events'' projectFullPath None) (restGetProjectEvents t projectFullPath) s of
       (Inl e, s') \<Rightarrow> (Inl e, s')
     | (Inr body, s') \<Rightarrow>
        (Inr (map (ProjectEventNode \<circ> toProjectEvent)
               (filter (\<lambda>e. pr_action_name e \<noteq> ''commented on'' \<and> pr_action_name e \<noteq> ''pushed to'')
                  body)), s'))"

definition labelEvents ::
  "('w, 'a) transport \<Rightarrow> string option \<Rightarrow> string option \<Rightarrow> 'w provider
    \<Rightarrow> (error + node list) \<times> 'w provider" where
  "labelEvents t projectFullPath iid s =
    (case restCall (Call ''GET'' ''resource_label_events'' projectFullPath iid)
            (restGetLabelEvents t projectFullPath iid) s of
       (Inl e, s') \<Rightarrow> (Inl e, s')
     | (Inr body, s') \<Rightarrow> (Inr (map (ResourceEventNode \<circ> toResourceEvent ''label'') body), s'))"

definition milestoneEvents ::
  "('w, 'a) transport \<Rightarrow> string option \<Rightarrow> string option \<Rightarrow> 'w provider
    \<Rightarrow> (error + node list) \<times> 'w provider" where
  "milestoneEvents t projectFullPath iid s =
    (case restCall (Call ''GET'' ''resource_milestone_events'' projectFullPath iid)
            (restGetMilestoneEvents t projectFullPath iid) s of
       (Inl e, s') \<Rightarrow> (Inl e, s')
     | (Inr body, s') \<Rightarrow> (Inr (map (ResourceEventNode \<circ> toResourceEvent ''milestone'') body), s'))"

text \<open>
  \<open>Promise.all\<close> over the three fetches: all three requests are issued, in the order
  of the array; the result is the three lists in that order, or a rejection if any
  fetch failed (the model reports the first failure in array order; the caller only
  logs it).
\<close>

definition auxiliaryEvents ::
  "('w, 'a) transport \<Rightarrow> string option \<Rightarrow> string option \<Rightarrow> 'w provider
    \<Rightarrow> (error + node list) \<times> 'w provider" where
  "auxiliaryEvents t projectFullPath iid s =
    (case projectEvents t projectFullPath s of
       (rp, s1) \<Rightarrow>
        (case labelEvents t projectFullPath iid s1 of
           (rl, s2) \<Rightarrow>
            (case milestoneEvents t projectFullPath iid s2 of
               (rm, s3) \<Rightarrow>
                (case rp of
                   Inl e \<Rightarrow> (Inl e, s3)
                 | Inr pe \<Rightarrow>
                    (case rl of
                       Inl e \<Rightarrow> (Inl e, s3)
                     | Inr le \<Rightarrow>
                        (case rm of
                           Inl e \<Rightarrow> (Inl e, s3)
                         | Inr me \<Rightarrow> (Inr (pe @ le @ me), s3)))))))"

text \<open>
  The comparator of the final \<open>sort\<close>, on JavaScript's string order (by code unit,
  a proper prefix first), and \<open>Array.prototype.sort\<close> itself: a stable sort, written
  as insertion from the right.
\<close>

definition compareCreatedAt :: "node \<Rightarrow> node \<Rightarrow> int" where
  "compareCreatedAt a b =
    (if createdAt a < createdAt b then - 1 else if createdAt a > createdAt b then 1 else 0)"

fun js_insert :: "('a \<Rightarrow> 'a \<Rightarrow> int) \<Rightarrow> 'a \<Rightarrow> 'a list \<Rightarrow> 'a list" where
  "js_insert cmp x [] = [x]"
| "js_insert cmp x (y # ys) = (if cmp x y \<le> 0 then x # y # ys else y # js_insert cmp x ys)"

fun js_sort :: "('a \<Rightarrow> 'a \<Rightarrow> int) \<Rightarrow> 'a list \<Rightarrow> 'a list" where
  "js_sort cmp [] = []"
| "js_sort cmp (x # xs) = js_insert cmp x (js_sort cmp xs)"

text \<open>The merge step: push the three event lists, then sort the whole timeline.\<close>

definition assembleTimeline :: "node list \<Rightarrow> node list \<Rightarrow> node list" where
  "assembleTimeline discussions events = js_sort compareCreatedAt (discussions @ events)"

section \<open>Pull-request detail\<close>

text \<open>
  The body of \<open>getPullRequest\<close> past the cache check; its \<open>try\<close> swallows every
  exception, so it always returns the \<open>response\<close> object as far as it got:
  \<^item> \<open>iid.toString()\<close> on an undefined \<open>iid\<close>, or a failed query: the initial \<open>{}\<close>;
  \<^item> a failed award fetch: the reply with only \<open>viewer\<close> set, not cached;
  \<^item> a failed event fetch: the normalised reply with split discussions and the
    pending node, without events and unsorted;
  \<^item> otherwise the full timeline.
  \<open>this._pullRequestCache.set(actualPullRequestId, response)\<close> runs before the pending
  node and the events are added, but stores the very object that is then changed in
  place; the model therefore writes the cache entry with the object's final value.
  \<open>ensureConnected\<close> belongs to the base class and is taken to succeed.
\<close>

definition fetchPullRequest ::
  "('w, 'a) transport \<Rightarrow> string option \<Rightarrow> string option \<Rightarrow> string option \<Rightarrow> 'w provider
    \<Rightarrow> pr_result \<times> 'w provider" where
  "fetchPullRequest t actualPullRequestId projectFullPath iid s =
    (case iid of
       None \<Rightarrow> (EmptyResponse, s)
     | Some i \<Rightarrow>
        (case query t (Call ''QUERY'' ''GetPullRequest'' projectFullPath (Some i))
                (gqlGetPullRequest t projectFullPath i) s of
           (Inl e, s1) \<Rightarrow> (EmptyResponse, s1)
         | (Inr r0, s1) \<Rightarrow>
            (let r1 = r0\<lparr>mergeRequest := (mergeRequest r0)\<lparr>mr_viewer := Some (currentUser_username r0)\<rparr>\<rparr>;
                 s2 = s1\<lparr>gitlabUsername := Some (currentUser_username r0)\<rparr>
             in case restCall (Call ''GET'' ''award_emoji'' projectFullPath (Some i))
                       (restGetAwardEmoji t projectFullPath (Some i)) s2 of
                  (Inl e, s3) \<Rightarrow> (Response r1, s3)
                | (Inr awards, s3) \<Rightarrow>
                   (let r2 = splitDiscussions (normalise (providerConfigId s3) r1);
                        r3 = withPending (toISOString t (world s3)) (pendingReviewStore s3) r2
                    in case auxiliaryEvents t projectFullPath (Some i) s3 of
                         (Inl e, s4) \<Rightarrow>
                           (Response r3,
                            s4\<lparr>pullRequestCache := (pullRequestCache s4)(actualPullRequestId \<mapsto> r3)\<rparr>)
                       | (Inr events, s4) \<Rightarrow>
                           (let r4 = r3\<lparr>mergeRequest := (mergeRequest r3)
                                  \<lparr>mr_discussions :=
                                      assembleTimeline (mr_discussions (mergeRequest r3)) events\<rparr>\<rparr>
                            in (Response r4,
                                s4\<lparr>pullRequestCache :=
                                     (pullRequestCache s4)(actualPullRequestId \<mapsto> r4)\<rparr>))))))"

definition getPullRequest ::
  "('w, 'a) transport \<Rightarrow> string \<Rightarrow> bool \<Rightarrow> 'w provider \<Rightarrow> (error + pr_result) \<times> 'w provider" where
  "getPullRequest t pullRequestId force s =
    (case decodeGuarded pullRequestId of
       Inl e \<Rightarrow> (Inl e, s)
     | Inr (actualPullRequestId, projectFullPath, iid) \<Rightarrow>
        if force then
          (case fetchPullRequest t actualPullRequestId projectFullPath iid
                  (s\<lparr>pullRequestCache := (pullRequestCache s)(actualPullRequestId := None)\<rparr>) of
             (r, s') \<Rightarrow> (Inr r, s'))
        else
          (case pullRequestCache s actualPullRequestId of
             Some cached \<Rightarrow> (Inr (Response cached), s)
           | None \<Rightarrow>
              (case fetchPullRequest t actualPullRequestId projectFullPath iid s of
                 (r, s') \<Rightarrow> (Inr r, s'))))"

section \<open>Pending review store and mutations\<close>

datatype directive_data =
    DiscussionLocked bool
  | MilestoneData "string option"
  | WorkInProgressData bool string
  | LabelsData string
  | MergedData string "string option" "string option"
  | ApprovedByData "approver list option"
  | AddNode "discussion option"
  | RemoveNode string

datatype directive = Directive string directive_data

text \<open>\<open>getPendingReview\<close> (and \<open>getPullRequestReviewId\<close>, which has the same body):
  \<open>this._pendingReviewStore.has(actualPullRequestId)\<close>.\<close>

definition getPendingReview :: "string \<Rightarrow> 'w provider \<Rightarrow> error + bool" where
  "getPendingReview pullRequestId s =
    (case decodeIdOnly pullRequestId of
       Inl e \<Rightarrow> Inl e
     | Inr actualPullRequestId \<Rightarrow> Inr (pendingReviewStore s actualPullRequestId \<noteq> None))"

text \<open>\<open>createPullRequestReviewComment\<close> (and \<open>createPullRequestInlineReviewComment\<close>,
  which only forwards to it): stage the comment, drop the cache entry, notify.\<close>

definition createPullRequestReviewComment ::
  "review_comment_request \<Rightarrow> 'w provider \<Rightarrow> (error + bool) \<times> 'w provider" where
  "createPullRequestReviewComment request s =
    (case decodeIdOnly (rc_pullRequestId request) of
       Inl e \<Rightarrow> (Inl e, s)
     | Inr actualPullRequestId \<Rightarrow>
        (Inr True,
         s\<lparr>pendingReviewStore :=
             (case pendingReviewStore s actualPullRequestId of
                Some existing \<Rightarrow>
                  (pendingReviewStore s)(actualPullRequestId \<mapsto> existing @ [Wrapped request])
              | None \<Rightarrow> (pendingReviewStore s)(actualPullRequestId \<mapsto> [Bare request])),
           pullRequestCache := (pullRequestCache s)(actualPullRequestId := None),
           notifications := notifications s @
             [\<lparr>nf_pullRequestId = actualPullRequestId, nf_filePath = rc_filePath request,
               nf_commentId = None\<rparr>]\<rparr>))"

record commit_comment_request =
  cc_pullRequestId :: string
  cc_leftSha :: "string option"
  cc_sha :: "string option"
  cc_text :: "string option"
  cc_path :: "string option"
  cc_startLine :: "int option"

text \<open>\<open>createCommitComment\<close>: post the discussion; only after the post succeeded is
  the cache entry dropped and the notification sent.\<close>

definition createCommitComment ::
  "('w, 'a) transport \<Rightarrow> commit_comment_request \<Rightarrow> 'w provider \<Rightarrow> (error + string) \<times> 'w provider" where
  "createCommitComment t request s =
    (case decodeUnguarded (cc_pullRequestId request) of
       Inl e \<Rightarrow> (Inl e, s)
     | Inr (actualPullRequestId, projectFullPath, iid) \<Rightarrow>
        (case restCall (Call ''POST'' ''discussions'' projectFullPath iid)
                (restPostDiscussions t projectFullPath iid
                   \<lparr>dp_body = cc_text request, dp_base_sha = cc_leftSha request,
                    dp_head_sha = cc_sha request, dp_start_sha = cc_leftSha request,
                    dp_position_type = ''text'', dp_new_path = cc_path request,
                    dp_new_line = cc_startLine request\<rparr>) s of
           (Inl e, s') \<Rightarrow> (Inl e, s')
         | (Inr body, s') \<Rightarrow>
            (Inr body,
             s'\<lparr>pullRequestCache := (pullRequestCache s')(actualPullRequestId := None),
                notifications := notifications s' @
                  [\<lparr>nf_pullRequestId = actualPullRequestId, nf_filePath = None,
                    nf_commentId = None\<rparr>]\<rparr>)))"

record inline_comment_request =
  ic_pullRequestId :: string
  ic_text :: "string option"
  ic_sha :: "string option"
  ic_leftSha :: "string option"
  ic_rightSha :: "string option"
  ic_filePath :: "string option"
  ic_startLine :: "int option"

text \<open>\<open>createPullRequestInlineComment\<close>: \<open>path: request.filePath\<close>,
  \<open>sha: request.sha || request.rightSha\<close>.\<close>

definition createPullRequestInlineComment ::
  "('w, 'a) transport \<Rightarrow> inline_comment_request \<Rightarrow> 'w provider \<Rightarrow> (error + string) \<times> 'w provider" where
  "createPullRequestInlineComment t request s =
    createCommitComment t
      \<lparr>cc_pullRequestId = ic_pullRequestId request, cc_leftSha = ic_leftSha request,
       cc_sha = (if truthy (ic_sha request) then ic_sha request else ic_rightSha request),
       cc_text = ic_text request, cc_path = ic_filePath request,
       cc_startLine = ic_startLine request\<rparr> s"

text \<open>\<open>{ ...comment, pullRequestId: request.pullRequestId }\<close> for a staged entry.\<close>

definition entryRequest :: "string \<Rightarrow> pending_entry \<Rightarrow> inline_comment_request" where
  "entryRequest pullRequestId e =
    \<lparr>ic_pullRequestId = pullRequestId, ic_text = entryText e, ic_sha = entrySha e,
     ic_leftSha = entryLeftSha e, ic_rightSha = entryRightSha e,
     ic_filePath = entryFilePath e, ic_startLine = entryStartLine e\<rparr>"

text \<open>The \<open>for\<close> loop of \<open>submitReview\<close>: each post in its own \<open>try\<close>, a failure
  logged and passed over.\<close>

fun flushPending ::
  "('w, 'a) transport \<Rightarrow> string \<Rightarrow> pending_entry list \<Rightarrow> 'w provider \<Rightarrow> 'w provider" where
  "flushPending t pullRequestId [] s = s"
| "flushPending t pullRequestId (e # es) s =
    (case createPullRequestInlineComment t (entryRequest pullRequestId e) s of
       (r, s') \<Rightarrow> flushPending t pullRequestId es s')"

text \<open>The search for the added node in the reply of \<open>CreateNote\<close>; reading
  \<open>_.notes.nodes\<close> of a discussion without notes raises \<open>TypeError\<close>.\<close>

fun findAddedNode :: "string \<Rightarrow> discussion list \<Rightarrow> error + discussion option" where
  "findAddedNode noteId [] = Inr None"
| "findAddedNode noteId (d # ds) =
    (case d_notes d of
       None \<Rightarrow> Inl TypeError
     | Some ns \<Rightarrow>
        if find (\<lambda>n. n_id n = noteId) ns \<noteq> None then Inr (Some d)
        else findAddedNode noteId ds)"

text \<open>
  \<open>createPullRequestComment\<close>.  \<open>iid0\<close> is the \<open>iid\<close> the caller put into the request;
  a non-empty token overrides it.  \<open>request.iid!.toString()\<close> raises \<open>TypeError\<close>
  before \<open>mutate\<close> is entered when no \<open>iid\<close> is known.
\<close>

definition createPullRequestComment ::
  "('w, 'a) transport \<Rightarrow> string \<Rightarrow> string \<Rightarrow> string option \<Rightarrow> 'w provider
    \<Rightarrow> (error + directive list) \<times> 'w provider" where
  "createPullRequestComment t pullRequestId text' iid0 s =
    (case (if pullRequestId = [] then Inr (None, iid0)
           else (case decodeUnguarded pullRequestId of
                   Inl e \<Rightarrow> Inl e
                 | Inr (actualPullRequestId, projectFullPath, iid) \<Rightarrow> Inr (actualPullRequestId, iid))) of
       Inl e \<Rightarrow> (Inl e, s)
     | Inr (noteableId, iid) \<Rightarrow>
        (case iid of
           None \<Rightarrow> (Inl TypeError, s)
         | Some i \<Rightarrow>
            (case mutate (Call ''MUTATE'' ''CreateNote'' None (Some i))
                    (gqlCreateNote t noteableId text' i) s of
               (Inl e, s') \<Rightarrow> (Inl e, s')
             | (Inr reply, s') \<Rightarrow>
                (case findAddedNode (cn_noteId reply) (cn_nodes reply) of
                   Inl e \<Rightarrow> (Inl e, s')
                 | Inr addedNode \<Rightarrow> (Inr [Directive ''addNode'' (AddNode addedNode)], s')))))"

text \<open>\<open>deletePullRequestComment\<close>.\<close>

definition deletePullRequestComment ::
  "('w, 'a) transport \<Rightarrow> string \<Rightarrow> string \<Rightarrow> 'w provider \<Rightarrow> (error + directive list) \<times> 'w provider" where
  "deletePullRequestComment t noteId pullRequestId s =
    (case decodeIdOnly pullRequestId of
       Inl e \<Rightarrow> (Inl e, s)
     | Inr actualPullRequestId \<Rightarrow>
        (case mutate (Call ''MUTATE'' ''DestroyNote'' None None) (gqlDestroyNote t noteId) s of
           (Inl e, s') \<Rightarrow> (Inl e, s')
         | (Inr u, s') \<Rightarrow>
            (Inr [Directive ''removeNode'' (RemoveNode noteId)],
             s'\<lparr>pullRequestCache := (pullRequestCache s')(actualPullRequestId := None),
                notifications := notifications s' @
                  [\<lparr>nf_pullRequestId = actualPullRequestId, nf_filePath = None,
                    nf_commentId = Some noteId\<rparr>]\<rparr>)))"

text \<open>
  \<open>submitReview\<close>: default and check the event type, flush the staged comments and
  reset the list to \<open>[]\<close> if it was not empty, then post the summary comment if
  there is a text.
\<close>

record submit_review_request =
  sr_pullRequestId :: string
  sr_text :: string
  sr_eventType :: "string option"

definition effectiveEventType :: "string option \<Rightarrow> string" where
  "effectiveEventType eventType =
    (case eventType of None \<Rightarrow> ''COMMENT'' | Some e \<Rightarrow> if e = [] then ''COMMENT'' else e)"

definition validEventType :: "string \<Rightarrow> bool" where
  "validEventType e = (e = ''COMMENT'' \<or> e = ''APPROVE'' \<or> e = ''REQUEST_CHANGES'')"

definition submitReview ::
  "('w, 'a) transport \<Rightarrow> submit_review_request \<Rightarrow> 'w provider \<Rightarrow> (error + bool) \<times> 'w provider" where
  "submitReview t request s =
    (case decodeIdOnly (sr_pullRequestId request) of
       Inl e \<Rightarrow> (Inl e, s)
     | Inr actualPullRequestId \<Rightarrow>
        if \<not> validEventType (effectiveEventType (sr_eventType request))
        then (Inl (Thrown (newError ''Invalid eventType'')), s)
        else
          (let s1 =
             (case pendingReviewStore s actualPullRequestId of
                None \<Rightarrow> s
              | Some [] \<Rightarrow> s
              | Some (c # cs) \<Rightarrow>
                 (let s' = flushPending t (sr_pullRequestId request) (c # cs) s
                  in s'\<lparr>pendingReviewStore := (pendingReviewStore s')(actualPullRequestId \<mapsto> [])\<rparr>))
           in if sr_text request = [] then (Inr True, s1)
              else (case createPullRequestComment t (sr_pullRequestId request) (sr_text request) None s1 of
                      (Inl e, s2) \<Rightarrow> (Inl e, s2)
                    | (Inr d, s2) \<Rightarrow> (Inr True, s2))))"

text \<open>The directive-returning mutations.  None of them touches a cache.\<close>

definition setDiscussionLocked ::
  "('w, 'a) transport \<Rightarrow> bool \<Rightarrow> string \<Rightarrow> 'w provider \<Rightarrow> (error + directive list) \<times> 'w provider" where
  "setDiscussionLocked t locked pullRequestId s =
    (case parseId pullRequestId of
       Inl e \<Rightarrow> (Inl e, s)
     | Inr (projectFullPath, iid) \<Rightarrow>
        (case restCall (Call ''PUT'' ''merge_request'' projectFullPath iid)
                (restPutMergeRequest t projectFullPath iid (SetDiscussionLocked locked)) s of
           (Inl e, s') \<Rightarrow> (Inl e, s')
         | (Inr body, s') \<Rightarrow>
            (Inr [Directive ''updatePullRequest'' (DiscussionLocked (put_discussion_locked body))], s')))"

definition lockPullRequest ::
  "('w, 'a) transport \<Rightarrow> string \<Rightarrow> 'w provider \<Rightarrow> (error + directive list) \<times> 'w provider" where
  "lockPullRequest t pullRequestId s = setDiscussionLocked t True pullRequestId s"

definition unlockPullRequest ::
  "('w, 'a) transport \<Rightarrow> string \<Rightarrow> 'w provider \<Rightarrow> (error + directive list) \<times> 'w provider" where
  "unlockPullRequest t pullRequestId s = setDiscussionLocked t False pullRequestId s"

text \<open>The next four catch the exception of their call, log it and return
  \<open>undefined\<close>.\<close>

definition toggleMilestoneOnPullRequest ::
  "('w, 'a) transport \<Rightarrow> string \<Rightarrow> string \<Rightarrow> 'w provider
    \<Rightarrow> (error + directive list option) \<times> 'w provider" where
  "toggleMilestoneOnPullRequest t pullRequestId milestoneId s =
    (case parseId pullRequestId of
       Inl e \<Rightarrow> (Inl e, s)
     | Inr (projectFullPath, iid) \<Rightarrow>
        (case restCall (Call ''PUT'' ''merge_request'' projectFullPath iid)
                (restPutMergeRequest t projectFullPath iid (SetMilestoneId milestoneId)) s of
           (Inl e, s') \<Rightarrow> (Inr None, s')
         | (Inr body, s') \<Rightarrow>
            (Inr (Some [Directive ''updatePullRequest'' (MilestoneData (put_milestone body))]), s')))"

definition setWorkInProgressOnPullRequest ::
  "('w, 'a) transport \<Rightarrow> string \<Rightarrow> bool \<Rightarrow> 'w provider
    \<Rightarrow> (error + directive list option) \<times> 'w provider" where
  "setWorkInProgressOnPullRequest t pullRequestId onOff s =
    (case parseId pullRequestId of
       Inl e \<Rightarrow> (Inl e, s)
     | Inr (projectFullPath, iid) \<Rightarrow>
        (case mutate (Call ''MUTATE'' ''MergeRequestSetWip'' projectFullPath iid)
                (gqlSetWip t projectFullPath iid onOff) s of
           (Inl e, s') \<Rightarrow> (Inr None, s')
         | (Inr reply, s') \<Rightarrow>
            (Inr (Some [Directive ''updatePullRequest''
                          (WorkInProgressData (wip_workInProgress reply) (wip_title reply))]), s')))"

definition setLabelOnPullRequest ::
  "('w, 'a) transport \<Rightarrow> string \<Rightarrow> string list \<Rightarrow> 'w provider
    \<Rightarrow> (error + directive list option) \<times> 'w provider" where
  "setLabelOnPullRequest t pullRequestId labelIds s =
    (case parseId pullRequestId of
       Inl e \<Rightarrow> (Inl e, s)
     | Inr (projectFullPath, iid) \<Rightarrow>
        (case mutate (Call ''MUTATE'' ''MergeRequestSetLabels'' projectFullPath iid)
                (gqlSetLabels t projectFullPath iid labelIds) s of
           (Inl e, s') \<Rightarrow> (Inr None, s')
         | (Inr labels, s') \<Rightarrow> (Inr (Some [Directive ''setLabels'' (LabelsData labels)]), s')))"

definition mergePullRequest ::
  "('w, 'a) transport \<Rightarrow> string \<Rightarrow> merge_payload \<Rightarrow> 'w provider
    \<Rightarrow> (error + directive list option) \<times> 'w provider" where
  "mergePullRequest t pullRequestId payload s =
    (case parseId pullRequestId of
       Inl e \<Rightarrow> (Inl e, s)
     | Inr (projectFullPath, iid) \<Rightarrow>
        (case restCall (Call ''PUT'' ''merge'' projectFullPath iid)
                (restPutMerge t projectFullPath iid payload) s of
           (Inl e, s') \<Rightarrow> (Inr None, s')
         | (Inr body, s') \<Rightarrow>
            (Inr (Some [Directive ''updatePullRequest''
                          (MergedData (mg_state body) (mg_merged_at body) (mg_updated_at body))]), s')))"

text \<open>\<open>togglePullRequestApproval\<close>: approving throws on failure; a failed
  unapprove is logged and leaves the directive without data.\<close>

definition togglePullRequestApproval ::
  "('w, 'a) transport \<Rightarrow> string \<Rightarrow> bool \<Rightarrow> 'w provider \<Rightarrow> (error + directive list) \<times> 'w provider" where
  "togglePullRequestApproval t pullRequestId approve s =
    (case parseId pullRequestId of
       Inl e \<Rightarrow> (Inl e, s)
     | Inr (projectFullPath, iid) \<Rightarrow>
        if approve then
          (case restCall (Call ''POST'' ''approve'' projectFullPath iid)
                  (restPostApprove t projectFullPath iid) s of
             (Inl e, s') \<Rightarrow> (Inl e, s')
           | (Inr approvers, s') \<Rightarrow>
              (Inr [Directive ''addApprovedBy'' (ApprovedByData (Some approvers))], s'))
        else
          (case restCall (Call ''POST'' ''unapprove'' projectFullPath iid)
                  (restPostUnapprove t projectFullPath iid) s of
             (Inl e, s') \<Rightarrow> (Inr [Directive ''removeApprovedBy'' (ApprovedByData None)], s')
           | (Inr approvers, s') \<Rightarrow>
              (Inr [Directive ''removeApprovedBy'' (ApprovedByData (Some approvers))], s')))"

section \<open>Auxiliary notions and fixtures\<close>

text \<open>
  Notions used to state the theorems, and concrete transports, states and payloads
  for the closed ones: an endpoint that fails, one that answers, a transport whose
  every endpoint refuses the connection, a freshly connected adapter, a scripted
  listing, a scripted server.
\<close>

definition failing :: "exn \<Rightarrow> ('w, 'r) endpoint" where
  "failing ex w = (Inl ex, w)"

definition answering :: "'r \<Rightarrow> ('w, 'r) endpoint" where
  "answering r w = (Inr r, w)"

definition offline :: "('w, 'a) transport" where
  "offline =
    \<lparr>dateNow = (\<lambda>w. 0),
     toISOString = (\<lambda>w. ''2020-11-03T00:00:00.000Z''),
     gqlGetPullRequest = (\<lambda>p i. failing (newError ''ECONNREFUSED'')),
     restGetAwardEmoji = (\<lambda>p i. failing (newError ''ECONNREFUSED'')),
     restGetProjectEvents = (\<lambda>p. failing (newError ''ECONNREFUSED'')),
     restGetLabelEvents = (\<lambda>p i. failing (newError ''ECONNREFUSED'')),
     restGetMilestoneEvents = (\<lambda>p i. failing (newError ''ECONNREFUSED'')),
     restPostDiscussions = (\<lambda>p i d. failing (newError ''ECONNREFUSED'')),
     gqlCreateNote = (\<lambda>n b i. failing (newError ''ECONNREFUSED'')),
     gqlDestroyNote = (\<lambda>n. failing (newError ''ECONNREFUSED'')),
     restPutMergeRequest = (\<lambda>p i u. failing (newError ''ECONNREFUSED'')),
     restPutMerge = (\<lambda>p i m. failing (newError ''ECONNREFUSED'')),
     restPostApprove = (\<lambda>p i. failing (newError ''ECONNREFUSED'')),
     restPostUnapprove = (\<lambda>p i. failing (newError ''ECONNREFUSED'')),
     gqlSetWip = (\<lambda>p i b. failing (newError ''ECONNREFUSED'')),
     gqlSetLabels = (\<lambda>p i l. failing (newError ''ECONNREFUSED'')),
     restGetPage = (\<lambda>u. failing (newError ''ECONNREFUSED''))\<rparr>"

definition freshProvider :: "'w \<Rightarrow> 'w provider" where
  "freshProvider w =
    \<lparr>baseUrl = ''https://gitlab.com/api/v4'',
     accessToken = Some ''glpat'',
     providerConfigId = Some ''gitlab*com'',
     tokenError = False,
     client = False,
     reportedTokenErrors = [],
     gitlabUsername = None,
     pullRequestCache = Map.empty,
     pendingReviewStore = Map.empty,
     notifications = [],
     world = w,
     calls = []\<rparr>"

text \<open>A scripted listing: the world is the queue of pages still to be served.\<close>

definition servePage :: "('a api_page list, 'a api_page) endpoint" where
  "servePage w = (case w of [] \<Rightarrow> (Inl (newError ''ECONNREFUSED''), []) | p # ps \<Rightarrow> (Inr p, ps))"

definition scripted :: "('a api_page list, 'a) transport" where
  "scripted = offline\<lparr>restGetPage := (\<lambda>u. servePage)\<rparr>"

definition headerParamFirst :: string where
  "headerParamFirst =
    ''<https://gitlab.com/api/v4/projects?page=2>; title='' @ [CHR 0x22] @ ''more'' @ [CHR 0x22]
      @ ''; '' @ relNext"

definition headerNoParam :: string where
  "headerNoParam = ''<https://gitlab.com/api/v4/projects?page=1>''"

definition forbiddenException :: exn where
  "forbiddenException =
    \<lparr>ex_message = Some ''GraphQL Error (Code: 200)'',
     ex_response = Some \<lparr>resp_message = None,
                         resp_errors = Some [\<lparr>err_type = Some ''FORBIDDEN''\<rparr>]\<rparr>\<rparr>"

definition mergeRequestA :: gitlab_pull_request where
  "mergeRequestA =
    \<lparr>gp_id = 101, gp_iid = 7, gp_number = None, gp_title = ''Fix walker'',
     gp_web_url = ''https://gitlab.com/group/project/-/merge_requests/7'', gp_state = ''opened'',
     gp_target_branch = ''main'', gp_source_branch = ''fix-walker''\<rparr>"

definition mergeRequestB :: gitlab_pull_request where
  "mergeRequestB =
    \<lparr>gp_id = 102, gp_iid = 8, gp_number = None, gp_title = ''Add cache'',
     gp_web_url = ''https://gitlab.com/group/project/-/merge_requests/8'', gp_state = ''opened'',
     gp_target_branch = ''main'', gp_source_branch = ''add-cache''\<rparr>"

definition linksFirstPage :: "(string \<times> string) list" where
  "linksFirstPage =
    [(''https://gitlab.com/api/v4/projects/group%2Fproject/merge_requests?state=opened&page=2'', ''next''),
     (''https://gitlab.com/api/v4/projects/group%2Fproject/merge_requests?state=opened&page=1'', ''first'')]"

definition linksLastPage :: "(string \<times> string) list" where
  "linksLastPage =
    [(''https://gitlab.com/api/v4/projects/group%2Fproject/merge_requests?state=opened&page=1'', ''first'')]"

definition twoPages :: "gitlab_pull_request api_page list" where
  "twoPages =
    [\<lparr>pg_body = [mergeRequestA], pg_link = Some (linkHeaderOf linksFirstPage)\<rparr>,
     \<lparr>pg_body = [mergeRequestB], pg_link = Some (linkHeaderOf linksLastPage)\<rparr>]"

text \<open>What a note says, apart from the computed ids and the replies.\<close>

definition noteContent ::
  "pr_note \<Rightarrow> string \<times> author \<times> string option \<times> string option \<times> string \<times> string option
     \<times> position option \<times> bool \<times> string option" where
  "noteContent n =
    (n_id n, n_author n, n_body n, n_bodyText n, n_createdAt n, n_discussionId n,
     n_position n, n_pending n, n_state n)"

definition reviewer :: author where
  "reviewer = \<lparr>a_name = ''Rev Iewer'', a_username = ''reviewer'', a_avatarUrl = ''https://gitlab.com/a.png''\<rparr>"

definition threadNote :: "string \<Rightarrow> string \<Rightarrow> string \<Rightarrow> pr_note" where
  "threadNote i body at =
    Note i reviewer (Some body) None at (Some ''gid://gitlab/DiffDiscussion/abc123'') None False None
      None None None"

definition threadOfThree :: discussion where
  "threadOfThree =
    \<lparr>d_id = ''gid://gitlab/DiffDiscussion/abc123'', d_createdAt = ''2020-11-01T09:00:00Z'',
     d_pending = False,
     d_notes = Some [threadNote ''gid://gitlab/DiffNote/1'' ''Why this?'' ''2020-11-01T09:00:00Z'',
                     threadNote ''gid://gitlab/DiffNote/2'' ''Because.'' ''2020-11-01T09:05:00Z'',
                     threadNote ''gid://gitlab/DiffNote/3'' ''Fine.'' ''2020-11-01T09:07:00Z'']\<rparr>"

definition threadWithRepeatedId :: discussion where
  "threadWithRepeatedId =
    \<lparr>d_id = ''gid://gitlab/DiffDiscussion/abc123'', d_createdAt = ''2020-11-01T09:00:00Z'',
     d_pending = False,
     d_notes = Some [threadNote ''gid://gitlab/DiffNote/1'' ''Why this?'' ''2020-11-01T09:00:00Z'',
                     threadNote ''gid://gitlab/DiffNote/1'' ''Because.'' ''2020-11-01T09:05:00Z'']\<rparr>"

text \<open>What a network primitive leaves alone: everything but the world, the log and the
  client handle.\<close>

definition sameCaches :: "'w provider \<Rightarrow> 'w provider \<Rightarrow> bool" where
  "sameCaches s s' =
    (pullRequestCache s' = pullRequestCache s \<and> pendingReviewStore s' = pendingReviewStore s
     \<and> notifications s' = notifications s \<and> accessToken s' = accessToken s
     \<and> tokenError s' = tokenError s \<and> baseUrl s' = baseUrl s
     \<and> providerConfigId s' = providerConfigId s)"

definition postsSucceed :: "('w, 'a) transport \<Rightarrow> string option \<Rightarrow> string option \<Rightarrow> bool" where
  "postsSucceed t p i = (\<forall>payload w. \<not> isl (fst (restPostDiscussions t p i payload w)))"

definition noteSucceeds :: "('w, 'a) transport \<Rightarrow> string option \<Rightarrow> string \<Rightarrow> string \<Rightarrow> bool" where
  "noteSucceeds t noteableId txt i =
    (\<forall>w. case gqlCreateNote t noteableId txt i w of
            (Inl e, w') \<Rightarrow> False
          | (Inr reply, w') \<Rightarrow> \<not> isl (findAddedNode (cn_noteId reply) (cn_nodes reply)))"

definition tokenX :: string where
  "tokenX = encodeId ''gid://gitlab/MergeRequest/5'' ''group/project!17''"

definition detailReply :: pr_response where
  "detailReply =
    \<lparr>currentUser_username = ''dev'',
     mergeRequest =
       \<lparr>mr_id = ''gid://gitlab/MergeRequest/5'', mr_iid = ''17'', mr_sourceBranch = ''feature'',
        mr_targetBranch = ''main'', mr_mergedAt = None, mr_reference = ''!17'',
        mr_sourceProject = \<lparr>sp_name = ''project'', sp_webUrl = ''https://gitlab.com/group/project'',
                             sp_fullPath = ''group/project''\<rparr>,
        mr_diffRefs = None,
        mr_discussions = [DiscussionNode threadOfThree],
        mr_viewer = None, mr_providerId = None, mr_baseRefOid = None, mr_baseRefName = None,
        mr_headRefOid = None, mr_headRefName = None, mr_repository = None, mr_url = None,
        mr_merged = None, mr_references_full = None, mr_idComputed = None,
        mr_pendingReview = None\<rparr>\<rparr>"

text \<open>A server that answers every call, except that it refuses a discussion without
  a body.\<close>

definition gitlabMock :: "(unit, unit) transport" where
  "gitlabMock =
    offline
      \<lparr>gqlGetPullRequest := (\<lambda>p i. answering detailReply),
       restGetAwardEmoji := (\<lambda>p i. answering []),
       restGetProjectEvents := (\<lambda>p. answering []),
       restGetLabelEvents := (\<lambda>p i. answering []),
       restGetMilestoneEvents := (\<lambda>p i. answering []),
       restPostDiscussions :=
         (\<lambda>p i payload. if dp_body payload = None then failing (newError ''400 Bad Request'')
                          else answering ''{}''),
       gqlCreateNote := (\<lambda>n b i. answering \<lparr>cn_noteId = ''gid://gitlab/Note/9'', cn_nodes = []\<rparr>),
       gqlDestroyNote := (\<lambda>n. answering ()),
       restPutMergeRequest :=
         (\<lambda>p i u. answering \<lparr>put_discussion_locked = True, put_milestone = None\<rparr>)\<rparr>"

text \<open>The same server with every discussion accepted.\<close>

definition gitlabLenient :: "(unit, unit) transport" where
  "gitlabLenient = gitlabMock\<lparr>restPostDiscussions := (\<lambda>p i payload. answering ''{}'')\<rparr>"

text \<open>The same server with every discussion refused.\<close>

definition gitlabRefusing :: "(unit, unit) transport" where
  "gitlabRefusing =
    gitlabMock\<lparr>restPostDiscussions := (\<lambda>p i payload. failing (newError ''403 Forbidden''))\<rparr>"

definition commentA :: review_comment_request where
  "commentA =
    \<lparr>rc_pullRequestId = tokenX, rc_text = ''Rename this.'', rc_filePath = Some ''src/a.ts'',
     rc_startLine = Some 3, rc_leftSha = Some ''aaa111'', rc_sha = Some ''bbb222'',
     rc_rightSha = None\<rparr>"

definition commentB :: review_comment_request where
  "commentB =
    \<lparr>rc_pullRequestId = tokenX, rc_text = ''Add a test.'', rc_filePath = Some ''src/b.ts'',
     rc_startLine = Some 8, rc_leftSha = Some ''aaa111'', rc_sha = Some ''bbb222'',
     rc_rightSha = None\<rparr>"

definition stagedTwice :: "unit provider" where
  "stagedTwice =
    snd (createPullRequestReviewComment commentB
          (snd (createPullRequestReviewComment commentA (freshProvider ()))))"

fun isPendingNode :: "node \<Rightarrow> bool" where
  "isPendingNode (DiscussionNode d) = d_pending d"
| "isPendingNode (ProjectEventNode e) = False"
| "isPendingNode (ResourceEventNode e) = False"

fun nodeNotes :: "node \<Rightarrow> pr_note list" where
  "nodeNotes (DiscussionNode d) = (case d_notes d of None \<Rightarrow> [] | Some ns \<Rightarrow> ns)"
| "nodeNotes (ProjectEventNode e) = []"
| "nodeNotes (ResourceEventNode e) = []"

definition pendingNodesOf :: "pr_result \<Rightarrow> node list" where
  "pendingNodesOf r =
    (case r of
       EmptyResponse \<Rightarrow> []
     | Response x \<Rightarrow> filter isPendingNode (mr_discussions (mergeRequest x)))"

definition fetchedX :: "(error + pr_result) \<times> unit provider" where
  "fetchedX = getPullRequest gitlabMock tokenX False stagedTwice"

definition submittedX :: "(error + bool) \<times> unit provider" where
  "submittedX =
    submitReview gitlabMock
      \<lparr>sr_pullRequestId = tokenX, sr_text = [], sr_eventType = Some ''COMMENT''\<rparr> (snd fetchedX)"

text \<open>What the detail fetch has built when the event fetches begin: the reply with
  \<open>viewer\<close> set, normalised, its discussions split, the pending node appended.\<close>

definition partialResponse :: "('w, 'a) transport \<Rightarrow> pr_response \<Rightarrow> 'w provider \<Rightarrow> pr_response" where
  "partialResponse t r0 s =
    withPending (toISOString t (world s)) (pendingReviewStore s)
      (splitDiscussions
        (normalise (providerConfigId s)
          (r0\<lparr>mergeRequest := (mergeRequest r0)\<lparr>mr_viewer := Some (currentUser_username r0)\<rparr>\<rparr>)))"

definition openedEvent :: project_event_raw where
  "openedEvent =
    \<lparr>pr_action_name = ''opened'', pr_author = ''dev'', pr_created_at = ''2020-11-01T08:00:00Z'',
     pr_id = 1, pr_project_id = 5, pr_target_id = Some 17, pr_target_title = Some ''Fix walker'',
     pr_target_type = Some ''MergeRequest''\<rparr>"

text \<open>The scripted server with a failing label-event endpoint.\<close>

definition gitlabNoLabels :: "(unit, unit) transport" where
  "gitlabNoLabels =
    gitlabMock
      \<lparr>restGetProjectEvents := (\<lambda>p. answering [openedEvent]),
       restGetLabelEvents := (\<lambda>p i. failing (newError ''500 Internal Server Error''))\<rparr>"

definition afterAwards :: "unit provider" where
  "afterAwards =
    (freshProvider ())\<lparr>client := True, gitlabUsername := Some ''dev'',
       calls := [Call ''QUERY'' ''GetPullRequest'' (Some ''group/project'') (Some ''17''),
                 Call ''GET'' ''award_emoji'' (Some ''group/project'') (Some ''17'')]\<rparr>"

text \<open>The scripted server with one event on each of the three event endpoints, and
  the four streams of the pull request as the detail fetch reads them from it.\<close>

definition approvedEvent :: project_event_raw where
  "approvedEvent =
    \<lparr>pr_action_name = ''approved'', pr_author = ''dev'', pr_created_at = ''2020-11-01T11:00:00Z'',
     pr_id = 2, pr_project_id = 5, pr_target_id = Some 17, pr_target_title = Some ''Fix walker'',
     pr_target_type = Some ''MergeRequest''\<rparr>"

definition labelAdded :: resource_event_raw where
  "labelAdded =
    \<lparr>rr_created_at = ''2020-11-01T10:00:00Z'', rr_action = ''add'', rr_id = 3,
     rr_label = Some ''bug'', rr_resource_type = ''MergeRequest'', rr_user = ''dev''\<rparr>"

definition milestoneAdded :: resource_event_raw where
  "milestoneAdded =
    \<lparr>rr_created_at = ''2020-11-01T12:00:00Z'', rr_action = ''add'', rr_id = 4,
     rr_label = None, rr_resource_type = ''MergeRequest'', rr_user = ''dev''\<rparr>"

definition gitlabWithEvents :: "(unit, unit) transport" where
  "gitlabWithEvents =
    gitlabMock
      \<lparr>restGetProjectEvents := (\<lambda>p. answering [approvedEvent]),
       restGetLabelEvents := (\<lambda>p i. answering [labelAdded]),
       restGetMilestoneEvents := (\<lambda>p i. answering [milestoneAdded])\<rparr>"

definition streamDiscussions :: "node list" where
  "streamDiscussions = [DiscussionNode (splitNotes tokenX threadOfThree)]"

definition streamProjectActivity :: "node list" where
  "streamProjectActivity = [ProjectEventNode (toProjectEvent approvedEvent)]"

definition streamLabelChanges :: "node list" where
  "streamLabelChanges = [ResourceEventNode (toResourceEvent ''label'' labelAdded)]"

definition streamMilestoneChanges :: "node list" where
  "streamMilestoneChanges = [ResourceEventNode (toResourceEvent ''milestone'' milestoneAdded)]"

definition cachedState :: "unit provider" where
  "cachedState =
    (freshProvider ())\<lparr>pullRequestCache := [Some ''gid://gitlab/MergeRequest/5'' \<mapsto> detailReply]\<rparr>"

definition commitCommentA :: commit_comment_request where
  "commitCommentA =
    \<lparr>cc_pullRequestId = tokenX, cc_leftSha = Some ''aaa111'', cc_sha = Some ''bbb222'',
     cc_text = Some ''Rename this.'', cc_path = Some ''src/a.ts'', cc_startLine = Some 3\<rparr>"

section \<open>The codec: what is proved\<close>

lemma hexVal_hexDigit: "n < 16 \<Longrightarrow> hexVal (hexDigit n) = Some n"
  by (auto simp: hexVal_def hexDigit_def Let_def)

lemma hexVal_zero: "hexVal (CHR ''0'') = Some 0"
  by (simp add: hexVal_def)

lemma hex4_low: "n < 256 \<Longrightarrow> hex4 (CHR ''0'') (CHR ''0'') (hexDigit (n div 16)) (hexDigit (n mod 16)) = Some n"
  by (simp add: hex4_def hexVal_zero hexVal_hexDigit)

lemma readChars_quoteChar:
  "readChars (quoteChar c @ cs) = consChar c (readChars cs)"
proof -
  have lt: "(of_char c :: nat) < 256" by simp
  consider (special) "c \<in> {CHR 0x08, CHR 0x09, CHR 0x0A, CHR 0x0C, CHR 0x0D, CHR 0x22, CHR 0x5C}"
    | (control) "c \<notin> {CHR 0x08, CHR 0x09, CHR 0x0A, CHR 0x0C, CHR 0x0D, CHR 0x22, CHR 0x5C}"
        "(of_char c :: nat) < 32"
    | (plain) "c \<notin> {CHR 0x08, CHR 0x09, CHR 0x0A, CHR 0x0C, CHR 0x0D, CHR 0x22, CHR 0x5C}"
        "\<not> (of_char c :: nat) < 32"
    by blast
  then show ?thesis
  proof cases
    case special
    then show ?thesis by (auto simp: quoteChar_def unescape_def)
  next
    case control
    then show ?thesis
      using hex4_low [OF lt] by (simp add: quoteChar_def)
  next
    case plain
    then show ?thesis by (simp add: quoteChar_def)
  qed
qed

lemma readChars_quoted:
  "readChars (concat (map quoteChar s) @ CHR 0x22 # rest) = Some (s, rest)"
  by (induction s) (simp_all add: readChars_quoteChar consChar_def)

lemma readString_quote: "readString (JSON_quote s @ rest) = Some (s, rest)"
  by (simp add: readString_def JSON_quote_def readChars_quoted)

lemma parseMember_encode:
  "parseMember (encodeMember (k, v) @ rest) = Some ((k, v), skipWs rest)"
  by (simp add: parseMember_def encodeMember_def readString_quote)

lemma parseMembers_join:
  "ms \<noteq> [] \<Longrightarrow> parseMembers (joinMembers (map encodeMember ms) @ CHR ''}'' # rest) = Some (ms, rest)"
proof (induction ms)
  case Nil
  then show ?case by simp
next
  case (Cons m ms)
  obtain k v where m: "m = (k, v)" by (cases m)
  show ?case
  proof (cases ms)
    case Nil
    then show ?thesis
      by (subst parseMembers.simps) (simp add: m parseMember_encode)
  next
    case (Cons m' ms')
    with Cons.IH have "parseMembers (joinMembers (map encodeMember ms) @ CHR ''}'' # rest) = Some (ms, rest)"
      by simp
    then show ?thesis
      by (subst parseMembers.simps) (simp add: m Cons parseMember_encode)
  qed
qed

lemma encodeMember_head: "\<exists>r. encodeMember m = CHR 0x22 # r"
  by (cases m) (simp add: encodeMember_def JSON_quote_def)

lemma JSON_parse_stringify: "JSON_parse (JSON_stringify ms) = Some ms"
proof (cases ms)
  case Nil
  then show ?thesis by (simp add: JSON_parse_def JSON_stringify_def)
next
  case (Cons m ms')
  obtain r where r: "encodeMember m = CHR 0x22 # r" using encodeMember_head by blast
  obtain r' where r': "joinMembers (map encodeMember (m # ms')) = CHR 0x22 # r'"
    using r by (cases ms') auto
  have "parseMembers (joinMembers (map encodeMember (m # ms')) @ [CHR ''}'']) = Some (m # ms', [])"
    using parseMembers_join [of "m # ms'" "[]"] by simp
  then show ?thesis
    using r' by (simp add: JSON_parse_def JSON_stringify_def Cons)
qed

lemma js_split_no_sep: "sep \<notin> set s \<Longrightarrow> js_split sep s = [s]"
  by (induction s) auto

lemma js_split_at_sep:
  "sep \<notin> set a \<Longrightarrow> js_split sep (a @ sep # b) = a # js_split sep b"
  by (induction a) auto

lemma one_separator_decompose:
  assumes "length (filter (\<lambda>c. c = sep) s) = 1"
  shows "s = takeWhile (\<lambda>c. c \<noteq> sep) s @ sep # tl (dropWhile (\<lambda>c. c \<noteq> sep) s)
    \<and> sep \<notin> set (takeWhile (\<lambda>c. c \<noteq> sep) s)
    \<and> sep \<notin> set (tl (dropWhile (\<lambda>c. c \<noteq> sep) s))"
  using assms
proof (induction s)
  case Nil
  then show ?case by simp
next
  case (Cons c s)
  show ?case
  proof (cases "c = sep")
    case True
    with Cons.prems have "filter (\<lambda>c. c = sep) s = []" by simp
    then have "sep \<notin> set s" by (auto simp: filter_empty_conv)
    with True show ?thesis by simp
  next
    case False
    with Cons show ?thesis by simp
  qed
qed

lemma js_split_one_separator:
  assumes "length (filter (\<lambda>c. c = sep) s) = 1"
  shows "js_split sep s = [takeWhile (\<lambda>c. c \<noteq> sep) s, tl (dropWhile (\<lambda>c. c \<noteq> sep) s)]"
proof -
  let ?a = "takeWhile (\<lambda>c. c \<noteq> sep) s" and ?b = "tl (dropWhile (\<lambda>c. c \<noteq> sep) s)"
  from one_separator_decompose [OF assms]
  have s: "s = ?a @ sep # ?b" and a: "sep \<notin> set ?a" and b: "sep \<notin> set ?b" by blast+
  have "js_split sep (?a @ sep # ?b) = ?a # js_split sep ?b" using a by (rule js_split_at_sep)
  also have "\<dots> = [?a, ?b]" using b by (simp add: js_split_no_sep)
  finally show ?thesis using s by simp
qed

text \<open>
  C3.  Identifier round trip: for every numeric id and every full reference that
  contains exactly one \<open>!\<close>, decoding the encoded token gives the project path (the
  part of the reference before the \<open>!\<close>) and the internal id (the part after it).
  This holds for both member orders the adapter writes.
\<close>

theorem identifier_round_trip:
  assumes "length (filter (\<lambda>c. c = CHR ''!'') fullReference) = 1"
  shows "parseId (encodeId numericId fullReference) =
           Inr (Some (takeWhile (\<lambda>c. c \<noteq> CHR ''!'') fullReference),
                Some (tl (dropWhile (\<lambda>c. c \<noteq> CHR ''!'') fullReference)))
       \<and> parseId (encodeListingId fullReference numericId) =
           Inr (Some (takeWhile (\<lambda>c. c \<noteq> CHR ''!'') fullReference),
                Some (tl (dropWhile (\<lambda>c. c \<noteq> CHR ''!'') fullReference)))"
  using js_split_one_separator [OF assms]
  by (simp add: parseId_def encodeId_def encodeListingId_def JSON_parse_stringify jsProp_def nth_opt_def)

theorem identifier_round_trip_witness:
  "length (filter (\<lambda>c. c = CHR ''!'') ''group/project!17'') = 1
   \<and> parseId (encodeId ''gid://gitlab/MergeRequest/5'' ''group/project!17'')
       = Inr (Some ''group/project'', Some ''17'')
   \<and> parseId (encodeListingId ''group/project!17'' ''17'')
       = Inr (Some ''group/project'', Some ''17'')"
  using identifier_round_trip [of "''group/project!17''" "''gid://gitlab/MergeRequest/5''"]
    identifier_round_trip [of "''group/project!17''" "''17''"]
  by simp

section \<open>The classifier: what is proved\<close>

lemma includes_nonempty: "str_includes (p # ps) m \<Longrightarrow> m \<noteq> []"
  by (cases m) simp_all

lemma econnreset_network:
  assumes "ex_message ex = Some m" and "str_includes ''ECONNRESET'' m"
  shows "isSuppressedException ex = Some NetworkError"
proof -
  have "m \<noteq> []" using assms(2) by (rule includes_nonempty)
  then have "matchesNetworkError ex"
    using assms by (simp add: matchesNetworkError_def networkErrors_def matchLiteral_def)
  then show ?thesis by (simp add: isSuppressedException_def)
qed

lemma query_unclassified:
  assumes "isSuppressedException ex = None" and "\<not> tokenError s" and "truthy (accessToken s)"
    and "f (world s) = (Inl ex, w')"
  shows "query t c f s = (Inl (Thrown ex), s\<lparr>client := True, world := w', calls := calls s @ [c]\<rparr>)"
  using assms by (simp add: query_def getClient_def perform_def queryCaught_def)

lemma unrecognised_no_match:
  assumes "\<forall>m. ex_message ex = Some m \<longrightarrow>
      (\<forall>p \<in> set [''ENOTFOUND'', ''ETIMEDOUT'', ''EAI_AGAIN'', ''ECONNRESET'', ''ECONNREFUSED'',
                   ''ENETDOWN'', ''ENETUNREACH'', ''socket disconnected before secure'',
                   ''socket hang up'', ''GraphQL Error (Code: 404)'']. \<not> str_includes p m)"
  shows "\<not> matchesNetworkError ex \<and> \<not> matchesNotFound ex"
proof (cases "ex_message ex")
  case None
  then show ?thesis by (simp add: matchesNetworkError_def matchesNotFound_def)
next
  case (Some m)
  with assms have "\<forall>p \<in> set [''ENOTFOUND'', ''ETIMEDOUT'', ''EAI_AGAIN'', ''ECONNRESET'', ''ECONNREFUSED'',
                   ''ENETDOWN'', ''ENETUNREACH'', ''socket disconnected before secure'',
                   ''socket hang up'', ''GraphQL Error (Code: 404)'']. \<not> str_includes p m"
    by simp
  then show ?thesis
    using Some
    by (simp add: matchesNetworkError_def matchesNotFound_def networkErrors_def matchLiteral_def)
qed

lemma hasForbidden_iff:
  "hasForbidden r \<longleftrightarrow> (\<exists>es. resp_errors r = Some es \<and> (\<exists>e \<in> set es. err_type e = Some ''FORBIDDEN''))"
  by (cases "resp_errors r") (auto simp: hasForbidden_def find_None_iff)

lemma credentialRejected_iff:
  "credentialRejected ex \<longleftrightarrow>
    (\<exists>r. ex_response ex = Some r
       \<and> (resp_message r = Some ''Bad credentials''
          \<or> (\<exists>es. resp_errors r = Some es \<and> (\<exists>e \<in> set es. err_type e = Some ''FORBIDDEN''))))"
  by (cases "ex_response ex") (simp_all add: credentialRejected_def hasForbidden_iff)

text \<open>
  C7 fails as stated, because the classifier tests the message first: an exception
  whose response carries a \<open>FORBIDDEN\<close> error and whose message matches
  \<open>ECONNRESET\<close> is classified network-transient, and an exception with the message
  \<open>totally unexpected\<close> and such a response is classified credential-invalid.
\<close>

theorem classifier_precedence_counterexample:
  "hasForbidden \<lparr>resp_message = None, resp_errors = Some [\<lparr>err_type = Some ''FORBIDDEN''\<rparr>]\<rparr>
   \<and> isSuppressedException
        \<lparr>ex_message = Some ''ECONNRESET'',
         ex_response = Some \<lparr>resp_message = None,
                             resp_errors = Some [\<lparr>err_type = Some ''FORBIDDEN''\<rparr>]\<rparr>\<rparr>
       = Some NetworkError
   \<and> isSuppressedException
        \<lparr>ex_message = Some ''totally unexpected'',
         ex_response = Some \<lparr>resp_message = None,
                             resp_errors = Some [\<lparr>err_type = Some ''FORBIDDEN''\<rparr>]\<rparr>\<rparr>
       = Some AccessTokenInvalid"
  by (simp add: isSuppressedException_def matchesNetworkError_def matchesNotFound_def
      credentialRejected_def hasForbidden_def networkErrors_def matchLiteral_def)

text \<open>
  C7, amended.  (1) An exception whose message contains \<open>ECONNRESET\<close> is classified
  network-transient.  (2) An exception whose response carries an error of type
  \<open>FORBIDDEN\<close> is classified credential-invalid, provided its message contains none
  of the nine network patterns nor the GraphQL 404 pattern.  (3) Every exception
  whose message is unrecognised (it has no message, or one that contains none of
  the nine network patterns nor the GraphQL 404 pattern), \<open>totally unexpected\<close> for
  one, is unclassified, provided its response carries neither the message
  \<open>Bad credentials\<close> nor a \<open>FORBIDDEN\<close> error; \<open>query\<close> then throws that very
  exception, reports no token error and keeps the client handle.
\<close>

theorem error_classification:
  "(\<forall>m. ex_message ex1 = Some m \<and> str_includes ''ECONNRESET'' m
        \<longrightarrow> isSuppressedException ex1 = Some NetworkError)
   \<and> (\<forall>r es. ex_response ex2 = Some r \<and> resp_errors r = Some es
            \<and> (\<exists>e \<in> set es. err_type e = Some ''FORBIDDEN'')
            \<and> (\<forall>m. ex_message ex2 = Some m \<longrightarrow>
                 (\<forall>p \<in> set [''ENOTFOUND'', ''ETIMEDOUT'', ''EAI_AGAIN'', ''ECONNRESET'',
                              ''ECONNREFUSED'', ''ENETDOWN'', ''ENETUNREACH'',
                              ''socket disconnected before secure'', ''socket hang up'',
                              ''GraphQL Error (Code: 404)'']. \<not> str_includes p m))
        \<longrightarrow> isSuppressedException ex2 = Some AccessTokenInvalid)
   \<and> ((\<forall>m. ex_message ex3 = Some m \<longrightarrow>
          (\<forall>p \<in> set [''ENOTFOUND'', ''ETIMEDOUT'', ''EAI_AGAIN'', ''ECONNRESET'',
                       ''ECONNREFUSED'', ''ENETDOWN'', ''ENETUNREACH'',
                       ''socket disconnected before secure'', ''socket hang up'',
                       ''GraphQL Error (Code: 404)'']. \<not> str_includes p m))
       \<and> (\<forall>r. ex_response ex3 = Some r \<longrightarrow>
             resp_message r \<noteq> Some ''Bad credentials''
             \<and> (\<forall>es. resp_errors r = Some es \<longrightarrow> (\<forall>e \<in> set es. err_type e \<noteq> Some ''FORBIDDEN'')))
        \<longrightarrow> isSuppressedException ex3 = None
          \<and> (\<forall>w'. \<not> tokenError s \<and> truthy (accessToken s) \<and> f (world s) = (Inl ex3, w')
                \<longrightarrow> query t c f s =
                      (Inl (Thrown ex3),
                       s\<lparr>client := True, world := w', calls := calls s @ [c]\<rparr>)))"
proof (intro conjI allI impI)
  fix m assume "ex_message ex1 = Some m \<and> str_includes ''ECONNRESET'' m"
  then show "isSuppressedException ex1 = Some NetworkError"
    using econnreset_network by blast
next
  fix r es
  assume a: "ex_response ex2 = Some r \<and> resp_errors r = Some es
            \<and> (\<exists>e \<in> set es. err_type e = Some ''FORBIDDEN'')
            \<and> (\<forall>m. ex_message ex2 = Some m \<longrightarrow>
                 (\<forall>p \<in> set [''ENOTFOUND'', ''ETIMEDOUT'', ''EAI_AGAIN'', ''ECONNRESET'',
                              ''ECONNREFUSED'', ''ENETDOWN'', ''ENETUNREACH'',
                              ''socket disconnected before secure'', ''socket hang up'',
                              ''GraphQL Error (Code: 404)'']. \<not> str_includes p m))"
  then have "\<not> matchesNetworkError ex2 \<and> \<not> matchesNotFound ex2"
    using unrecognised_no_match [of ex2] by blast
  moreover from a have "credentialRejected ex2"
    unfolding credentialRejected_iff by blast
  ultimately show "isSuppressedException ex2 = Some AccessTokenInvalid"
    by (simp add: isSuppressedException_def)
next
  assume a: "(\<forall>m. ex_message ex3 = Some m \<longrightarrow>
          (\<forall>p \<in> set [''ENOTFOUND'', ''ETIMEDOUT'', ''EAI_AGAIN'', ''ECONNRESET'',
                       ''ECONNREFUSED'', ''ENETDOWN'', ''ENETUNREACH'',
                       ''socket disconnected before secure'', ''socket hang up'',
                       ''GraphQL Error (Code: 404)'']. \<not> str_includes p m))
       \<and> (\<forall>r. ex_response ex3 = Some r \<longrightarrow>
             resp_message r \<noteq> Some ''Bad credentials''
             \<and> (\<forall>es. resp_errors r = Some es \<longrightarrow> (\<forall>e \<in> set es. err_type e \<noteq> Some ''FORBIDDEN'')))"
  then have "\<not> matchesNetworkError ex3 \<and> \<not> matchesNotFound ex3"
    using unrecognised_no_match [of ex3] by blast
  moreover from a have "\<not> credentialRejected ex3"
    unfolding credentialRejected_iff by blast
  ultimately show none: "isSuppressedException ex3 = None"
    by (simp add: isSuppressedException_def)
  fix w' assume "\<not> tokenError s \<and> truthy (accessToken s) \<and> f (world s) = (Inl ex3, w')"
  then show "query t c f s =
      (Inl (Thrown ex3), s\<lparr>client := True, world := w', calls := calls s @ [c]\<rparr>)"
    using none by (simp add: query_unclassified)
qed

theorem error_classification_witness:
  "isSuppressedException (newError ''read ECONNRESET'') = Some NetworkError
   \<and> isSuppressedException forbiddenException = Some AccessTokenInvalid
   \<and> isSuppressedException (newError ''totally unexpected'') = None
   \<and> query (offline :: (unit, unit) transport) (Call ''QUERY'' ''GetPullRequest'' None None)
        (failing (newError ''totally unexpected'') :: (unit, pr_response) endpoint) (freshProvider ())
       = (Inl (Thrown (newError ''totally unexpected'')),
          (freshProvider ())\<lparr>client := True, calls := [Call ''QUERY'' ''GetPullRequest'' None None]\<rparr>)"
  using error_classification [of "newError ''read ECONNRESET''" forbiddenException
      "newError ''totally unexpected''" "freshProvider ()"
      "failing (newError ''totally unexpected'') :: (unit, pr_response) endpoint"
      "offline :: (unit, unit) transport" "Call ''QUERY'' ''GetPullRequest'' None None"]
  by (simp add: newError_def forbiddenException_def failing_def freshProvider_def)

section \<open>The walker: what is proved\<close>

lemma walkPages_sequence:
  "pageSequence t (baseUrl s) url (world s) ps \<Longrightarrow>
   \<exists>s'. walkPages t url acc s = Some (acc @ concat (map pg_body ps), s')
      \<and> calls s' = calls s @ map (\<lambda>u. Call ''GET'' u None None) (pageUrls (baseUrl s) url ps)
      \<and> length (pageUrls (baseUrl s) url ps) = length ps"
proof (induction ps arbitrary: url acc s)
  case Nil
  then show ?case by simp
next
  case (Cons p ps)
  obtain r w' where get: "restGetPage t url (world s) = (r, w')" by (cases "restGetPage t url (world s)")
  with Cons.prems have r: "r = Inr p" by (auto split: sum.splits)
  let ?s1 = "s\<lparr>world := w', calls := calls s @ [Call ''GET'' url None None]\<rparr>"
  have rest: "restCall (Call ''GET'' url None None) (restGetPage t url) s = (Inr p, ?s1)"
    by (simp add: restCall_def perform_def get r)
  show ?case
  proof (cases "nextPage (baseUrl s) (pg_link p)")
    case (Inl e)
    with Cons.prems get r show ?thesis by simp
  next
    case (Inr n)
    show ?thesis
    proof (cases n)
      case None
      with Inr Cons.prems get r have "ps = []" by simp
      then show ?thesis
        by (subst walkPages.simps) (simp add: rest Inr None)
    next
      case (Some u)
      with Inr Cons.prems get r have u: "u \<noteq> []" and seq: "pageSequence t (baseUrl ?s1) u (world ?s1) ps"
        by simp_all
      from Cons.IH [OF seq, of "acc @ pg_body p"] obtain s' where
        w: "walkPages t u (acc @ pg_body p) ?s1 = Some ((acc @ pg_body p) @ concat (map pg_body ps), s')"
        and c: "calls s' = calls ?s1 @ map (\<lambda>u. Call ''GET'' u None None) (pageUrls (baseUrl ?s1) u ps)"
        and l: "length (pageUrls (baseUrl ?s1) u ps) = length ps"
        by blast
      show ?thesis
        by (subst walkPages.simps) (use w c l u in \<open>simp add: rest Inr Some\<close>)
    qed
  qed
qed

lemma js_trim_core:
  assumes "\<forall>c \<in> set pre. isWhiteSpace c" and "\<not> isWhiteSpace a" and "\<not> isWhiteSpace b"
  shows "js_trim (pre @ a # mid @ [b]) = a # mid @ [b]"
proof -
  have "dropWhile isWhiteSpace (pre @ a # mid @ [b]) = a # mid @ [b]"
    using assms(1,2) by simp
  moreover have "dropWhile isWhiteSpace (rev (a # mid @ [b])) = rev (a # mid @ [b])"
    using assms(3) by simp
  ultimately show ?thesis by (simp add: js_trim_def)
qed

lemma js_substring_inner: "js_substring (a # mid @ [b]) 1 (int (length (a # mid @ [b])) - 1) = mid"
  by (simp add: js_substring_def Let_def min_def max_def)

lemma relNext_iff: "''rel='' @ [CHR 0x22] @ r @ [CHR 0x22] = relNext \<longleftrightarrow> r = ''next''"
  by (auto simp: relNext_def)

lemma notWs_lt: "\<not> isWhiteSpace (CHR ''<'')" and notWs_gt: "\<not> isWhiteSpace (CHR ''>'')"
  and notWs_r: "\<not> isWhiteSpace (CHR ''r'')" and notWs_q: "\<not> isWhiteSpace (CHR 0x22)"
  and ws_space: "isWhiteSpace (CHR '' '')"
  by (simp_all add: isWhiteSpace_def)

lemma scan_segment:
  assumes "cleanLink (u, r)" and "\<forall>c \<in> set pre. isWhiteSpace c" and "CHR '';'' \<notin> set pre"
  shows "scanLinks base ((pre @ linkValue u r) # links) =
    (if r = ''next'' then Inr (Some (removeFirst base u)) else scanLinks base links)"
proof -
  let ?a = "pre @ CHR ''<'' # u @ ''>''"
  let ?b = "'' rel='' @ [CHR 0x22] @ r @ [CHR 0x22]"
  have seg: "pre @ linkValue u r = ?a @ CHR '';'' # ?b" by (simp add: linkValue_def)
  have "CHR '';'' \<notin> set ?a" using assms(1,3) by (simp add: cleanLink_def)
  then have "js_split (CHR '';'') (?a @ CHR '';'' # ?b) = ?a # js_split (CHR '';'') ?b"
    by (rule js_split_at_sep)
  moreover have "js_split (CHR '';'') ?b = [?b]"
    using assms(1) by (intro js_split_no_sep) (simp add: cleanLink_def)
  ultimately have split: "js_split (CHR '';'') (pre @ linkValue u r) = [?a, ?b]"
    using seg by simp
  have url: "js_trim ?a = CHR ''<'' # u @ ''>''"
    using js_trim_core [OF assms(2) notWs_lt notWs_gt, of u] by simp
  have "js_trim ('' '' @ CHR ''r'' # (''el='' @ [CHR 0x22] @ r) @ [CHR 0x22])
      = CHR ''r'' # (''el='' @ [CHR 0x22] @ r) @ [CHR 0x22]"
    by (rule js_trim_core) (simp_all add: notWs_r notWs_q ws_space)
  then have rel: "js_trim ?b = ''rel='' @ [CHR 0x22] @ r @ [CHR 0x22]" by simp
  have sub: "js_substring (CHR ''<'' # u @ ''>'') 1 (int (length (CHR ''<'' # u @ ''>'')) - 1) = u"
    by (rule js_substring_inner)
  show ?thesis
    using relNext_iff [of r] sub
    by (simp only: scanLinks.simps split list.case url rel Let_def)
qed

lemma linkValue_no_comma: "cleanLink (u, r) \<Longrightarrow> CHR '','' \<notin> set (linkValue u r)"
  by (simp add: cleanLink_def linkValue_def)

lemma scan_header:
  assumes "list_all cleanLink links" and "links \<noteq> []"
    and "\<forall>c \<in> set pre. isWhiteSpace c" and "CHR '';'' \<notin> set pre" and "CHR '','' \<notin> set pre"
  shows "scanLinks base (js_split (CHR '','') (pre @ linkHeaderOf links)) = Inr (advertised base links)"
  using assms
proof (induction links arbitrary: pre)
  case Nil
  then show ?case by simp
next
  case (Cons l ls)
  obtain u r where l: "l = (u, r)" by (cases l)
  from Cons.prems(1) l have clean: "cleanLink (u, r)" and cleans: "list_all cleanLink ls" by simp_all
  have nocomma: "CHR '','' \<notin> set (pre @ linkValue u r)"
    using linkValue_no_comma [OF clean] Cons.prems(5) by simp
  show ?case
  proof (cases ls)
    case Nil
    have "js_split (CHR '','') (pre @ linkValue u r) = [pre @ linkValue u r]"
      using nocomma by (rule js_split_no_sep)
    then show ?thesis
      using scan_segment [OF clean Cons.prems(3,4), of base "[]"]
      by (simp add: Nil l advertised_def)
  next
    case (Cons l' ls')
    have "js_split (CHR '','') ((pre @ linkValue u r) @ CHR '','' # ('' '' @ linkHeaderOf ls))
        = (pre @ linkValue u r) # js_split (CHR '','') ('' '' @ linkHeaderOf ls)"
      using nocomma by (rule js_split_at_sep)
    moreover have "scanLinks base (js_split (CHR '','') ('' '' @ linkHeaderOf ls)) = Inr (advertised base ls)"
      using cleans Cons by (intro Cons.IH) (simp_all add: ws_space)
    ultimately show ?thesis
      using scan_segment [OF clean Cons.prems(3,4), of base "js_split (CHR '','') ('' '' @ linkHeaderOf ls)"]
      by (simp add: Cons l advertised_def)
  qed
qed

lemma js_trim_nonempty: "\<not> isWhiteSpace a \<Longrightarrow> js_trim (a # s) \<noteq> []"
  by (simp add: js_trim_def dropWhile_append3)

lemma nextPage_header:
  assumes "list_all cleanLink links"
  shows "nextPage base (Some (linkHeaderOf links)) = Inr (advertised base links)"
proof (cases links)
  case Nil
  then show ?thesis by (simp add: nextPage_def js_trim_def advertised_def)
next
  case (Cons l ls)
  then obtain s where "linkHeaderOf links = CHR ''<'' # s"
    by (cases ls) (simp_all add: linkValue_def)
  then have "js_trim (linkHeaderOf links) \<noteq> []"
    using js_trim_nonempty [OF notWs_lt] by simp
  moreover have "scanLinks base (js_split (CHR '','') ([] @ linkHeaderOf links)) = Inr (advertised base links)"
    using assms Cons by (intro scan_header) simp_all
  ultimately show ?thesis by (simp add: nextPage_def)
qed

lemma walkPages_scripted_param_first:
  "walkPages scripted ''/projects'' []
      (freshProvider [\<lparr>pg_body = [1::nat, 2], pg_link = Some headerParamFirst\<rparr>,
                      \<lparr>pg_body = [3], pg_link = None\<rparr>])
     = Some ([1, 2], (freshProvider [\<lparr>pg_body = [3], pg_link = None\<rparr>])
                        \<lparr>calls := [Call ''GET'' ''/projects'' None None]\<rparr>)"
proof -
  have "nextPage ''https://gitlab.com/api/v4'' (Some headerParamFirst) = Inr None"
    by (simp add: relNext_def headerParamFirst_def nextPage_def js_trim_def isWhiteSpace_def)
  then show ?thesis
    by (subst walkPages.simps)
      (simp add: restCall_def perform_def scripted_def offline_def servePage_def freshProvider_def)
qed

text \<open>
  C4 fails as stated.  A header whose \<open>next\<close> link carries another parameter before
  \<open>rel\<close> has a \<open>rel="next"\<close> relation, yet \<open>nextPage\<close> returns \<open>undefined\<close>, and the
  walker stops after the first of two pages.  A header whose only link has no
  parameter has no \<open>rel="next"\<close> relation, yet \<open>nextPage\<close> does not return
  \<open>undefined\<close>: it raises \<open>TypeError\<close>.
\<close>

theorem pagination_counterexample:
  "str_includes relNext headerParamFirst
   \<and> nextPage ''https://gitlab.com/api/v4'' (Some headerParamFirst) = Inr None
   \<and> walkPages scripted ''/projects'' []
        (freshProvider [\<lparr>pg_body = [1::nat, 2], pg_link = Some headerParamFirst\<rparr>,
                        \<lparr>pg_body = [3], pg_link = None\<rparr>])
       = Some ([1, 2], (freshProvider [\<lparr>pg_body = [3], pg_link = None\<rparr>])
                          \<lparr>calls := [Call ''GET'' ''/projects'' None None]\<rparr>)
   \<and> \<not> str_includes relNext headerNoParam
   \<and> nextPage ''https://gitlab.com/api/v4'' (Some headerNoParam) = Inl TypeError"
proof (intro conjI)
  show "str_includes relNext headerParamFirst"
    by (simp add: relNext_def headerParamFirst_def)
  show "nextPage ''https://gitlab.com/api/v4'' (Some headerParamFirst) = Inr None"
    by (simp add: relNext_def headerParamFirst_def nextPage_def js_trim_def isWhiteSpace_def)
  show "walkPages scripted ''/projects'' []
        (freshProvider [\<lparr>pg_body = [1::nat, 2], pg_link = Some headerParamFirst\<rparr>,
                        \<lparr>pg_body = [3], pg_link = None\<rparr>])
       = Some ([1, 2], (freshProvider [\<lparr>pg_body = [3], pg_link = None\<rparr>])
                          \<lparr>calls := [Call ''GET'' ''/projects'' None None]\<rparr>)"
    by (rule walkPages_scripted_param_first)
  show "\<not> str_includes relNext headerNoParam"
    by (simp add: relNext_def headerNoParam_def)
  show "nextPage ''https://gitlab.com/api/v4'' (Some headerNoParam) = Inl TypeError"
    by (simp add: relNext_def headerNoParam_def nextPage_def js_trim_def isWhiteSpace_def)
qed

lemma advertised_None_iff:
  "advertised base links = None \<longleftrightarrow> \<not> list_ex (\<lambda>l. snd l = ''next'') links"
proof -
  have "advertised base links = None \<longleftrightarrow> find (\<lambda>l. snd l = ''next'') links = None"
    by (simp add: advertised_def split: option.splits)
  then show ?thesis by (auto simp: find_None_iff list_ex_iff)
qed

text \<open>
  C4, amended.  Whenever the transport serves \<open>N \<ge> 1\<close> pages in turn such that
  \<open>nextPage\<close> reads a non-empty next path from the header of every page but the last
  and none from the last, \<open>_getPullRequestsByState\<close> returns the items of the \<open>N\<close>
  pages concatenated in page order (each with \<open>number\<close> set to its \<open>iid\<close>) after
  exactly \<open>N\<close> transport calls, one per page URL.  For a \<open>Link\<close> header made of
  values \<open><url>; rel="name"\<close> joined by a comma and a blank, with URLs and names
  free of commas and semicolons, \<open>nextPage\<close> returns the URL of the first value named
  \<open>next\<close>, less the first occurrence of the base URL, and returns \<open>undefined\<close>
  exactly when no value is named \<open>next\<close>.
\<close>

theorem pagination_walk:
  "(pageSequence t (baseUrl s) (listingUrl remotePath state) (world s) ps \<longrightarrow>
      (\<exists>s'. getPullRequestsByState t remotePath state s
                = Some (map (\<lambda>pr. pr\<lparr>gp_number := Some (gp_iid pr)\<rparr>) (concat (map pg_body ps)), s')
           \<and> calls s' = calls s @ map (\<lambda>u. Call ''GET'' u None None)
                                      (pageUrls (baseUrl s) (listingUrl remotePath state) ps)
           \<and> length (pageUrls (baseUrl s) (listingUrl remotePath state) ps) = length ps))
   \<and> (list_all cleanLink links \<longrightarrow>
        nextPage base (Some (linkHeaderOf links)) = Inr (advertised base links)
        \<and> (advertised base links = None \<longleftrightarrow> \<not> list_ex (\<lambda>l. snd l = ''next'') links))"
proof (intro conjI impI)
  assume "pageSequence t (baseUrl s) (listingUrl remotePath state) (world s) ps"
  from walkPages_sequence [OF this, of "[]"] obtain s' where
    "walkPages t (listingUrl remotePath state) [] s = Some (concat (map pg_body ps), s')"
    "calls s' = calls s @ map (\<lambda>u. Call ''GET'' u None None)
                            (pageUrls (baseUrl s) (listingUrl remotePath state) ps)"
    "length (pageUrls (baseUrl s) (listingUrl remotePath state) ps) = length ps"
    by auto
  then show "\<exists>s'. getPullRequestsByState t remotePath state s
                = Some (map (\<lambda>pr. pr\<lparr>gp_number := Some (gp_iid pr)\<rparr>) (concat (map pg_body ps)), s')
           \<and> calls s' = calls s @ map (\<lambda>u. Call ''GET'' u None None)
                                      (pageUrls (baseUrl s) (listingUrl remotePath state) ps)
           \<and> length (pageUrls (baseUrl s) (listingUrl remotePath state) ps) = length ps"
    by (simp add: getPullRequestsByState_def)
next
  assume "list_all cleanLink links"
  then show "nextPage base (Some (linkHeaderOf links)) = Inr (advertised base links)"
    by (rule nextPage_header)
next
  show "advertised base links = None \<longleftrightarrow> \<not> list_ex (\<lambda>l. snd l = ''next'') links"
    by (rule advertised_None_iff)
qed

lemma cleanFirst: "list_all cleanLink linksFirstPage"
  by (simp add: linksFirstPage_def cleanLink_def)

lemma cleanLast: "list_all cleanLink linksLastPage"
  by (simp add: linksLastPage_def cleanLink_def)

lemma nextPage_first:
  "nextPage ''https://gitlab.com/api/v4'' (Some (linkHeaderOf linksFirstPage))
    = Inr (Some ''/projects/group%2Fproject/merge_requests?state=opened&page=2'')"
  by (simp add: nextPage_header [OF cleanFirst]) (simp add: advertised_def linksFirstPage_def)

lemma nextPage_last:
  "nextPage ''https://gitlab.com/api/v4'' (Some (linkHeaderOf linksLastPage)) = Inr None"
  by (simp add: nextPage_header [OF cleanLast]) (simp add: advertised_def linksLastPage_def)

lemma twoPages_sequence:
  "pageSequence scripted ''https://gitlab.com/api/v4'' (listingUrl ''group/project'' ''opened'')
     twoPages twoPages"
  by (simp add: twoPages_def scripted_def offline_def servePage_def nextPage_first nextPage_last)

theorem pagination_walk_witness:
  "pageSequence scripted (baseUrl (freshProvider twoPages)) (listingUrl ''group/project'' ''opened'')
     (world (freshProvider twoPages)) twoPages
   \<and> (\<exists>s'. getPullRequestsByState scripted ''group/project'' ''opened'' (freshProvider twoPages)
            = Some ([mergeRequestA\<lparr>gp_number := Some 7\<rparr>, mergeRequestB\<lparr>gp_number := Some 8\<rparr>], s')
          \<and> length (calls s') = 2)
   \<and> list_all cleanLink linksFirstPage
   \<and> nextPage ''https://gitlab.com/api/v4'' (Some (linkHeaderOf linksFirstPage))
       = Inr (Some ''/projects/group%2Fproject/merge_requests?state=opened&page=2'')"
proof -
  have seq: "pageSequence scripted (baseUrl (freshProvider twoPages))
      (listingUrl ''group/project'' ''opened'') (world (freshProvider twoPages)) twoPages"
    using twoPages_sequence by (simp add: freshProvider_def)
  have adv: "advertised ''https://gitlab.com/api/v4'' linksFirstPage
      = Some ''/projects/group%2Fproject/merge_requests?state=opened&page=2''"
    by (simp add: advertised_def linksFirstPage_def)
  have items: "map (\<lambda>pr. pr\<lparr>gp_number := Some (gp_iid pr)\<rparr>) (concat (map pg_body twoPages))
      = [mergeRequestA\<lparr>gp_number := Some 7\<rparr>, mergeRequestB\<lparr>gp_number := Some 8\<rparr>]"
    by (simp add: twoPages_def mergeRequestA_def mergeRequestB_def)
  from pagination_walk [of scripted "freshProvider twoPages" "''group/project''" "''opened''"
      twoPages linksFirstPage "''https://gitlab.com/api/v4''"] seq cleanFirst
  obtain s' where
    "getPullRequestsByState scripted ''group/project'' ''opened'' (freshProvider twoPages)
      = Some ([mergeRequestA\<lparr>gp_number := Some 7\<rparr>, mergeRequestB\<lparr>gp_number := Some 8\<rparr>], s')"
    "calls s' = calls (freshProvider twoPages) @ map (\<lambda>u. Call ''GET'' u None None)
        (pageUrls (baseUrl (freshProvider twoPages)) (listingUrl ''group/project'' ''opened'') twoPages)"
    "length (pageUrls (baseUrl (freshProvider twoPages)) (listingUrl ''group/project'' ''opened'') twoPages)
      = length twoPages"
    and np: "nextPage ''https://gitlab.com/api/v4'' (Some (linkHeaderOf linksFirstPage))
      = Inr (advertised ''https://gitlab.com/api/v4'' linksFirstPage)"
    unfolding items by blast
  moreover from this have "length (calls s') = 2"
    by (simp add: freshProvider_def twoPages_def)
  ultimately show ?thesis
    using seq cleanFirst adv by auto
qed

section \<open>The assembler: what is proved\<close>

lemma noteContent_setComputedIds: "noteContent (setComputedIds db f n) = noteContent n"
  by (cases n) (simp add: noteContent_def)

lemma n_replies_setComputedIds: "n_replies (setComputedIds db f n) = n_replies n"
  by (cases n) simp

lemma noteContent_annotateNote: "noteContent (annotateNote fullId n) = noteContent n"
  by (simp add: annotateNote_def noteContent_setComputedIds split: option.splits)

lemma n_replies_annotateNote: "n_replies (annotateNote fullId n) = n_replies n"
  by (simp add: annotateNote_def n_replies_setComputedIds split: option.splits)

lemma n_id_annotateNote: "n_id (annotateNote fullId n) = n_id n"
  using noteContent_annotateNote [of fullId n] by (simp add: noteContent_def)

lemma noteContent_setReplies: "noteContent (setReplies rs n) = noteContent n"
  by (cases n) (simp add: noteContent_def)

lemma n_replies_setReplies: "n_replies (setReplies rs n) = Some rs"
  by (cases n) simp

lemma annotateNote_plain: "n_discussionId n = None \<Longrightarrow> annotateNote fullId n = n"
  by (simp add: annotateNote_def)

lemma splitNotes_head:
  assumes "d_notes d = Some (n0 # later)" and "\<forall>n \<in> set later. n_id n \<noteq> n_id n0"
  shows "d_notes (splitNotes fullId d)
    = Some [setReplies (map (annotateNote fullId) later) (annotateNote fullId n0)]"
proof -
  have "filter (\<lambda>x. n_id x \<noteq> n_id n0) (map (annotateNote fullId) later) = map (annotateNote fullId) later"
    using assms(2) by (simp add: n_id_annotateNote)
  then show ?thesis
    using assms(1) by (simp add: splitNotes_def n_id_annotateNote)
qed

text \<open>
  C5, amended.  For every discussion whose note list is \<open>[n0, n1, ..., nk]\<close>, \<open>k \<ge> 0\<close>,
  in which no later note has the id of \<open>n0\<close>, the split discussion carries exactly one
  note: \<open>n0\<close> (same content), whose \<open>replies\<close> are \<open>[n1, ..., nk]\<close> in their order
  (same content, same \<open>replies\<close>); the notes differ from the originals only in the
  two computed ids the splitter writes into them.
\<close>

theorem note_splitting:
  assumes "d_notes d = Some (n0 # later)" and "\<forall>n \<in> set later. n_id n \<noteq> n_id n0"
  shows "\<exists>h. d_notes (splitNotes fullId d) = Some [h]
      \<and> noteContent h = noteContent n0
      \<and> n_replies h = Some (map (annotateNote fullId) later)
      \<and> map noteContent (map (annotateNote fullId) later) = map noteContent later
      \<and> map n_replies (map (annotateNote fullId) later) = map n_replies later"
  using splitNotes_head [OF assms, of fullId]
  by (simp add: noteContent_setReplies noteContent_annotateNote n_replies_setReplies
      n_replies_annotateNote)

lemma js_insert_insort: "js_insert compareCreatedAt x ys = insort_key createdAt x ys"
  by (induction ys) (auto simp: compareCreatedAt_def)

lemma js_sort_sort_key: "js_sort compareCreatedAt xs = sort_key createdAt xs"
  by (induction xs) (simp_all add: js_insert_insort)

lemma sort_key_unique:
  assumes "mset ys = mset xs" and "distinct (map f xs)"
  shows "sort_key f ys = sort_key f xs"
proof -
  have set_eq: "set ys = set xs" using assms(1) by (rule mset_eq_setD)
  have dys: "distinct (map f ys)"
  proof -
    have "mset (map f ys) = mset (map f xs)" using assms(1) by simp
    then show ?thesis using assms(2) by (metis distinct_count_atmost_1 set_mset_mset)
  qed
  have "map f (sort_key f ys) = map f (sort_key f xs)"
  proof (rule sorted_distinct_set_unique)
    show "sorted (map f (sort_key f ys))" by (rule sorted_sort_key)
    show "sorted (map f (sort_key f xs))" by (rule sorted_sort_key)
    show "distinct (map f (sort_key f ys))" using dys by (simp add: distinct_map)
    show "distinct (map f (sort_key f xs))" using assms(2) by (simp add: distinct_map)
    show "set (map f (sort_key f ys)) = set (map f (sort_key f xs))" using set_eq by simp
  qed
  moreover have "inj_on f (set (sort_key f ys) \<union> set (sort_key f xs))"
    using assms(2) set_eq by (simp add: distinct_map)
  ultimately show ?thesis by (simp add: inj_on_map_eq_map)
qed

text \<open>The merge step alone: with pairwise distinct timestamps its result is sorted,
  is a rearrangement of what it was given, and is what the sort makes of any
  rearrangement of it.\<close>

lemma assembleTimeline_sorted:
  assumes "distinct (map createdAt (discussions @ events))"
  shows "sorted (map createdAt (assembleTimeline discussions events))
    \<and> mset (assembleTimeline discussions events) = mset (discussions @ events)
    \<and> (\<forall>nodes. mset nodes = mset (discussions @ events)
          \<longrightarrow> js_sort compareCreatedAt nodes = assembleTimeline discussions events)"
proof (intro conjI allI impI)
  have tl: "assembleTimeline discussions events = sort_key createdAt (discussions @ events)"
    by (simp only: assembleTimeline_def js_sort_sort_key)
  show "sorted (map createdAt (assembleTimeline discussions events))"
    unfolding tl by (rule sorted_sort_key)
  show "mset (assembleTimeline discussions events) = mset (discussions @ events)"
    unfolding tl by (rule mset_sort)
  fix nodes assume "mset nodes = mset (discussions @ events)"
  then have "sort_key createdAt nodes = sort_key createdAt (discussions @ events)"
    using assms by (rule sort_key_unique)
  then show "js_sort compareCreatedAt nodes = assembleTimeline discussions events"
    unfolding tl by (simp only: js_sort_sort_key)
qed

text \<open>
  C5 fails as stated when a later note has the id of the first: the replies are the
  notes whose id differs from the head's, so here the head has no reply at all.
\<close>

theorem note_splitting_counterexample:
  "d_notes threadWithRepeatedId
     = Some [threadNote ''gid://gitlab/DiffNote/1'' ''Why this?'' ''2020-11-01T09:00:00Z'',
             threadNote ''gid://gitlab/DiffNote/1'' ''Because.'' ''2020-11-01T09:05:00Z'']
   \<and> map n_replies (case d_notes (splitNotes ''token'' threadWithRepeatedId) of None \<Rightarrow> [] | Some ns \<Rightarrow> ns)
     = [Some []]"
  by (simp add: threadWithRepeatedId_def splitNotes_def annotateNote_def threadNote_def)

theorem note_splitting_witness:
  "d_notes threadOfThree
     = Some (threadNote ''gid://gitlab/DiffNote/1'' ''Why this?'' ''2020-11-01T09:00:00Z''
             # [threadNote ''gid://gitlab/DiffNote/2'' ''Because.'' ''2020-11-01T09:05:00Z'',
                threadNote ''gid://gitlab/DiffNote/3'' ''Fine.'' ''2020-11-01T09:07:00Z''])
   \<and> (\<exists>h. d_notes (splitNotes ''token'' threadOfThree) = Some [h]
         \<and> noteContent h = noteContent (threadNote ''gid://gitlab/DiffNote/1'' ''Why this?'' ''2020-11-01T09:00:00Z'')
         \<and> n_databaseId h = Some ''abc123''
         \<and> map noteContent (case n_replies h of None \<Rightarrow> [] | Some rs \<Rightarrow> rs)
             = [noteContent (threadNote ''gid://gitlab/DiffNote/2'' ''Because.'' ''2020-11-01T09:05:00Z''),
                noteContent (threadNote ''gid://gitlab/DiffNote/3'' ''Fine.'' ''2020-11-01T09:07:00Z'')])"
proof -
  have dn: "d_notes threadOfThree
     = Some (threadNote ''gid://gitlab/DiffNote/1'' ''Why this?'' ''2020-11-01T09:00:00Z''
             # [threadNote ''gid://gitlab/DiffNote/2'' ''Because.'' ''2020-11-01T09:05:00Z'',
                threadNote ''gid://gitlab/DiffNote/3'' ''Fine.'' ''2020-11-01T09:07:00Z''])"
    by (simp add: threadOfThree_def)
  have ids: "\<forall>n \<in> set [threadNote ''gid://gitlab/DiffNote/2'' ''Because.'' ''2020-11-01T09:05:00Z'',
                threadNote ''gid://gitlab/DiffNote/3'' ''Fine.'' ''2020-11-01T09:07:00Z''].
        n_id n \<noteq> n_id (threadNote ''gid://gitlab/DiffNote/1'' ''Why this?'' ''2020-11-01T09:00:00Z'')"
    by (simp add: threadNote_def)
  from note_splitting [OF dn ids, of "''token''"] obtain h where
    h: "d_notes (splitNotes ''token'' threadOfThree) = Some [h]"
    "noteContent h = noteContent (threadNote ''gid://gitlab/DiffNote/1'' ''Why this?'' ''2020-11-01T09:00:00Z'')"
    "n_replies h = Some (map (annotateNote ''token'')
        [threadNote ''gid://gitlab/DiffNote/2'' ''Because.'' ''2020-11-01T09:05:00Z'',
         threadNote ''gid://gitlab/DiffNote/3'' ''Fine.'' ''2020-11-01T09:07:00Z''])"
    by blast
  have "n_databaseId h = Some ''abc123''"
    using h(1) by (auto simp: threadOfThree_def splitNotes_def annotateNote_def threadNote_def)
  then show ?thesis
    using dn h by (auto simp: noteContent_annotateNote)
qed

section \<open>The review store: what is proved\<close>

lemma encodeId_nonempty: "encodeId n f \<noteq> []"
  by (simp add: encodeId_def JSON_stringify_def)

lemma decodeIdOnly_encodeId: "decodeIdOnly (encodeId n f) = Inr (Some n)"
  by (simp add: decodeIdOnly_def encodeId_nonempty)
    (simp add: encodeId_def JSON_parse_stringify jsProp_def)

lemma decodeUnguarded_encodeId:
  assumes "CHR ''!'' \<notin> set a" and "CHR ''!'' \<notin> set b"
  shows "decodeUnguarded (encodeId n (a @ CHR ''!'' # b)) = Inr (Some n, Some a, Some b)"
  using js_split_at_sep [OF assms(1), of b] js_split_no_sep [OF assms(2)]
  by (simp add: decodeUnguarded_def encodeId_def JSON_parse_stringify jsProp_def nth_opt_def)

lemma decodeGuarded_encodeId:
  assumes "CHR ''!'' \<notin> set a" and "CHR ''!'' \<notin> set b"
  shows "decodeGuarded (encodeId n (a @ CHR ''!'' # b)) = Inr (Some n, Some a, Some b)"
  by (simp add: decodeGuarded_def encodeId_nonempty decodeUnguarded_encodeId [OF assms])

lemma parseId_encodeId:
  assumes "CHR ''!'' \<notin> set a" and "CHR ''!'' \<notin> set b"
  shows "parseId (encodeId n (a @ CHR ''!'' # b)) = Inr (Some a, Some b)"
  using js_split_at_sep [OF assms(1), of b] js_split_no_sep [OF assms(2)]
  by (simp add: parseId_def encodeId_def JSON_parse_stringify jsProp_def nth_opt_def)

lemma sameCaches_refl: "sameCaches s s"
  by (simp add: sameCaches_def)

lemma sameCaches_trans: "sameCaches s s1 \<Longrightarrow> sameCaches s1 s2 \<Longrightarrow> sameCaches s s2"
  by (simp add: sameCaches_def)

lemma perform_frame:
  "perform c f s = (r, s') \<Longrightarrow> sameCaches s s' \<and> calls s' = calls s @ [c]"
  by (auto simp: perform_def sameCaches_def split: prod.splits)

lemma restCall_frame:
  "restCall c f s = (r, s') \<Longrightarrow> sameCaches s s' \<and> calls s' = calls s @ [c]"
  by (auto simp: restCall_def perform_def sameCaches_def split: prod.splits sum.splits)

lemma mutate_frame:
  "mutate c f s = (r, s') \<Longrightarrow> sameCaches s s' \<and> (calls s' = calls s @ [c] \<or> calls s' = calls s)"
  by (auto simp: mutate_def getClient_def restCall_def perform_def sameCaches_def
      split: prod.splits sum.splits if_splits)

lemma query_frame:
  "query t c f s = (r, s') \<Longrightarrow> sameCaches s s' \<and> (calls s' = calls s @ [c] \<or> calls s' = calls s)"
  by (auto simp: query_def getClient_def queryCaught_def perform_def sameCaches_def
      split: prod.splits sum.splits if_splits option.splits)

lemma decodeUnguarded_idOnly:
  "decodeUnguarded pid = Inr (aid, p, i) \<Longrightarrow> decodeIdOnly pid = Inr aid"
  by (auto simp: decodeUnguarded_def decodeIdOnly_def JSON_parse_def split: option.splits)

lemma createCommitComment_frame:
  assumes "createCommitComment t req s = (r, s')"
  shows "pendingReviewStore s' = pendingReviewStore s \<and> accessToken s' = accessToken s"
  using assms
  by (auto simp: createCommitComment_def restCall_def perform_def
      split: sum.splits prod.splits)

lemma flushPending_frame:
  "pendingReviewStore (flushPending t pid es s) = pendingReviewStore s
   \<and> accessToken (flushPending t pid es s) = accessToken s"
proof (induction es arbitrary: s)
  case Nil
  then show ?case by simp
next
  case (Cons e es)
  obtain r s1 where c: "createCommitComment t
      \<lparr>cc_pullRequestId = ic_pullRequestId (entryRequest pid e), cc_leftSha = ic_leftSha (entryRequest pid e),
       cc_sha = (if truthy (ic_sha (entryRequest pid e)) then ic_sha (entryRequest pid e)
                 else ic_rightSha (entryRequest pid e)),
       cc_text = ic_text (entryRequest pid e), cc_path = ic_filePath (entryRequest pid e),
       cc_startLine = ic_startLine (entryRequest pid e)\<rparr> s = (r, s1)"
    by (cases "createCommitComment t
      \<lparr>cc_pullRequestId = ic_pullRequestId (entryRequest pid e), cc_leftSha = ic_leftSha (entryRequest pid e),
       cc_sha = (if truthy (ic_sha (entryRequest pid e)) then ic_sha (entryRequest pid e)
                 else ic_rightSha (entryRequest pid e)),
       cc_text = ic_text (entryRequest pid e), cc_path = ic_filePath (entryRequest pid e),
       cc_startLine = ic_startLine (entryRequest pid e)\<rparr> s")
  from createCommitComment_frame [OF c] Cons.IH [of s1] c
  show ?case by (simp add: createPullRequestInlineComment_def)
qed

lemma createPullRequestComment_frame:
  assumes "createPullRequestComment t pid txt i0 s = (r, s')"
  shows "pendingReviewStore s' = pendingReviewStore s"
  using assms
  by (auto simp: createPullRequestComment_def mutate_def getClient_def restCall_def perform_def
      split: sum.splits prod.splits if_splits option.splits)

text \<open>Whatever happens to the posts, a submitted review leaves the key in the store.\<close>

lemma submitReview_store:
  assumes "decodeIdOnly (sr_pullRequestId req) = Inr aid"
    and "validEventType (effectiveEventType (sr_eventType req))"
    and "pendingReviewStore s aid = Some entries"
  shows "pendingReviewStore (snd (submitReview t req s)) aid = Some []"
proof -
  let ?s1 = "case entries of
      [] \<Rightarrow> s
    | c # cs \<Rightarrow> (flushPending t (sr_pullRequestId req) entries s)
        \<lparr>pendingReviewStore :=
           (pendingReviewStore (flushPending t (sr_pullRequestId req) entries s))(aid \<mapsto> [])\<rparr>"
  have s1: "pendingReviewStore ?s1 aid = Some []"
    using assms(3) by (cases entries) simp_all
  show ?thesis
  proof (cases "sr_text req = []")
    case True
    then show ?thesis
      using assms s1 by (cases entries) (simp_all add: submitReview_def Let_def del: flushPending.simps)
  next
    case False
    obtain r s2 where c: "createPullRequestComment t (sr_pullRequestId req) (sr_text req) None ?s1 = (r, s2)"
      by (cases "createPullRequestComment t (sr_pullRequestId req) (sr_text req) None ?s1")
    from createPullRequestComment_frame [OF c] s1
    have "pendingReviewStore s2 aid = Some []" by simp
    then show ?thesis
      using assms False c
      by (cases entries; cases r) (simp_all add: submitReview_def Let_def del: flushPending.simps)
  qed
qed

lemma getPendingReview_after_submit:
  assumes "decodeIdOnly (sr_pullRequestId req) = Inr aid"
    and "validEventType (effectiveEventType (sr_eventType req))"
    and "pendingReviewStore s aid = Some entries"
  shows "getPendingReview (sr_pullRequestId req) (snd (submitReview t req s)) = Inr True"
  using submitReview_store [OF assms, of t] assms(1) by (simp add: getPendingReview_def)

lemma submitReview_invalid:
  assumes "\<not> validEventType (effectiveEventType (sr_eventType req))"
  shows "submitReview t req s =
    (case decodeIdOnly (sr_pullRequestId req) of
       Inl e \<Rightarrow> (Inl e, s)
     | Inr aid \<Rightarrow> (Inl (Thrown (newError ''Invalid eventType'')), s))"
  using assms by (simp add: submitReview_def split: sum.splits)

text \<open>
  C8, amended.  For every call of \<open>submitReview\<close> whose \<open>eventType\<close> is a non-empty
  string other than \<open>COMMENT\<close>, \<open>APPROVE\<close> and \<open>REQUEST_CHANGES\<close>, the operation
  rejects and leaves the adapter and the world exactly as they were: no network call
  is issued and the pending-review store is unchanged.  With a token that parses,
  the error is \<open>Error("Invalid eventType")\<close>.
\<close>

theorem validation_rejection:
  assumes "sr_eventType req = Some e" and "e \<noteq> []" and "\<not> validEventType e"
  shows "isl (fst (submitReview t req s))
    \<and> snd (submitReview t req s) = s
    \<and> (\<forall>aid. decodeIdOnly (sr_pullRequestId req) = Inr aid
          \<longrightarrow> fst (submitReview t req s) = Inl (Thrown (newError ''Invalid eventType'')))"
proof -
  have "\<not> validEventType (effectiveEventType (sr_eventType req))"
    using assms by (simp add: effectiveEventType_def)
  from submitReview_invalid [OF this, of t s] show ?thesis
    by (auto split: sum.splits)
qed

lemma submitReview_default:
  assumes "sr_eventType req = None \<or> sr_eventType req = Some []"
  shows "submitReview t req s = submitReview t (req\<lparr>sr_eventType := Some ''COMMENT''\<rparr>) s"
proof -
  have "effectiveEventType (sr_eventType req) = ''COMMENT''"
    using assms by (auto simp: effectiveEventType_def)
  moreover have "effectiveEventType (Some ''COMMENT'') = ''COMMENT''"
    by (simp add: effectiveEventType_def)
  moreover have "validEventType ''COMMENT''" by (simp add: validEventType_def)
  ultimately show ?thesis
    by (simp add: submitReview_def Let_def
        cong: sum.case_cong option.case_cong list.case_cong prod.case_cong if_cong)
qed

lemma decodeUnguarded_nonempty: "decodeUnguarded pid = Inr x \<Longrightarrow> pid \<noteq> []"
  by (auto simp: decodeUnguarded_def JSON_parse_def)

lemma createCommitComment_success:
  assumes "decodeUnguarded (cc_pullRequestId req) = Inr (aid, p, i)" and "postsSucceed t p i"
  shows "\<exists>body s'. createCommitComment t req s = (Inr body, s')
      \<and> calls s' = calls s @ [Call ''POST'' ''discussions'' p i]"
proof -
  let ?payload = "\<lparr>dp_body = cc_text req, dp_base_sha = cc_leftSha req,
      dp_head_sha = cc_sha req, dp_start_sha = cc_leftSha req,
      dp_position_type = ''text'', dp_new_path = cc_path req, dp_new_line = cc_startLine req\<rparr>"
  obtain r w' where o: "restPostDiscussions t p i ?payload (world s) = (r, w')"
    by (cases "restPostDiscussions t p i ?payload (world s)")
  have "\<not> isl (fst (restPostDiscussions t p i ?payload (world s)))"
    using assms(2) by (simp add: postsSucceed_def)
  with o obtain body where "r = Inr body" by (cases r) auto
  with o assms(1) show ?thesis
    by (simp add: createCommitComment_def restCall_def perform_def)
qed

lemma flushPending_success:
  assumes "decodeUnguarded pid = Inr (aid, p, i)" and "postsSucceed t p i"
  shows "calls (flushPending t pid es s) = calls s @ map (\<lambda>e. Call ''POST'' ''discussions'' p i) es"
proof (induction es arbitrary: s)
  case Nil
  then show ?case by simp
next
  case (Cons e es)
  let ?req = "\<lparr>cc_pullRequestId = pid, cc_leftSha = entryLeftSha e,
       cc_sha = (if truthy (entrySha e) then entrySha e else entryRightSha e),
       cc_text = entryText e, cc_path = entryFilePath e, cc_startLine = entryStartLine e\<rparr>"
  have "decodeUnguarded (cc_pullRequestId ?req) = Inr (aid, p, i)" using assms(1) by simp
  from createCommitComment_success [OF this assms(2), of s] obtain body s1 where
    "createCommitComment t ?req s = (Inr body, s1)"
    "calls s1 = calls s @ [Call ''POST'' ''discussions'' p i]"
    by blast
  with Cons.IH [of s1] show ?case
    by (simp add: createPullRequestInlineComment_def entryRequest_def split del: if_split cong: if_cong)
qed

lemma createPullRequestComment_success:
  assumes "decodeUnguarded pid = Inr (aid, p, Some i)" and "truthy (accessToken s)"
    and "noteSucceeds t aid txt i"
  shows "\<exists>d s'. createPullRequestComment t pid txt None s = (Inr d, s')
      \<and> calls s' = calls s @ [Call ''MUTATE'' ''CreateNote'' None (Some i)]"
proof -
  obtain r w' where o: "gqlCreateNote t aid txt i (world s) = (r, w')"
    by (cases "gqlCreateNote t aid txt i (world s)")
  have "case gqlCreateNote t aid txt i (world s) of
          (Inl e, w') \<Rightarrow> False
        | (Inr reply, w') \<Rightarrow> \<not> isl (findAddedNode (cn_noteId reply) (cn_nodes reply))"
    using assms(3) by (simp add: noteSucceeds_def)
  with o obtain reply where r: "r = Inr reply"
    and f: "\<not> isl (findAddedNode (cn_noteId reply) (cn_nodes reply))"
    by (cases r) auto
  from f obtain added where "findAddedNode (cn_noteId reply) (cn_nodes reply) = Inr added"
    by (cases "findAddedNode (cn_noteId reply) (cn_nodes reply)") auto
  with o r assms(1,2) decodeUnguarded_nonempty [OF assms(1)] show ?thesis
    by (simp add: createPullRequestComment_def mutate_def getClient_def restCall_def perform_def)
qed

text \<open>
  C10.  A call of \<open>submitReview\<close> whose \<open>eventType\<close> is absent or empty behaves in
  every respect as the same call with \<open>eventType = "COMMENT"\<close>.  It is not rejected
  by the validation: when the token parses, comments are staged, a summary text is
  given and the server accepts the posts, it returns \<open>true\<close> after one discussion
  post per staged comment, in order, followed by the summary note, and the staged
  list is reset.
\<close>

theorem default_event_type:
  assumes "sr_eventType req = None \<or> sr_eventType req = Some []"
  shows "submitReview t req s = submitReview t (req\<lparr>sr_eventType := Some ''COMMENT''\<rparr>) s
    \<and> (\<forall>aid p i e es.
          decodeUnguarded (sr_pullRequestId req) = Inr (aid, p, Some i)
          \<and> pendingReviewStore s aid = Some (e # es) \<and> sr_text req \<noteq> []
          \<and> truthy (accessToken s) \<and> postsSucceed t p (Some i)
          \<and> noteSucceeds t aid (sr_text req) i
        \<longrightarrow> (\<exists>s'. submitReview t req s = (Inr True, s')
              \<and> calls s' = calls s @ map (\<lambda>c. Call ''POST'' ''discussions'' p (Some i)) (e # es)
                                    @ [Call ''MUTATE'' ''CreateNote'' None (Some i)]
              \<and> pendingReviewStore s' aid = Some []))"
proof (intro conjI allI impI)
  show "submitReview t req s = submitReview t (req\<lparr>sr_eventType := Some ''COMMENT''\<rparr>) s"
    using assms by (rule submitReview_default)
next
  fix aid p i e es
  assume a: "decodeUnguarded (sr_pullRequestId req) = Inr (aid, p, Some i)
          \<and> pendingReviewStore s aid = Some (e # es) \<and> sr_text req \<noteq> []
          \<and> truthy (accessToken s) \<and> postsSucceed t p (Some i)
          \<and> noteSucceeds t aid (sr_text req) i"
  let ?pid = "sr_pullRequestId req"
  let ?f = "flushPending t ?pid (e # es) s"
  let ?s1 = "?f\<lparr>pendingReviewStore := (pendingReviewStore ?f)(aid \<mapsto> [])\<rparr>"
  have id: "decodeIdOnly ?pid = Inr aid" using a decodeUnguarded_idOnly by blast
  have valid: "validEventType (effectiveEventType (sr_eventType req))"
    using assms by (auto simp: effectiveEventType_def validEventType_def)
  have fc: "calls ?f = calls s @ map (\<lambda>c. Call ''POST'' ''discussions'' p (Some i)) (e # es)"
    using a flushPending_success by blast
  have tok: "truthy (accessToken ?s1)" using a flushPending_frame [of t ?pid "e # es" s] by simp
  from createPullRequestComment_success [of ?pid aid p i ?s1 t "sr_text req"] a tok
  obtain d s' where c: "createPullRequestComment t ?pid (sr_text req) None ?s1 = (Inr d, s')"
    and cc: "calls s' = calls ?s1 @ [Call ''MUTATE'' ''CreateNote'' None (Some i)]"
    by blast
  have sub: "submitReview t req s = (Inr True, s')"
    using id valid a c by (simp add: submitReview_def Let_def del: flushPending.simps)
  moreover have "calls s' = calls s @ map (\<lambda>c. Call ''POST'' ''discussions'' p (Some i)) (e # es)
      @ [Call ''MUTATE'' ''CreateNote'' None (Some i)]"
    using cc fc by simp
  moreover have "pendingReviewStore s' aid = Some []"
    using submitReview_store [OF id valid, of s "e # es" t] a sub by simp
  ultimately show "\<exists>s'. submitReview t req s = (Inr True, s')
      \<and> calls s' = calls s @ map (\<lambda>c. Call ''POST'' ''discussions'' p (Some i)) (e # es)
                            @ [Call ''MUTATE'' ''CreateNote'' None (Some i)]
      \<and> pendingReviewStore s' aid = Some []"
    by blast
qed

lemma projectEvents_frame:
  assumes "projectEvents t p s = (r, s')"
  shows "sameCaches s s' \<and> calls s' = calls s @ [Call ''GET'' ''events'' p None]"
proof -
  obtain r0 s0 where c: "restCall (Call ''GET'' ''events'' p None) (restGetProjectEvents t p) s = (r0, s0)"
    by (cases "restCall (Call ''GET'' ''events'' p None) (restGetProjectEvents t p) s")
  then have "s' = s0" using assms by (cases r0) (simp_all add: projectEvents_def)
  with restCall_frame [OF c] show ?thesis by simp
qed

lemma labelEvents_frame:
  assumes "labelEvents t p i s = (r, s')"
  shows "sameCaches s s' \<and> calls s' = calls s @ [Call ''GET'' ''resource_label_events'' p i]"
proof -
  obtain r0 s0 where c: "restCall (Call ''GET'' ''resource_label_events'' p i) (restGetLabelEvents t p i) s = (r0, s0)"
    by (cases "restCall (Call ''GET'' ''resource_label_events'' p i) (restGetLabelEvents t p i) s")
  then have "s' = s0" using assms by (cases r0) (simp_all add: labelEvents_def)
  with restCall_frame [OF c] show ?thesis by simp
qed

lemma milestoneEvents_frame:
  assumes "milestoneEvents t p i s = (r, s')"
  shows "sameCaches s s' \<and> calls s' = calls s @ [Call ''GET'' ''resource_milestone_events'' p i]"
proof -
  obtain r0 s0 where c: "restCall (Call ''GET'' ''resource_milestone_events'' p i) (restGetMilestoneEvents t p i) s = (r0, s0)"
    by (cases "restCall (Call ''GET'' ''resource_milestone_events'' p i) (restGetMilestoneEvents t p i) s")
  then have "s' = s0" using assms by (cases r0) (simp_all add: milestoneEvents_def)
  with restCall_frame [OF c] show ?thesis by simp
qed

lemma auxiliaryEvents_frame:
  assumes "auxiliaryEvents t p i s = (r, s')"
  shows "sameCaches s s' \<and>
    calls s' = calls s @ [Call ''GET'' ''events'' p None, Call ''GET'' ''resource_label_events'' p i,
                           Call ''GET'' ''resource_milestone_events'' p i]"
proof -
  obtain rp s1 where p1: "projectEvents t p s = (rp, s1)" by (cases "projectEvents t p s")
  obtain rl s2 where p2: "labelEvents t p i s1 = (rl, s2)" by (cases "labelEvents t p i s1")
  obtain rm s3 where p3: "milestoneEvents t p i s2 = (rm, s3)" by (cases "milestoneEvents t p i s2")
  have "s' = s3"
    using assms p1 p2 p3 by (cases rp; cases rl; cases rm) (simp_all add: auxiliaryEvents_def)
  moreover have "sameCaches s s3"
    using projectEvents_frame [OF p1] labelEvents_frame [OF p2] milestoneEvents_frame [OF p3]
    by (blast intro: sameCaches_trans)
  moreover have "calls s3 = calls s @ [Call ''GET'' ''events'' p None,
      Call ''GET'' ''resource_label_events'' p i, Call ''GET'' ''resource_milestone_events'' p i]"
    using projectEvents_frame [OF p1] labelEvents_frame [OF p2] milestoneEvents_frame [OF p3]
    by simp
  ultimately show ?thesis by simp
qed

lemma auxiliaryEvents_fails_iff:
  "isl (fst (auxiliaryEvents t p i s)) \<longleftrightarrow>
     isl (fst (projectEvents t p s))
     \<or> isl (fst (labelEvents t p i (snd (projectEvents t p s))))
     \<or> isl (fst (milestoneEvents t p i (snd (labelEvents t p i (snd (projectEvents t p s))))))"
proof -
  obtain rp s1 where p1: "projectEvents t p s = (rp, s1)" by (cases "projectEvents t p s")
  obtain rl s2 where p2: "labelEvents t p i s1 = (rl, s2)" by (cases "labelEvents t p i s1")
  obtain rm s3 where p3: "milestoneEvents t p i s2 = (rm, s3)" by (cases "milestoneEvents t p i s2")
  show ?thesis
    using p1 p2 p3 by (cases rp; cases rl; cases rm) (simp_all add: auxiliaryEvents_def)
qed

lemma tokenX_idOnly: "decodeIdOnly tokenX = Inr (Some ''gid://gitlab/MergeRequest/5'')"
  by (simp add: tokenX_def decodeIdOnly_encodeId)

lemma tokenX_unguarded:
  "decodeUnguarded tokenX = Inr (Some ''gid://gitlab/MergeRequest/5'', Some ''group/project'', Some ''17'')"
  using decodeUnguarded_encodeId [of "''group/project''" "''17''" "''gid://gitlab/MergeRequest/5''"]
  by (simp add: tokenX_def)

lemma tokenX_guarded:
  "decodeGuarded tokenX = Inr (Some ''gid://gitlab/MergeRequest/5'', Some ''group/project'', Some ''17'')"
  using decodeGuarded_encodeId [of "''group/project''" "''17''" "''gid://gitlab/MergeRequest/5''"]
  by (simp add: tokenX_def)

lemma tokenX_parseId: "parseId tokenX = Inr (Some ''group/project'', Some ''17'')"
  using parseId_encodeId [of "''group/project''" "''17''" "''gid://gitlab/MergeRequest/5''"]
  by (simp add: tokenX_def)

lemma stagedTwice_eq:
  "stagedTwice = (freshProvider ())
     \<lparr>pendingReviewStore := [Some ''gid://gitlab/MergeRequest/5'' \<mapsto> [Bare commentA, Wrapped commentB]],
      notifications :=
        [\<lparr>nf_pullRequestId = Some ''gid://gitlab/MergeRequest/5'', nf_filePath = Some ''src/a.ts'',
          nf_commentId = None\<rparr>,
         \<lparr>nf_pullRequestId = Some ''gid://gitlab/MergeRequest/5'', nf_filePath = Some ''src/b.ts'',
          nf_commentId = None\<rparr>]\<rparr>"
  by (simp add: stagedTwice_def createPullRequestReviewComment_def tokenX_idOnly
      commentA_def commentB_def freshProvider_def)

text \<open>
  C8 fails as stated for the empty string: it is outside the enumeration, yet the
  call is not rejected (the empty event type is replaced by \<open>COMMENT\<close>).
\<close>

theorem validation_rejection_counterexample:
  "\<not> validEventType []
   \<and> submitReview gitlabMock
        \<lparr>sr_pullRequestId = tokenX, sr_text = [], sr_eventType = Some []\<rparr> (freshProvider ())
       = (Inr True, freshProvider ())"
  by (simp add: validEventType_def submitReview_def tokenX_idOnly effectiveEventType_def
      freshProvider_def)

theorem validation_rejection_witness:
  "sr_eventType \<lparr>sr_pullRequestId = tokenX, sr_text = ''Looks good'', sr_eventType = Some ''BOGUS''\<rparr>
     = Some ''BOGUS''
   \<and> ''BOGUS'' \<noteq> [] \<and> \<not> validEventType ''BOGUS''
   \<and> submitReview gitlabMock
        \<lparr>sr_pullRequestId = tokenX, sr_text = ''Looks good'', sr_eventType = Some ''BOGUS''\<rparr> stagedTwice
       = (Inl (Thrown (newError ''Invalid eventType'')), stagedTwice)"
proof -
  let ?req = "\<lparr>sr_pullRequestId = tokenX, sr_text = ''Looks good'', sr_eventType = Some ''BOGUS''\<rparr>"
  have v: "\<not> validEventType ''BOGUS''" by (simp add: validEventType_def)
  from validation_rejection [of ?req "''BOGUS''" gitlabMock stagedTwice] v tokenX_idOnly
  have "fst (submitReview gitlabMock ?req stagedTwice) = Inl (Thrown (newError ''Invalid eventType''))"
    and "snd (submitReview gitlabMock ?req stagedTwice) = stagedTwice"
    by simp_all
  then have "submitReview gitlabMock ?req stagedTwice
      = (Inl (Thrown (newError ''Invalid eventType'')), stagedTwice)"
    by (simp add: prod_eq_iff)
  with v show ?thesis by simp
qed

lemma fetchedX_pending:
  "\<exists>r. fst fetchedX = Inr r
     \<and> pendingNodesOf r = [pendingNode ''2020-11-03T00:00:00.000Z'' [Bare commentA, Wrapped commentB]]"
  by (simp add: fetchedX_def getPullRequest_def tokenX_guarded stagedTwice_eq freshProvider_def
      fetchPullRequest_def query_def getClient_def perform_def restCall_def gitlabMock_def
      offline_def answering_def detailReply_def Let_def auxiliaryEvents_def projectEvents_def
      labelEvents_def milestoneEvents_def normalise_def splitDiscussions_def withPending_def
      assembleTimeline_def compareCreatedAt_def pendingNode_def pendingNodesOf_def
      threadOfThree_def splitNotes_def less_char_def)

lemma fetchedX_state:
  "pendingReviewStore (snd fetchedX) = pendingReviewStore stagedTwice
   \<and> accessToken (snd fetchedX) = accessToken stagedTwice"
  by (simp add: fetchedX_def getPullRequest_def tokenX_guarded stagedTwice_eq freshProvider_def
      fetchPullRequest_def query_def getClient_def perform_def restCall_def gitlabMock_def
      offline_def answering_def Let_def auxiliaryEvents_def projectEvents_def
      labelEvents_def milestoneEvents_def)

lemma fetchedX_notes:
  "map n_state (nodeNotes (pendingNode ''2020-11-03T00:00:00.000Z'' [Bare commentA, Wrapped commentB]))
    = [Some ''PENDING'', Some ''PENDING'']"
  by (simp add: pendingNode_def pendingNote_def)

lemma submittedX_calls:
  "fst submittedX = Inr True
   \<and> calls (snd submittedX) = calls (snd fetchedX)
        @ [Call ''POST'' ''discussions'' (Some ''group/project'') (Some ''17''),
           Call ''POST'' ''discussions'' (Some ''group/project'') (Some ''17'')]
   \<and> length (notifications (snd submittedX)) = length (notifications (snd fetchedX)) + 1"
proof -
  have st: "pendingReviewStore (snd fetchedX) (Some ''gid://gitlab/MergeRequest/5'')
      = Some [Bare commentA, Wrapped commentB]"
    using fetchedX_state by (simp add: stagedTwice_eq)
  show ?thesis
    by (simp add: submittedX_def submitReview_def tokenX_idOnly effectiveEventType_def
        validEventType_def st Let_def createPullRequestInlineComment_def entryRequest_def
        createCommitComment_def tokenX_unguarded restCall_def perform_def gitlabMock_def
        offline_def answering_def failing_def commentA_def commentB_def split: prod.splits)
qed

text \<open>
  C1 on the code: two comments are staged for the pull request, the detail fetch
  shows exactly one pending node with two notes in state \<open>PENDING\<close>, and the review
  is submitted; the post of the second staged comment fails, the call still returns
  \<open>true\<close> and the staged list is reset to the empty list.  The key stays in the
  store, so \<open>getPendingReview\<close> afterwards answers \<open>true\<close>, where the claim says
  \<open>false\<close>.
\<close>

theorem pending_review_lifecycle:
  "pendingReviewStore stagedTwice (Some ''gid://gitlab/MergeRequest/5'')
     = Some [Bare commentA, Wrapped commentB]
   \<and> (\<exists>r. fst fetchedX = Inr r
         \<and> length (pendingNodesOf r) = 1
         \<and> map n_state (concat (map nodeNotes (pendingNodesOf r)))
             = [Some ''PENDING'', Some ''PENDING''])
   \<and> fst submittedX = Inr True
   \<and> calls (snd submittedX) = calls (snd fetchedX)
        @ [Call ''POST'' ''discussions'' (Some ''group/project'') (Some ''17''),
           Call ''POST'' ''discussions'' (Some ''group/project'') (Some ''17'')]
   \<and> length (notifications (snd submittedX)) = length (notifications (snd fetchedX)) + 1
   \<and> pendingReviewStore (snd submittedX) (Some ''gid://gitlab/MergeRequest/5'') = Some []
   \<and> getPendingReview tokenX (snd submittedX) = Inr True"
proof -
  have st0: "pendingReviewStore stagedTwice (Some ''gid://gitlab/MergeRequest/5'')
     = Some [Bare commentA, Wrapped commentB]"
    by (simp add: stagedTwice_eq)
  then have st: "pendingReviewStore (snd fetchedX) (Some ''gid://gitlab/MergeRequest/5'')
      = Some [Bare commentA, Wrapped commentB]"
    using fetchedX_state by simp
  let ?req = "\<lparr>sr_pullRequestId = tokenX, sr_text = [], sr_eventType = Some ''COMMENT''\<rparr>"
  have id: "decodeIdOnly (sr_pullRequestId ?req) = Inr (Some ''gid://gitlab/MergeRequest/5'')"
    by (simp add: tokenX_idOnly)
  have valid: "validEventType (effectiveEventType (sr_eventType ?req))"
    by (simp add: effectiveEventType_def validEventType_def)
  have store: "pendingReviewStore (snd submittedX) (Some ''gid://gitlab/MergeRequest/5'') = Some []"
    unfolding submittedX_def using submitReview_store [OF id valid st] .
  have pend: "getPendingReview tokenX (snd submittedX) = Inr True"
    unfolding submittedX_def using getPendingReview_after_submit [OF id valid st] by simp
  from fetchedX_pending obtain r where
    "fst fetchedX = Inr r"
    "pendingNodesOf r = [pendingNode ''2020-11-03T00:00:00.000Z'' [Bare commentA, Wrapped commentB]]"
    by blast
  then have "\<exists>r. fst fetchedX = Inr r
         \<and> length (pendingNodesOf r) = 1
         \<and> map n_state (concat (map nodeNotes (pendingNodesOf r)))
             = [Some ''PENDING'', Some ''PENDING'']"
    using fetchedX_notes by simp
  with st0 submittedX_calls store pend show ?thesis by simp
qed

text \<open>C10 at a concrete call: no event type, two staged comments, a summary text,
  a server that accepts everything.\<close>

theorem default_event_type_witness:
  "(sr_eventType \<lparr>sr_pullRequestId = tokenX, sr_text = ''Looks good'', sr_eventType = None\<rparr> = None
      \<or> sr_eventType \<lparr>sr_pullRequestId = tokenX, sr_text = ''Looks good'', sr_eventType = None\<rparr> = Some [])
   \<and> postsSucceed gitlabLenient (Some ''group/project'') (Some ''17'')
   \<and> noteSucceeds gitlabLenient (Some ''gid://gitlab/MergeRequest/5'') ''Looks good'' ''17''
   \<and> submitReview gitlabLenient
        \<lparr>sr_pullRequestId = tokenX, sr_text = ''Looks good'', sr_eventType = None\<rparr> stagedTwice
       = submitReview gitlabLenient
           \<lparr>sr_pullRequestId = tokenX, sr_text = ''Looks good'', sr_eventType = Some ''COMMENT''\<rparr>
           stagedTwice
   \<and> (\<exists>s'. submitReview gitlabLenient
              \<lparr>sr_pullRequestId = tokenX, sr_text = ''Looks good'', sr_eventType = None\<rparr> stagedTwice
             = (Inr True, s')
          \<and> calls s' = [Call ''POST'' ''discussions'' (Some ''group/project'') (Some ''17''),
                         Call ''POST'' ''discussions'' (Some ''group/project'') (Some ''17''),
                         Call ''MUTATE'' ''CreateNote'' None (Some ''17'')]
          \<and> pendingReviewStore s' (Some ''gid://gitlab/MergeRequest/5'') = Some [])"
proof -
  let ?req = "\<lparr>sr_pullRequestId = tokenX, sr_text = ''Looks good'', sr_eventType = None\<rparr>"
  have ps: "postsSucceed gitlabLenient (Some ''group/project'') (Some ''17'')"
    by (simp add: postsSucceed_def gitlabLenient_def gitlabMock_def offline_def answering_def)
  have ns: "noteSucceeds gitlabLenient (Some ''gid://gitlab/MergeRequest/5'') ''Looks good'' ''17''"
    by (simp add: noteSucceeds_def gitlabLenient_def gitlabMock_def offline_def answering_def)
  have st: "pendingReviewStore stagedTwice (Some ''gid://gitlab/MergeRequest/5'')
      = Some (Bare commentA # [Wrapped commentB])"
    by (simp add: stagedTwice_eq)
  have tok: "truthy (accessToken stagedTwice)" by (simp add: stagedTwice_eq freshProvider_def)
  have c0: "calls stagedTwice = []" by (simp add: stagedTwice_eq freshProvider_def)
  have e: "sr_eventType ?req = None \<or> sr_eventType ?req = Some []" by simp
  note T = default_event_type [OF e, of gitlabLenient stagedTwice]
  have eq: "submitReview gitlabLenient ?req stagedTwice
        = submitReview gitlabLenient (?req\<lparr>sr_eventType := Some ''COMMENT''\<rparr>) stagedTwice"
    using T by (rule conjunct1)
  have hyp: "decodeUnguarded (sr_pullRequestId ?req)
        = Inr (Some ''gid://gitlab/MergeRequest/5'', Some ''group/project'', Some ''17'')
      \<and> pendingReviewStore stagedTwice (Some ''gid://gitlab/MergeRequest/5'')
        = Some (Bare commentA # [Wrapped commentB])
      \<and> sr_text ?req \<noteq> [] \<and> truthy (accessToken stagedTwice)
      \<and> postsSucceed gitlabLenient (Some ''group/project'') (Some ''17'')
      \<and> noteSucceeds gitlabLenient (Some ''gid://gitlab/MergeRequest/5'') (sr_text ?req) ''17''"
    using tokenX_unguarded st tok ps ns by simp
  from T [THEN conjunct2, rule_format, OF hyp] obtain s' where
    "submitReview gitlabLenient ?req stagedTwice = (Inr True, s')"
    "calls s' = calls stagedTwice
              @ map (\<lambda>c. Call ''POST'' ''discussions'' (Some ''group/project'') (Some ''17''))
                  (Bare commentA # [Wrapped commentB])
              @ [Call ''MUTATE'' ''CreateNote'' None (Some ''17'')]"
    "pendingReviewStore s' (Some ''gid://gitlab/MergeRequest/5'') = Some []"
    by blast
  then have ex: "\<exists>s'. submitReview gitlabLenient ?req stagedTwice = (Inr True, s')
          \<and> calls s' = [Call ''POST'' ''discussions'' (Some ''group/project'') (Some ''17''),
                         Call ''POST'' ''discussions'' (Some ''group/project'') (Some ''17''),
                         Call ''MUTATE'' ''CreateNote'' None (Some ''17'')]
          \<and> pendingReviewStore s' (Some ''gid://gitlab/MergeRequest/5'') = Some []"
    using c0 by simp
  have eq': "submitReview gitlabLenient ?req stagedTwice
       = submitReview gitlabLenient
           \<lparr>sr_pullRequestId = tokenX, sr_text = ''Looks good'', sr_eventType = Some ''COMMENT''\<rparr>
           stagedTwice"
    using eq by simp
  show ?thesis
    using e ps ns eq' ex by (intro conjI)
qed

section \<open>Detail fetch under a failing event fetch: what is proved\<close>

lemma partialResponse_discussions:
  "mr_discussions (mergeRequest (partialResponse t r0 s))
    = map (splitNode (encodeId (mr_id (mergeRequest r0))
                        (sp_fullPath (mr_sourceProject (mergeRequest r0)) @ mr_reference (mergeRequest r0))))
        (mr_discussions (mergeRequest r0))
      @ (case pendingReviewStore s (Some (mr_id (mergeRequest r0))) of
           None \<Rightarrow> []
         | Some entries \<Rightarrow> [pendingNode (toISOString t (world s)) entries])"
  by (simp add: partialResponse_def withPending_def splitDiscussions_def normalise_def Let_def
      split: option.splits)

lemma fetch_events_failed:
  assumes "query t (Call ''QUERY'' ''GetPullRequest'' p (Some i)) (gqlGetPullRequest t p i) s = (Inr r0, s1)"
    and "restCall (Call ''GET'' ''award_emoji'' p (Some i)) (restGetAwardEmoji t p (Some i))
           (s1\<lparr>gitlabUsername := Some (currentUser_username r0)\<rparr>) = (Inr awards, s3)"
    and "isl (fst (auxiliaryEvents t p (Some i) s3))"
  shows "\<exists>s4. fetchPullRequest t aid p (Some i) s = (Response (partialResponse t r0 s3), s4)
      \<and> pullRequestCache s4 aid = Some (partialResponse t r0 s3)"
proof -
  obtain re s4 where ev: "auxiliaryEvents t p (Some i) s3 = (re, s4)"
    by (cases "auxiliaryEvents t p (Some i) s3")
  with assms(3) obtain e where "re = Inl e" by (cases re) auto
  with assms(1,2) ev show ?thesis
    by (simp add: fetchPullRequest_def Let_def partialResponse_def)
qed

text \<open>
  C9, amended.  For every detail fetch that gets as far as the event fetches (the
  token parses with an internal id, the entry is not served from the cache, the detail query and
  the award fetch succeed): if any of the three auxiliary event fetches fails, the
  fetch does not fail.  It returns the response built so far, whose timeline holds
  the split discussions and the pending node (if a review is pending) but no event,
  and this partial object is the cache entry of the pull request.
\<close>

theorem partial_assembly:
  assumes "decodeGuarded pullRequestId = Inr (aid, p, Some i)"
    and "force \<or> pullRequestCache s aid = None"
    and "query t (Call ''QUERY'' ''GetPullRequest'' p (Some i)) (gqlGetPullRequest t p i)
           (s\<lparr>pullRequestCache := (pullRequestCache s)(aid := None)\<rparr>) = (Inr r0, s1)"
    and "restCall (Call ''GET'' ''award_emoji'' p (Some i)) (restGetAwardEmoji t p (Some i))
           (s1\<lparr>gitlabUsername := Some (currentUser_username r0)\<rparr>) = (Inr awards, s3)"
    and "isl (fst (projectEvents t p s3))
       \<or> isl (fst (labelEvents t p (Some i) (snd (projectEvents t p s3))))
       \<or> isl (fst (milestoneEvents t p (Some i)
                     (snd (labelEvents t p (Some i) (snd (projectEvents t p s3))))))"
  shows "\<exists>s4. getPullRequest t pullRequestId force s = (Inr (Response (partialResponse t r0 s3)), s4)
      \<and> pullRequestCache s4 aid = Some (partialResponse t r0 s3)
      \<and> mr_discussions (mergeRequest (partialResponse t r0 s3))
          = map (splitNode (encodeId (mr_id (mergeRequest r0))
                    (sp_fullPath (mr_sourceProject (mergeRequest r0)) @ mr_reference (mergeRequest r0))))
              (mr_discussions (mergeRequest r0))
            @ (case pendingReviewStore s3 (Some (mr_id (mergeRequest r0))) of
                 None \<Rightarrow> []
               | Some entries \<Rightarrow> [pendingNode (toISOString t (world s3)) entries])"
proof -
  let ?s0 = "s\<lparr>pullRequestCache := (pullRequestCache s)(aid := None)\<rparr>"
  have ev: "isl (fst (auxiliaryEvents t p (Some i) s3))"
    using assms(5) by (simp add: auxiliaryEvents_fails_iff)
  from fetch_events_failed [OF assms(3,4) ev, of aid] obtain s4 where
    f: "fetchPullRequest t aid p (Some i) ?s0 = (Response (partialResponse t r0 s3), s4)"
    and c: "pullRequestCache s4 aid = Some (partialResponse t r0 s3)"
    by blast
  have "getPullRequest t pullRequestId force s = (Inr (Response (partialResponse t r0 s3)), s4)"
  proof (cases force)
    case True
    then show ?thesis using assms(1) f by (simp add: getPullRequest_def)
  next
    case False
    with assms(2) have n: "pullRequestCache s aid = None" by simp
    then have "(pullRequestCache s)(aid := None) = pullRequestCache s" by (auto simp: fun_upd_idem_iff)
    then have "?s0 = s" by simp
    with False n assms(1) f show ?thesis by (simp add: getPullRequest_def)
  qed
  with c partialResponse_discussions [of t r0 s3] show ?thesis by blast
qed

lemma noLabels_query:
  "query gitlabNoLabels (Call ''QUERY'' ''GetPullRequest'' (Some ''group/project'') (Some ''17''))
     (gqlGetPullRequest gitlabNoLabels (Some ''group/project'') ''17'')
     ((freshProvider ())\<lparr>pullRequestCache := (pullRequestCache (freshProvider ()))
         (Some ''gid://gitlab/MergeRequest/5'' := None)\<rparr>)
    = (Inr detailReply,
       (freshProvider ())\<lparr>client := True,
          calls := [Call ''QUERY'' ''GetPullRequest'' (Some ''group/project'') (Some ''17'')]\<rparr>)"
  by (simp add: query_def getClient_def perform_def gitlabNoLabels_def gitlabMock_def offline_def
      answering_def freshProvider_def)

lemma noLabels_awards:
  "restCall (Call ''GET'' ''award_emoji'' (Some ''group/project'') (Some ''17''))
     (restGetAwardEmoji gitlabNoLabels (Some ''group/project'') (Some ''17''))
     ((freshProvider ())\<lparr>client := True,
          calls := [Call ''QUERY'' ''GetPullRequest'' (Some ''group/project'') (Some ''17'')],
          gitlabUsername := Some (currentUser_username detailReply)\<rparr>)
    = (Inr [],
       (freshProvider ())\<lparr>client := True, gitlabUsername := Some ''dev'',
          calls := [Call ''QUERY'' ''GetPullRequest'' (Some ''group/project'') (Some ''17''),
                    Call ''GET'' ''award_emoji'' (Some ''group/project'') (Some ''17'')]\<rparr>)"
  by (simp add: restCall_def perform_def gitlabNoLabels_def gitlabMock_def offline_def
      answering_def freshProvider_def detailReply_def)

lemma noLabels_label_fails:
  "isl (fst (labelEvents gitlabNoLabels (Some ''group/project'') (Some ''17'')
              (snd (projectEvents gitlabNoLabels (Some ''group/project'') afterAwards))))"
  by (simp add: labelEvents_def projectEvents_def restCall_def perform_def gitlabNoLabels_def
      gitlabMock_def offline_def answering_def failing_def afterAwards_def freshProvider_def)

lemma noLabels_project_ok:
  "fst (projectEvents gitlabNoLabels (Some ''group/project'') afterAwards)
    = Inr [ProjectEventNode (toProjectEvent openedEvent)]"
  by (simp add: projectEvents_def restCall_def perform_def gitlabNoLabels_def
      gitlabMock_def offline_def answering_def afterAwards_def freshProvider_def openedEvent_def)

theorem partial_assembly_witness:
  "decodeGuarded tokenX = Inr (Some ''gid://gitlab/MergeRequest/5'', Some ''group/project'', Some ''17'')
   \<and> pullRequestCache (freshProvider ()) (Some ''gid://gitlab/MergeRequest/5'') = None
   \<and> isl (fst (labelEvents gitlabNoLabels (Some ''group/project'') (Some ''17'')
                 (snd (projectEvents gitlabNoLabels (Some ''group/project'') afterAwards))))
   \<and> (\<exists>s4. getPullRequest gitlabNoLabels tokenX False (freshProvider ())
             = (Inr (Response (partialResponse gitlabNoLabels detailReply afterAwards)), s4)
          \<and> pullRequestCache s4 (Some ''gid://gitlab/MergeRequest/5'')
             = Some (partialResponse gitlabNoLabels detailReply afterAwards))
   \<and> mr_discussions (mergeRequest (partialResponse gitlabNoLabels detailReply afterAwards))
      = [DiscussionNode (splitNotes tokenX threadOfThree)]"
proof -
  have c: "False \<or> pullRequestCache (freshProvider ()) (Some ''gid://gitlab/MergeRequest/5'') = None"
    by (simp add: freshProvider_def)
  have e: "isl (fst (projectEvents gitlabNoLabels (Some ''group/project'') afterAwards))
       \<or> isl (fst (labelEvents gitlabNoLabels (Some ''group/project'') (Some ''17'')
                     (snd (projectEvents gitlabNoLabels (Some ''group/project'') afterAwards))))
       \<or> isl (fst (milestoneEvents gitlabNoLabels (Some ''group/project'') (Some ''17'')
                     (snd (labelEvents gitlabNoLabels (Some ''group/project'') (Some ''17'')
                            (snd (projectEvents gitlabNoLabels (Some ''group/project'') afterAwards))))))"
    using noLabels_label_fails by simp
  have a: "restCall (Call ''GET'' ''award_emoji'' (Some ''group/project'') (Some ''17''))
     (restGetAwardEmoji gitlabNoLabels (Some ''group/project'') (Some ''17''))
     ((freshProvider ())\<lparr>client := True,
          calls := [Call ''QUERY'' ''GetPullRequest'' (Some ''group/project'') (Some ''17'')]\<rparr>
        \<lparr>gitlabUsername := Some (currentUser_username detailReply)\<rparr>)
    = (Inr [], afterAwards)"
    using noLabels_awards by (simp add: afterAwards_def)
  from partial_assembly [OF tokenX_guarded c noLabels_query a e]
  obtain s4 where
    "getPullRequest gitlabNoLabels tokenX False (freshProvider ())
       = (Inr (Response (partialResponse gitlabNoLabels detailReply afterAwards)), s4)"
    "pullRequestCache s4 (Some ''gid://gitlab/MergeRequest/5'')
       = Some (partialResponse gitlabNoLabels detailReply afterAwards)"
    "mr_discussions (mergeRequest (partialResponse gitlabNoLabels detailReply afterAwards))
      = map (splitNode (encodeId (mr_id (mergeRequest detailReply))
                (sp_fullPath (mr_sourceProject (mergeRequest detailReply)) @ mr_reference (mergeRequest detailReply))))
          (mr_discussions (mergeRequest detailReply))
        @ (case pendingReviewStore afterAwards (Some (mr_id (mergeRequest detailReply))) of
             None \<Rightarrow> []
           | Some entries \<Rightarrow> [pendingNode (toISOString gitlabNoLabels (world afterAwards)) entries])"
    by blast
  moreover from this(3) have
    "mr_discussions (mergeRequest (partialResponse gitlabNoLabels detailReply afterAwards))
      = [DiscussionNode (splitNotes tokenX threadOfThree)]"
    by (simp add: detailReply_def afterAwards_def freshProvider_def tokenX_def)
  ultimately show ?thesis
    using tokenX_guarded c noLabels_label_fails by auto
qed

text \<open>
  C9 fails as stated: when the label-event fetch fails, the detail fetch does not
  fail.  It returns the reply normalised so far, without the project event that
  was fetched successfully, and that partial object stays in the cache.
\<close>

theorem partial_assembly_counterexample:
  "isl (fst (labelEvents gitlabNoLabels (Some ''group/project'') (Some ''17'')
              (snd (projectEvents gitlabNoLabels (Some ''group/project'') afterAwards))))
   \<and> fst (projectEvents gitlabNoLabels (Some ''group/project'') afterAwards)
       = Inr [ProjectEventNode (toProjectEvent openedEvent)]
   \<and> fst (getPullRequest gitlabNoLabels tokenX False (freshProvider ()))
       = Inr (Response (partialResponse gitlabNoLabels detailReply afterAwards))
   \<and> pullRequestCache (snd (getPullRequest gitlabNoLabels tokenX False (freshProvider ())))
        (Some ''gid://gitlab/MergeRequest/5'')
       = Some (partialResponse gitlabNoLabels detailReply afterAwards)
   \<and> mr_discussions (mergeRequest (partialResponse gitlabNoLabels detailReply afterAwards))
       = [DiscussionNode (splitNotes tokenX threadOfThree)]"
proof -
  have ev: "isl (fst (auxiliaryEvents gitlabNoLabels (Some ''group/project'') (Some ''17'') afterAwards))"
    using noLabels_label_fails by (simp add: auxiliaryEvents_fails_iff)
  have a: "restCall (Call ''GET'' ''award_emoji'' (Some ''group/project'') (Some ''17''))
     (restGetAwardEmoji gitlabNoLabels (Some ''group/project'') (Some ''17''))
     ((freshProvider ())\<lparr>client := True,
          calls := [Call ''QUERY'' ''GetPullRequest'' (Some ''group/project'') (Some ''17'')]\<rparr>
        \<lparr>gitlabUsername := Some (currentUser_username detailReply)\<rparr>)
    = (Inr [], afterAwards)"
    using noLabels_awards by (simp add: afterAwards_def)
  have q: "query gitlabNoLabels (Call ''QUERY'' ''GetPullRequest'' (Some ''group/project'') (Some ''17''))
     (gqlGetPullRequest gitlabNoLabels (Some ''group/project'') ''17'') (freshProvider ())
    = (Inr detailReply,
       (freshProvider ())\<lparr>client := True,
          calls := [Call ''QUERY'' ''GetPullRequest'' (Some ''group/project'') (Some ''17'')]\<rparr>)"
    using noLabels_query by (simp add: freshProvider_def)
  from fetch_events_failed [OF q a ev, of "Some ''gid://gitlab/MergeRequest/5''"] obtain s4 where
    f: "fetchPullRequest gitlabNoLabels (Some ''gid://gitlab/MergeRequest/5'') (Some ''group/project'')
          (Some ''17'') (freshProvider ())
        = (Response (partialResponse gitlabNoLabels detailReply afterAwards), s4)"
    and c: "pullRequestCache s4 (Some ''gid://gitlab/MergeRequest/5'')
        = Some (partialResponse gitlabNoLabels detailReply afterAwards)"
    by blast
  have n: "pullRequestCache (freshProvider ()) (Some ''gid://gitlab/MergeRequest/5'') = None"
    by (simp add: freshProvider_def)
  have g: "getPullRequest gitlabNoLabels tokenX False (freshProvider ())
      = (Inr (Response (partialResponse gitlabNoLabels detailReply afterAwards)), s4)"
    using f n by (simp add: getPullRequest_def tokenX_guarded)
  have d: "mr_discussions (mergeRequest (partialResponse gitlabNoLabels detailReply afterAwards))
       = [DiscussionNode (splitNotes tokenX threadOfThree)]"
    by (simp add: partialResponse_discussions detailReply_def afterAwards_def freshProvider_def
        tokenX_def)
  show ?thesis
    using noLabels_label_fails noLabels_project_ok g c d by simp
qed

section \<open>Detail fetch with every event fetch answered: what is proved\<close>

lemma auxiliaryEvents_succeed:
  assumes "projectEvents t p s3 = (Inr pa, s4)"
    and "labelEvents t p i s4 = (Inr lc, s5)"
    and "milestoneEvents t p i s5 = (Inr mc, s6)"
  shows "auxiliaryEvents t p i s3 = (Inr (pa @ lc @ mc), s6)"
  using assms by (simp add: auxiliaryEvents_def)

lemma fetch_events_merged:
  assumes "query t (Call ''QUERY'' ''GetPullRequest'' p (Some i)) (gqlGetPullRequest t p i) s = (Inr r0, s1)"
    and "restCall (Call ''GET'' ''award_emoji'' p (Some i)) (restGetAwardEmoji t p (Some i))
           (s1\<lparr>gitlabUsername := Some (currentUser_username r0)\<rparr>) = (Inr awards, s3)"
    and "auxiliaryEvents t p (Some i) s3 = (Inr events, s4)"
  shows "fetchPullRequest t aid p (Some i) s
     = (Response ((partialResponse t r0 s3)
          \<lparr>mergeRequest := (mergeRequest (partialResponse t r0 s3))
             \<lparr>mr_discussions :=
                assembleTimeline (mr_discussions (mergeRequest (partialResponse t r0 s3))) events\<rparr>\<rparr>),
        s4\<lparr>pullRequestCache := (pullRequestCache s4)(aid \<mapsto>
            (partialResponse t r0 s3)
              \<lparr>mergeRequest := (mergeRequest (partialResponse t r0 s3))
                 \<lparr>mr_discussions :=
                    assembleTimeline (mr_discussions (mergeRequest (partialResponse t r0 s3))) events\<rparr>\<rparr>)\<rparr>)"
  using assms by (simp add: fetchPullRequest_def Let_def partialResponse_def)

text \<open>
  C6.  For every detail fetch that is not served from the cache and all of whose
  requests are answered: let the discussions stream be the split discussions of the
  reply followed by the pending node (if a review is pending), and the other three
  streams the project activity, label and milestone events as fetched.  If the
  creation timestamps of the four streams are pairwise distinct, then
  \<open>getPullRequest\<close> returns (and caches) the response whose timeline is sorted
  ascending by the lexical order of the timestamps and is a rearrangement of the
  concatenated streams; the timeline is what the sort makes of the nodes in any
  other order, so it does not depend on the order in which the streams are supplied.
\<close>

theorem chronological_merge:
  assumes "decodeGuarded pullRequestId = Inr (aid, p, Some i)"
    and "force \<or> pullRequestCache s aid = None"
    and "query t (Call ''QUERY'' ''GetPullRequest'' p (Some i)) (gqlGetPullRequest t p i)
           (s\<lparr>pullRequestCache := (pullRequestCache s)(aid := None)\<rparr>) = (Inr r0, s1)"
    and "restCall (Call ''GET'' ''award_emoji'' p (Some i)) (restGetAwardEmoji t p (Some i))
           (s1\<lparr>gitlabUsername := Some (currentUser_username r0)\<rparr>) = (Inr awards, s3)"
    and "discussions
          = map (splitNode (encodeId (mr_id (mergeRequest r0))
                    (sp_fullPath (mr_sourceProject (mergeRequest r0)) @ mr_reference (mergeRequest r0))))
              (mr_discussions (mergeRequest r0))
            @ (case pendingReviewStore s3 (Some (mr_id (mergeRequest r0))) of
                 None \<Rightarrow> []
               | Some entries \<Rightarrow> [pendingNode (toISOString t (world s3)) entries])"
    and "projectEvents t p s3 = (Inr projectActivity, s4)"
    and "labelEvents t p (Some i) s4 = (Inr labelChanges, s5)"
    and "milestoneEvents t p (Some i) s5 = (Inr milestoneChanges, s6)"
    and "distinct (map createdAt (discussions @ projectActivity @ labelChanges @ milestoneChanges))"
  shows "\<exists>timeline s'.
      getPullRequest t pullRequestId force s
        = (Inr (Response ((partialResponse t r0 s3)
                  \<lparr>mergeRequest := (mergeRequest (partialResponse t r0 s3))
                     \<lparr>mr_discussions := timeline\<rparr>\<rparr>)), s')
      \<and> pullRequestCache s' aid
          = Some ((partialResponse t r0 s3)
                  \<lparr>mergeRequest := (mergeRequest (partialResponse t r0 s3))
                     \<lparr>mr_discussions := timeline\<rparr>\<rparr>)
      \<and> sorted (map createdAt timeline)
      \<and> mset timeline = mset (discussions @ projectActivity @ labelChanges @ milestoneChanges)
      \<and> (\<forall>nodes. mset nodes = mset (discussions @ projectActivity @ labelChanges @ milestoneChanges)
            \<longrightarrow> js_sort compareCreatedAt nodes = timeline)"
proof -
  let ?s0 = "s\<lparr>pullRequestCache := (pullRequestCache s)(aid := None)\<rparr>"
  let ?events = "projectActivity @ labelChanges @ milestoneChanges"
  let ?timeline = "assembleTimeline discussions ?events"
  let ?r = "(partialResponse t r0 s3)
      \<lparr>mergeRequest := (mergeRequest (partialResponse t r0 s3))\<lparr>mr_discussions := ?timeline\<rparr>\<rparr>"
  let ?s' = "s6\<lparr>pullRequestCache := (pullRequestCache s6)(aid \<mapsto> ?r)\<rparr>"
  have d: "mr_discussions (mergeRequest (partialResponse t r0 s3)) = discussions"
    unfolding assms(5) by (rule partialResponse_discussions)
  have ev: "auxiliaryEvents t p (Some i) s3 = (Inr ?events, s6)"
    using assms(6,7,8) by (rule auxiliaryEvents_succeed)
  have f: "fetchPullRequest t aid p (Some i) ?s0 = (Response ?r, ?s')"
    using fetch_events_merged [OF assms(3,4) ev, of aid] unfolding d .
  have g: "getPullRequest t pullRequestId force s = (Inr (Response ?r), ?s')"
  proof (cases force)
    case True
    then show ?thesis using assms(1) f by (simp add: getPullRequest_def)
  next
    case False
    with assms(2) have n: "pullRequestCache s aid = None" by simp
    then have "(pullRequestCache s)(aid := None) = pullRequestCache s" by (auto simp: fun_upd_idem_iff)
    then have "?s0 = s" by simp
    with False n assms(1) f show ?thesis by (simp add: getPullRequest_def)
  qed
  have c: "pullRequestCache ?s' aid = Some ?r" by simp
  have "distinct (map createdAt (discussions @ ?events))" using assms(9) by simp
  from assembleTimeline_sorted [OF this]
  have "sorted (map createdAt ?timeline)"
    and "mset ?timeline = mset (discussions @ projectActivity @ labelChanges @ milestoneChanges)"
    and "\<forall>nodes. mset nodes = mset (discussions @ projectActivity @ labelChanges @ milestoneChanges)
            \<longrightarrow> js_sort compareCreatedAt nodes = ?timeline"
    by simp_all
  with g c show ?thesis by blast
qed

lemma withEvents_query:
  "query gitlabWithEvents (Call ''QUERY'' ''GetPullRequest'' (Some ''group/project'') (Some ''17''))
     (gqlGetPullRequest gitlabWithEvents (Some ''group/project'') ''17'')
     ((freshProvider ())\<lparr>pullRequestCache := (pullRequestCache (freshProvider ()))
         (Some ''gid://gitlab/MergeRequest/5'' := None)\<rparr>)
    = (Inr detailReply,
       (freshProvider ())\<lparr>client := True,
          calls := [Call ''QUERY'' ''GetPullRequest'' (Some ''group/project'') (Some ''17'')]\<rparr>)"
  by (simp add: query_def getClient_def perform_def gitlabWithEvents_def gitlabMock_def offline_def
      answering_def freshProvider_def)

lemma withEvents_awards:
  "restCall (Call ''GET'' ''award_emoji'' (Some ''group/project'') (Some ''17''))
     (restGetAwardEmoji gitlabWithEvents (Some ''group/project'') (Some ''17''))
     ((freshProvider ())\<lparr>client := True,
          calls := [Call ''QUERY'' ''GetPullRequest'' (Some ''group/project'') (Some ''17'')]\<rparr>
        \<lparr>gitlabUsername := Some (currentUser_username detailReply)\<rparr>)
    = (Inr [], afterAwards)"
  by (simp add: restCall_def perform_def gitlabWithEvents_def gitlabMock_def offline_def
      answering_def freshProvider_def detailReply_def afterAwards_def)

lemma withEvents_project:
  "projectEvents gitlabWithEvents (Some ''group/project'') afterAwards
    = (Inr streamProjectActivity, snd (projectEvents gitlabWithEvents (Some ''group/project'') afterAwards))"
  by (simp add: projectEvents_def restCall_def perform_def gitlabWithEvents_def
      gitlabMock_def offline_def answering_def approvedEvent_def streamProjectActivity_def)

lemma withEvents_label:
  "labelEvents gitlabWithEvents (Some ''group/project'') (Some ''17'') s
    = (Inr streamLabelChanges, snd (labelEvents gitlabWithEvents (Some ''group/project'') (Some ''17'') s))"
  by (simp add: labelEvents_def restCall_def perform_def gitlabWithEvents_def
      gitlabMock_def offline_def answering_def streamLabelChanges_def)

lemma withEvents_milestone:
  "milestoneEvents gitlabWithEvents (Some ''group/project'') (Some ''17'') s
    = (Inr streamMilestoneChanges,
       snd (milestoneEvents gitlabWithEvents (Some ''group/project'') (Some ''17'') s))"
  by (simp add: milestoneEvents_def restCall_def perform_def gitlabWithEvents_def
      gitlabMock_def offline_def answering_def streamMilestoneChanges_def)

lemma withEvents_discussions:
  "streamDiscussions
    = map (splitNode (encodeId (mr_id (mergeRequest detailReply))
              (sp_fullPath (mr_sourceProject (mergeRequest detailReply)) @ mr_reference (mergeRequest detailReply))))
        (mr_discussions (mergeRequest detailReply))
      @ (case pendingReviewStore afterAwards (Some (mr_id (mergeRequest detailReply))) of
           None \<Rightarrow> []
         | Some entries \<Rightarrow> [pendingNode (toISOString gitlabWithEvents (world afterAwards)) entries])"
  by (simp add: streamDiscussions_def detailReply_def afterAwards_def freshProvider_def tokenX_def)

lemma streams_sorted:
  "js_sort compareCreatedAt
     (streamMilestoneChanges @ streamLabelChanges @ streamProjectActivity @ streamDiscussions)
    = streamDiscussions @ streamLabelChanges @ streamProjectActivity @ streamMilestoneChanges"
  by (simp add: compareCreatedAt_def streamDiscussions_def streamProjectActivity_def
      streamLabelChanges_def streamMilestoneChanges_def splitNotes_def threadOfThree_def
      toProjectEvent_def toResourceEvent_def approvedEvent_def labelAdded_def milestoneAdded_def
      less_char_def)

lemma streams_distinct:
  "distinct (map createdAt
     (streamDiscussions @ streamProjectActivity @ streamLabelChanges @ streamMilestoneChanges))"
  by (simp add: streamDiscussions_def streamProjectActivity_def
      streamLabelChanges_def streamMilestoneChanges_def splitNotes_def threadOfThree_def
      toProjectEvent_def toResourceEvent_def approvedEvent_def labelAdded_def milestoneAdded_def)

text \<open>The example of the claim: timestamps \<open>t1 < t3 < t2 < t4\<close> (discussion,
  project activity, label change, milestone change) come out as \<open>t1, t3, t2, t4\<close>.\<close>

theorem chronological_merge_witness:
  "decodeGuarded tokenX = Inr (Some ''gid://gitlab/MergeRequest/5'', Some ''group/project'', Some ''17'')
   \<and> pullRequestCache (freshProvider ()) (Some ''gid://gitlab/MergeRequest/5'') = None
   \<and> distinct (map createdAt
       (streamDiscussions @ streamProjectActivity @ streamLabelChanges @ streamMilestoneChanges))
   \<and> fst (getPullRequest gitlabWithEvents tokenX False (freshProvider ()))
       = Inr (Response ((partialResponse gitlabWithEvents detailReply afterAwards)
                \<lparr>mergeRequest := (mergeRequest (partialResponse gitlabWithEvents detailReply afterAwards))
                   \<lparr>mr_discussions :=
                      streamDiscussions @ streamLabelChanges @ streamProjectActivity
                        @ streamMilestoneChanges\<rparr>\<rparr>))
   \<and> map createdAt
        (streamDiscussions @ streamLabelChanges @ streamProjectActivity @ streamMilestoneChanges)
       = [''2020-11-01T09:00:00Z'', ''2020-11-01T10:00:00Z'', ''2020-11-01T11:00:00Z'',
          ''2020-11-01T12:00:00Z'']"
proof -
  let ?X = "Some ''gid://gitlab/MergeRequest/5''"
  let ?all = "streamDiscussions @ streamProjectActivity @ streamLabelChanges
      @ streamMilestoneChanges"
  let ?sorted = "streamDiscussions @ streamLabelChanges @ streamProjectActivity
      @ streamMilestoneChanges"
  have c: "False \<or> pullRequestCache (freshProvider ()) ?X = None"
    by (simp add: freshProvider_def)
  from chronological_merge [OF tokenX_guarded c withEvents_query withEvents_awards
      withEvents_discussions withEvents_project withEvents_label withEvents_milestone streams_distinct]
  obtain timeline s' where
    g: "getPullRequest gitlabWithEvents tokenX False (freshProvider ())
        = (Inr (Response ((partialResponse gitlabWithEvents detailReply afterAwards)
                  \<lparr>mergeRequest := (mergeRequest (partialResponse gitlabWithEvents detailReply afterAwards))
                     \<lparr>mr_discussions := timeline\<rparr>\<rparr>)), s')"
    and u: "\<forall>nodes. mset nodes = mset ?all \<longrightarrow> js_sort compareCreatedAt nodes = timeline"
    by blast
  have "mset (streamMilestoneChanges @ streamLabelChanges @ streamProjectActivity
      @ streamDiscussions) = mset ?all"
    by simp
  with u streams_sorted have "timeline = ?sorted" by metis
  with g have "fst (getPullRequest gitlabWithEvents tokenX False (freshProvider ()))
       = Inr (Response ((partialResponse gitlabWithEvents detailReply afterAwards)
                \<lparr>mergeRequest := (mergeRequest (partialResponse gitlabWithEvents detailReply afterAwards))
                   \<lparr>mr_discussions := ?sorted\<rparr>\<rparr>))"
    by simp
  moreover have "map createdAt ?sorted
       = [''2020-11-01T09:00:00Z'', ''2020-11-01T10:00:00Z'', ''2020-11-01T11:00:00Z'',
          ''2020-11-01T12:00:00Z'']"
    by (simp add: streamDiscussions_def streamProjectActivity_def
      streamLabelChanges_def streamMilestoneChanges_def splitNotes_def threadOfThree_def
      toProjectEvent_def toResourceEvent_def approvedEvent_def labelAdded_def milestoneAdded_def)
  ultimately show ?thesis
    using tokenX_guarded c streams_distinct by simp
qed

section \<open>Cache invalidation: what is proved\<close>

lemma stage_drops_entry:
  "decodeIdOnly (rc_pullRequestId request) = Inr aid \<Longrightarrow>
   pullRequestCache (snd (createPullRequestReviewComment request s)) aid = None"
  by (simp add: createPullRequestReviewComment_def)

lemma delete_drops_entry:
  assumes "decodeIdOnly pullRequestId = Inr aid"
    and "\<not> isl (fst (deletePullRequestComment t noteId pullRequestId s))"
  shows "pullRequestCache (snd (deletePullRequestComment t noteId pullRequestId s)) aid = None"
proof -
  obtain r s' where m: "mutate (Call ''MUTATE'' ''DestroyNote'' None None) (gqlDestroyNote t noteId) s = (r, s')"
    by (cases "mutate (Call ''MUTATE'' ''DestroyNote'' None None) (gqlDestroyNote t noteId) s")
  with assms show ?thesis
    by (cases r) (simp_all add: deletePullRequestComment_def)
qed

lemma commit_comment_drops_entry:
  assumes "decodeUnguarded (cc_pullRequestId request) = Inr (aid, p, i)"
    and "\<not> isl (fst (createCommitComment t request s))"
  shows "pullRequestCache (snd (createCommitComment t request s)) aid = None"
proof -
  let ?payload = "\<lparr>dp_body = cc_text request, dp_base_sha = cc_leftSha request,
      dp_head_sha = cc_sha request, dp_start_sha = cc_leftSha request,
      dp_position_type = ''text'', dp_new_path = cc_path request, dp_new_line = cc_startLine request\<rparr>"
  obtain r s' where m: "restCall (Call ''POST'' ''discussions'' p i)
      (restPostDiscussions t p i ?payload) s = (r, s')"
    by (cases "restCall (Call ''POST'' ''discussions'' p i) (restPostDiscussions t p i ?payload) s")
  with assms show ?thesis
    by (cases r) (simp_all add: createCommitComment_def)
qed

lemma createPullRequestComment_cache:
  "pullRequestCache (snd (createPullRequestComment t pid txt i0 s)) = pullRequestCache s"
proof -
  obtain r s' where c: "createPullRequestComment t pid txt i0 s = (r, s')"
    by (cases "createPullRequestComment t pid txt i0 s")
  then have "pullRequestCache s' = pullRequestCache s"
    by (auto simp: createPullRequestComment_def mutate_def getClient_def restCall_def perform_def
        split: sum.splits prod.splits if_splits option.splits)
  with c show ?thesis by simp
qed

lemma commit_comment_exact:
  assumes "decodeIdOnly (cc_pullRequestId request) = Inr aid"
  shows "pullRequestCache (snd (createCommitComment t request s))
    = (if isl (fst (createCommitComment t request s)) then pullRequestCache s
       else (pullRequestCache s)(aid := None))"
proof (cases "decodeUnguarded (cc_pullRequestId request)")
  case (Inl e)
  then show ?thesis by (simp add: createCommitComment_def)
next
  case (Inr x)
  obtain a p i where x: "x = (a, p, i)" by (cases x)
  with Inr assms decodeUnguarded_idOnly [of "cc_pullRequestId request" a p i]
  have d: "decodeUnguarded (cc_pullRequestId request) = Inr (aid, p, i)" by simp
  let ?payload = "\<lparr>dp_body = cc_text request, dp_base_sha = cc_leftSha request,
      dp_head_sha = cc_sha request, dp_start_sha = cc_leftSha request,
      dp_position_type = ''text'', dp_new_path = cc_path request, dp_new_line = cc_startLine request\<rparr>"
  obtain r s' where m: "restCall (Call ''POST'' ''discussions'' p i)
      (restPostDiscussions t p i ?payload) s = (r, s')"
    by (cases "restCall (Call ''POST'' ''discussions'' p i) (restPostDiscussions t p i ?payload) s")
  from restCall_frame [OF m] have "pullRequestCache s' = pullRequestCache s"
    by (simp add: sameCaches_def)
  with d m show ?thesis
    by (cases r) (simp_all add: createCommitComment_def)
qed

lemma inline_comment_exact:
  assumes "decodeIdOnly pid = Inr aid"
  shows "pullRequestCache (snd (createPullRequestInlineComment t (entryRequest pid e) s))
    = (if isl (fst (createPullRequestInlineComment t (entryRequest pid e) s)) then pullRequestCache s
       else (pullRequestCache s)(aid := None))"
  unfolding createPullRequestInlineComment_def
  by (rule commit_comment_exact) (simp add: entryRequest_def assms)

lemma flushPending_exact:
  assumes "decodeIdOnly pid = Inr aid"
  shows "pullRequestCache (flushPending t pid es s)
    = (if \<exists>k<length es.
            \<not> isl (fst (createPullRequestInlineComment t (entryRequest pid (es ! k))
                          (flushPending t pid (take k es) s)))
       then (pullRequestCache s)(aid := None) else pullRequestCache s)"
proof (induction es arbitrary: s)
  case Nil
  then show ?case by simp
next
  case (Cons e es)
  let ?post = "\<lambda>xs k s. \<not> isl (fst (createPullRequestInlineComment t (entryRequest pid (xs ! k))
                          (flushPending t pid (take k xs) s)))"
  obtain r s1 where c: "createPullRequestInlineComment t (entryRequest pid e) s = (r, s1)"
    by (cases "createPullRequestInlineComment t (entryRequest pid e) s")
  have f: "\<And>xs. flushPending t pid (e # xs) s = flushPending t pid xs s1"
    using c by simp
  have one: "pullRequestCache s1
      = (if isl r then pullRequestCache s else (pullRequestCache s)(aid := None))"
    using inline_comment_exact [OF assms, of t e s] c by simp
  have ex: "(\<exists>k<length (e # es). ?post (e # es) k s) \<longleftrightarrow> (\<not> isl r \<or> (\<exists>k<length es. ?post es k s1))"
  proof
    assume "\<exists>k<length (e # es). ?post (e # es) k s"
    then obtain k where k: "k < length (e # es)" "?post (e # es) k s" by blast
    show "\<not> isl r \<or> (\<exists>k<length es. ?post es k s1)"
    proof (cases k)
      case 0
      with k(2) c show ?thesis by simp
    next
      case (Suc j)
      with k have "j < length es" and "?post es j s1"
        using c by simp_all
      then show ?thesis by blast
    qed
  next
    assume "\<not> isl r \<or> (\<exists>k<length es. ?post es k s1)"
    then show "\<exists>k<length (e # es). ?post (e # es) k s"
    proof
      assume "\<not> isl r"
      then have "?post (e # es) 0 s" using c by simp
      then show ?thesis by blast
    next
      assume "\<exists>k<length es. ?post es k s1"
      then obtain j where "j < length es" "?post es j s1" by blast
      then have "Suc j < length (e # es)" and "?post (e # es) (Suc j) s"
        using c by simp_all
      then show ?thesis by blast
    qed
  qed
  have "pullRequestCache (flushPending t pid (e # es) s) = pullRequestCache (flushPending t pid es s1)"
    by (simp only: f)
  also have "\<dots> = (if \<exists>k<length es. ?post es k s1
       then (pullRequestCache s1)(aid := None) else pullRequestCache s1)"
    by (rule Cons.IH)
  also have "\<dots> = (if \<not> isl r \<or> (\<exists>k<length es. ?post es k s1)
       then (pullRequestCache s)(aid := None) else pullRequestCache s)"
    using one by (cases "isl r") auto
  finally show ?case
    using ex by (simp only:)
qed

lemma submitReview_after_flush:
  assumes "decodeIdOnly (sr_pullRequestId request) = Inr aid"
    and "validEventType (effectiveEventType (sr_eventType request))"
  shows "pullRequestCache (snd (submitReview t request s))
    = (case pendingReviewStore s aid of
         None \<Rightarrow> pullRequestCache s
       | Some entries \<Rightarrow> pullRequestCache (flushPending t (sr_pullRequestId request) entries s))"
proof -
  let ?pid = "sr_pullRequestId request"
  define s1 where "s1 =
      (case pendingReviewStore s aid of
         None \<Rightarrow> s
       | Some [] \<Rightarrow> s
       | Some (c # cs) \<Rightarrow>
           (let s' = flushPending t ?pid (c # cs) s
            in s'\<lparr>pendingReviewStore := (pendingReviewStore s')(aid \<mapsto> [])\<rparr>))"
  have c1: "pullRequestCache s1
      = (case pendingReviewStore s aid of
           None \<Rightarrow> pullRequestCache s
         | Some entries \<Rightarrow> pullRequestCache (flushPending t ?pid entries s))"
    unfolding s1_def
    by (simp add: Let_def split: option.splits list.splits del: flushPending.simps(2))
  have res: "pullRequestCache (snd (submitReview t request s)) = pullRequestCache s1"
  proof (cases "sr_text request = []")
    case True
    with assms show ?thesis
      by (simp add: submitReview_def s1_def Let_def del: flushPending.simps)
  next
    case False
    obtain r s2 where c: "createPullRequestComment t ?pid (sr_text request) None s1 = (r, s2)"
      by (cases "createPullRequestComment t ?pid (sr_text request) None s1")
    with createPullRequestComment_cache [of t ?pid "sr_text request" None s1]
    have "pullRequestCache s2 = pullRequestCache s1" by simp
    moreover have "snd (submitReview t request s) = s2"
      using assms False c
      unfolding s1_def
      by (cases r) (simp_all add: submitReview_def Let_def del: flushPending.simps)
    ultimately show ?thesis by simp
  qed
  show ?thesis using c1 res by simp
qed

lemma submitReview_flushes:
  assumes "decodeIdOnly (sr_pullRequestId request) = Inr aid"
    and "validEventType (effectiveEventType (sr_eventType request))"
    and "pendingReviewStore s aid = Some entries"
  shows "pullRequestCache (snd (submitReview t request s))
    = (if \<exists>k<length entries.
            \<not> isl (fst (createPullRequestInlineComment t
                         (entryRequest (sr_pullRequestId request) (entries ! k))
                         (flushPending t (sr_pullRequestId request) (take k entries) s)))
       then (pullRequestCache s)(aid := None) else pullRequestCache s)"
  using submitReview_after_flush [OF assms(1,2), of t s] assms(3)
    flushPending_exact [OF assms(1), of t entries s]
  by (simp del: flushPending.simps)

lemma submitReview_nothing_staged:
  assumes "\<forall>aid. decodeIdOnly (sr_pullRequestId request) = Inr aid
      \<longrightarrow> \<not> validEventType (effectiveEventType (sr_eventType request))
          \<or> pendingReviewStore s aid = None"
  shows "pullRequestCache (snd (submitReview t request s)) = pullRequestCache s"
proof (cases "decodeIdOnly (sr_pullRequestId request)")
  case (Inl e)
  then show ?thesis by (simp add: submitReview_def)
next
  case (Inr aid)
  show ?thesis
  proof (cases "validEventType (effectiveEventType (sr_eventType request))")
    case False
    then show ?thesis using Inr by (simp add: submitReview_def)
  next
    case True
    with assms Inr have "pendingReviewStore s aid = None" by blast
    with submitReview_after_flush [OF Inr True, of t s] show ?thesis by simp
  qed
qed

lemma query_calls:
  assumes "\<not> tokenError s" and "truthy (accessToken s)" and "query t c f s = (r, s')"
  shows "calls s' = calls s @ [c]"
proof -
  obtain r0 w' where o: "f (world s) = (r0, w')" by (cases "f (world s)")
  show ?thesis
  proof (cases r0)
    case (Inl ex)
    with assms o show ?thesis
      by (cases "isSuppressedException ex")
        (auto simp: query_def getClient_def perform_def queryCaught_def)
  next
    case (Inr x)
    with assms o show ?thesis
      by (auto simp: query_def getClient_def perform_def)
  qed
qed

lemma fetch_hits_network:
  assumes "\<not> tokenError s" and "truthy (accessToken s)"
  shows "\<exists>more. calls (snd (fetchPullRequest t aid p (Some i) s))
      = calls s @ Call ''QUERY'' ''GetPullRequest'' p (Some i) # more"
proof -
  let ?c = "Call ''QUERY'' ''GetPullRequest'' p (Some i)"
  obtain r s1 where q: "query t ?c (gqlGetPullRequest t p i) s = (r, s1)"
    by (cases "query t ?c (gqlGetPullRequest t p i) s")
  have c1: "calls s1 = calls s @ [?c]" using query_calls [OF assms q] .
  show ?thesis
  proof (cases r)
    case (Inl e)
    with q c1 show ?thesis by (simp add: fetchPullRequest_def)
  next
    case (Inr r0)
    let ?s2 = "s1\<lparr>gitlabUsername := Some (currentUser_username r0)\<rparr>"
    let ?a = "Call ''GET'' ''award_emoji'' p (Some i)"
    obtain ra s3 where a: "restCall ?a (restGetAwardEmoji t p (Some i)) ?s2 = (ra, s3)"
      by (cases "restCall ?a (restGetAwardEmoji t p (Some i)) ?s2")
    have c3: "calls s3 = calls s @ [?c, ?a]"
      using restCall_frame [OF a] c1 by simp
    show ?thesis
    proof (cases ra)
      case (Inl e)
      with q Inr a c3 show ?thesis by (simp add: fetchPullRequest_def Let_def)
    next
      case (Inr awards)
      obtain re s4 where ev: "auxiliaryEvents t p (Some i) s3 = (re, s4)"
        by (cases "auxiliaryEvents t p (Some i) s3")
      have c4: "calls s4 = calls s @ ?c # [?a, Call ''GET'' ''events'' p None,
          Call ''GET'' ''resource_label_events'' p (Some i),
          Call ''GET'' ''resource_milestone_events'' p (Some i)]"
        using auxiliaryEvents_frame [OF ev] c3 by simp
      from q \<open>r = Inr r0\<close> a Inr ev c4 show ?thesis
        by (cases re) (simp_all add: fetchPullRequest_def Let_def)
    qed
  qed
qed

lemma refetch_hits_network:
  assumes "decodeGuarded pullRequestId = Inr (aid, p, Some i)" and "pullRequestCache s aid = None"
    and "\<not> tokenError s" and "truthy (accessToken s)"
  shows "\<exists>more. calls (snd (getPullRequest t pullRequestId False s))
      = calls s @ Call ''QUERY'' ''GetPullRequest'' p (Some i) # more"
proof -
  have "snd (getPullRequest t pullRequestId False s) = snd (fetchPullRequest t aid p (Some i) s)"
    using assms(1,2) by (simp add: getPullRequest_def split: prod.splits)
  with fetch_hits_network [OF assms(3,4), of t aid p i] show ?thesis by simp
qed

lemma setDiscussionLocked_cache:
  "pullRequestCache (snd (setDiscussionLocked t b pid s)) = pullRequestCache s"
  by (auto simp: setDiscussionLocked_def restCall_def perform_def split: sum.splits prod.splits)

lemma toggleMilestone_cache:
  "pullRequestCache (snd (toggleMilestoneOnPullRequest t pid m s)) = pullRequestCache s"
  by (auto simp: toggleMilestoneOnPullRequest_def restCall_def perform_def
      split: sum.splits prod.splits)

lemma setWorkInProgress_cache:
  "pullRequestCache (snd (setWorkInProgressOnPullRequest t pid b s)) = pullRequestCache s"
  by (auto simp: setWorkInProgressOnPullRequest_def mutate_def getClient_def restCall_def
      perform_def split: sum.splits prod.splits if_splits)

lemma setLabel_cache:
  "pullRequestCache (snd (setLabelOnPullRequest t pid ls s)) = pullRequestCache s"
  by (auto simp: setLabelOnPullRequest_def mutate_def getClient_def restCall_def
      perform_def split: sum.splits prod.splits if_splits)

lemma merge_cache:
  "pullRequestCache (snd (mergePullRequest t pid m s)) = pullRequestCache s"
  by (auto simp: mergePullRequest_def restCall_def perform_def split: sum.splits prod.splits)

lemma approval_cache:
  "pullRequestCache (snd (togglePullRequestApproval t pid b s)) = pullRequestCache s"
  by (auto simp: togglePullRequestApproval_def restCall_def perform_def
      split: sum.splits prod.splits)

lemma cached_is_served:
  "decodeGuarded pullRequestId = Inr (aid, p, i) \<Longrightarrow> pullRequestCache s aid = Some cached \<Longrightarrow>
   getPullRequest t pullRequestId False s = (Inr (Response cached), s)"
  by (simp add: getPullRequest_def)

text \<open>
  C2, amended.  The cache entry of the pull request is deleted by staging an inline
  review comment, by a comment deletion that succeeded and by an inline (commit)
  comment whose post succeeded; once the entry is gone, the next detail fetch
  without \<open>force\<close> issues the detail query again.  Locking and unlocking, the
  milestone, work-in-progress and label toggles, merging, approving and the top-level
  comment leave the cache as it is.  Submitting a review with an accepted event type
  and a list of staged comments deletes the entry of the pull request exactly when
  the post of at least one staged comment succeeds; with nothing staged or every
  post refused, and whenever the token does not parse, the event type is rejected
  or no list is staged, it leaves the cache as it is.
\<close>

theorem cache_invalidation:
  "(decodeIdOnly (rc_pullRequestId staged) = Inr aidS
      \<longrightarrow> pullRequestCache (snd (createPullRequestReviewComment staged s)) aidS = None)
   \<and> (decodeIdOnly pullRequestId = Inr aidD
        \<and> \<not> isl (fst (deletePullRequestComment t noteId pullRequestId s))
      \<longrightarrow> pullRequestCache (snd (deletePullRequestComment t noteId pullRequestId s)) aidD = None)
   \<and> (decodeUnguarded (cc_pullRequestId comment) = Inr (aidC, pC, iC)
        \<and> \<not> isl (fst (createCommitComment t comment s))
      \<longrightarrow> pullRequestCache (snd (createCommitComment t comment s)) aidC = None)
   \<and> (decodeGuarded pullRequestId = Inr (aidF, pF, Some iF) \<and> pullRequestCache s aidF = None
        \<and> \<not> tokenError s \<and> truthy (accessToken s)
      \<longrightarrow> (\<exists>more. calls (snd (getPullRequest t pullRequestId False s))
                   = calls s @ Call ''QUERY'' ''GetPullRequest'' pF (Some iF) # more))
   \<and> pullRequestCache (snd (lockPullRequest t pullRequestId s)) = pullRequestCache s
   \<and> pullRequestCache (snd (unlockPullRequest t pullRequestId s)) = pullRequestCache s
   \<and> pullRequestCache (snd (toggleMilestoneOnPullRequest t pullRequestId milestoneId s)) = pullRequestCache s
   \<and> pullRequestCache (snd (setWorkInProgressOnPullRequest t pullRequestId onOff s)) = pullRequestCache s
   \<and> pullRequestCache (snd (setLabelOnPullRequest t pullRequestId labelIds s)) = pullRequestCache s
   \<and> pullRequestCache (snd (mergePullRequest t pullRequestId payload s)) = pullRequestCache s
   \<and> pullRequestCache (snd (togglePullRequestApproval t pullRequestId approve s)) = pullRequestCache s
   \<and> pullRequestCache (snd (createPullRequestComment t pullRequestId txt iid0 s)) = pullRequestCache s
   \<and> (decodeIdOnly (sr_pullRequestId review) = Inr aidR
        \<and> validEventType (effectiveEventType (sr_eventType review))
        \<and> pendingReviewStore s aidR = Some entries
      \<longrightarrow> pullRequestCache (snd (submitReview t review s))
          = (if \<exists>k<length entries.
                   \<not> isl (fst (createPullRequestInlineComment t
                                (entryRequest (sr_pullRequestId review) (entries ! k))
                                (flushPending t (sr_pullRequestId review) (take k entries) s)))
             then (pullRequestCache s)(aidR := None) else pullRequestCache s))
   \<and> ((\<forall>aid. decodeIdOnly (sr_pullRequestId review) = Inr aid
           \<longrightarrow> \<not> validEventType (effectiveEventType (sr_eventType review))
               \<or> pendingReviewStore s aid = None)
      \<longrightarrow> pullRequestCache (snd (submitReview t review s)) = pullRequestCache s)"
proof (intro conjI impI)
  assume "decodeIdOnly (rc_pullRequestId staged) = Inr aidS"
  then show "pullRequestCache (snd (createPullRequestReviewComment staged s)) aidS = None"
    by (rule stage_drops_entry)
next
  assume "decodeIdOnly pullRequestId = Inr aidD
        \<and> \<not> isl (fst (deletePullRequestComment t noteId pullRequestId s))"
  then show "pullRequestCache (snd (deletePullRequestComment t noteId pullRequestId s)) aidD = None"
    using delete_drops_entry by blast
next
  assume "decodeUnguarded (cc_pullRequestId comment) = Inr (aidC, pC, iC)
        \<and> \<not> isl (fst (createCommitComment t comment s))"
  then show "pullRequestCache (snd (createCommitComment t comment s)) aidC = None"
    using commit_comment_drops_entry by blast
next
  assume "decodeGuarded pullRequestId = Inr (aidF, pF, Some iF) \<and> pullRequestCache s aidF = None
        \<and> \<not> tokenError s \<and> truthy (accessToken s)"
  then show "\<exists>more. calls (snd (getPullRequest t pullRequestId False s))
                   = calls s @ Call ''QUERY'' ''GetPullRequest'' pF (Some iF) # more"
    using refetch_hits_network by blast
next
  show "pullRequestCache (snd (lockPullRequest t pullRequestId s)) = pullRequestCache s"
    by (simp add: lockPullRequest_def setDiscussionLocked_cache)
  show "pullRequestCache (snd (unlockPullRequest t pullRequestId s)) = pullRequestCache s"
    by (simp add: unlockPullRequest_def setDiscussionLocked_cache)
  show "pullRequestCache (snd (toggleMilestoneOnPullRequest t pullRequestId milestoneId s)) = pullRequestCache s"
    by (rule toggleMilestone_cache)
  show "pullRequestCache (snd (setWorkInProgressOnPullRequest t pullRequestId onOff s)) = pullRequestCache s"
    by (rule setWorkInProgress_cache)
  show "pullRequestCache (snd (setLabelOnPullRequest t pullRequestId labelIds s)) = pullRequestCache s"
    by (rule setLabel_cache)
  show "pullRequestCache (snd (mergePullRequest t pullRequestId payload s)) = pullRequestCache s"
    by (rule merge_cache)
  show "pullRequestCache (snd (togglePullRequestApproval t pullRequestId approve s)) = pullRequestCache s"
    by (rule approval_cache)
  show "pullRequestCache (snd (createPullRequestComment t pullRequestId txt iid0 s)) = pullRequestCache s"
    by (rule createPullRequestComment_cache)
next
  assume "decodeIdOnly (sr_pullRequestId review) = Inr aidR
        \<and> validEventType (effectiveEventType (sr_eventType review))
        \<and> pendingReviewStore s aidR = Some entries"
  then show "pullRequestCache (snd (submitReview t review s))
          = (if \<exists>k<length entries.
                   \<not> isl (fst (createPullRequestInlineComment t
                                (entryRequest (sr_pullRequestId review) (entries ! k))
                                (flushPending t (sr_pullRequestId review) (take k entries) s)))
             then (pullRequestCache s)(aidR := None) else pullRequestCache s)"
    using submitReview_flushes by blast
next
  assume "\<forall>aid. decodeIdOnly (sr_pullRequestId review) = Inr aid
           \<longrightarrow> \<not> validEventType (effectiveEventType (sr_eventType review))
               \<or> pendingReviewStore s aid = None"
  then show "pullRequestCache (snd (submitReview t review s)) = pullRequestCache s"
    by (rule submitReview_nothing_staged)
qed


text \<open>
  C2 fails as stated for the lock: with the detail of the pull request cached,
  \<open>lockPullRequest\<close> succeeds and leaves the entry in place, and the next detail fetch
  without \<open>force\<close> returns the cached object without any network call.
\<close>

theorem cache_invalidation_counterexample:
  "pullRequestCache cachedState (Some ''gid://gitlab/MergeRequest/5'') = Some detailReply
   \<and> fst (lockPullRequest gitlabMock tokenX cachedState)
       = Inr [Directive ''updatePullRequest'' (DiscussionLocked True)]
   \<and> calls (snd (lockPullRequest gitlabMock tokenX cachedState))
       = [Call ''PUT'' ''merge_request'' (Some ''group/project'') (Some ''17'')]
   \<and> pullRequestCache (snd (lockPullRequest gitlabMock tokenX cachedState))
        (Some ''gid://gitlab/MergeRequest/5'') = Some detailReply
   \<and> getPullRequest gitlabMock tokenX False (snd (lockPullRequest gitlabMock tokenX cachedState))
       = (Inr (Response detailReply), snd (lockPullRequest gitlabMock tokenX cachedState))"
proof -
  have l: "lockPullRequest gitlabMock tokenX cachedState
      = (Inr [Directive ''updatePullRequest'' (DiscussionLocked True)],
         cachedState\<lparr>calls := [Call ''PUT'' ''merge_request'' (Some ''group/project'') (Some ''17'')]\<rparr>)"
    by (simp add: lockPullRequest_def setDiscussionLocked_def tokenX_parseId restCall_def perform_def
        gitlabMock_def offline_def answering_def cachedState_def freshProvider_def)
  have c: "pullRequestCache cachedState (Some ''gid://gitlab/MergeRequest/5'') = Some detailReply"
    by (simp add: cachedState_def)
  have g: "getPullRequest gitlabMock tokenX False
        (cachedState\<lparr>calls := [Call ''PUT'' ''merge_request'' (Some ''group/project'') (Some ''17'')]\<rparr>)
      = (Inr (Response detailReply),
         cachedState\<lparr>calls := [Call ''PUT'' ''merge_request'' (Some ''group/project'') (Some ''17'')]\<rparr>)"
    by (rule cached_is_served [OF tokenX_guarded]) (simp add: c)
  show ?thesis using l c g by simp
qed

lemma fetchedX_cached:
  "pullRequestCache (snd fetchedX) (Some ''gid://gitlab/MergeRequest/5'') \<noteq> None"
  by (simp add: fetchedX_def getPullRequest_def tokenX_guarded stagedTwice_eq freshProvider_def
      fetchPullRequest_def query_def getClient_def perform_def restCall_def gitlabMock_def
      offline_def answering_def Let_def auxiliaryEvents_def projectEvents_def
      labelEvents_def milestoneEvents_def)

lemma mock_first_post_accepted:
  "\<not> isl (fst (createPullRequestInlineComment gitlabMock (entryRequest tokenX (Bare commentA)) s))"
  by (simp add: createPullRequestInlineComment_def entryRequest_def createCommitComment_def
      tokenX_unguarded restCall_def perform_def gitlabMock_def offline_def answering_def
      commentA_def split: prod.splits)

lemma refusing_post_refused:
  "isl (fst (createPullRequestInlineComment gitlabRefusing (entryRequest tokenX e) s))"
  by (simp add: createPullRequestInlineComment_def entryRequest_def createCommitComment_def
      tokenX_unguarded restCall_def perform_def gitlabRefusing_def gitlabMock_def offline_def
      failing_def split: prod.splits)

theorem cache_invalidation_witness:
  "decodeIdOnly (rc_pullRequestId commentA) = Inr (Some ''gid://gitlab/MergeRequest/5'')
   \<and> pullRequestCache (snd (createPullRequestReviewComment commentA cachedState))
        (Some ''gid://gitlab/MergeRequest/5'') = None
   \<and> \<not> isl (fst (deletePullRequestComment gitlabMock ''gid://gitlab/Note/9'' tokenX cachedState))
   \<and> pullRequestCache (snd (deletePullRequestComment gitlabMock ''gid://gitlab/Note/9'' tokenX cachedState))
        (Some ''gid://gitlab/MergeRequest/5'') = None
   \<and> decodeUnguarded (cc_pullRequestId commitCommentA)
       = Inr (Some ''gid://gitlab/MergeRequest/5'', Some ''group/project'', Some ''17'')
   \<and> \<not> isl (fst (createCommitComment gitlabMock commitCommentA cachedState))
   \<and> pullRequestCache (snd (createCommitComment gitlabMock commitCommentA cachedState))
        (Some ''gid://gitlab/MergeRequest/5'') = None
   \<and> decodeGuarded tokenX
       = Inr (Some ''gid://gitlab/MergeRequest/5'', Some ''group/project'', Some ''17'')
   \<and> \<not> tokenError (snd (createPullRequestReviewComment commentA cachedState))
   \<and> truthy (accessToken (snd (createPullRequestReviewComment commentA cachedState)))
   \<and> (\<exists>more. calls (snd (getPullRequest gitlabMock tokenX False
                            (snd (createPullRequestReviewComment commentA cachedState))))
        = calls (snd (createPullRequestReviewComment commentA cachedState))
          @ Call ''QUERY'' ''GetPullRequest'' (Some ''group/project'') (Some ''17'') # more)
   \<and> pendingReviewStore (snd fetchedX) (Some ''gid://gitlab/MergeRequest/5'')
       = Some [Bare commentA, Wrapped commentB]
   \<and> pullRequestCache (snd fetchedX) (Some ''gid://gitlab/MergeRequest/5'') \<noteq> None
   \<and> pullRequestCache (snd (submitReview gitlabMock
          \<lparr>sr_pullRequestId = tokenX, sr_text = [], sr_eventType = Some ''COMMENT''\<rparr> (snd fetchedX)))
        (Some ''gid://gitlab/MergeRequest/5'') = None
   \<and> pullRequestCache (snd (submitReview gitlabRefusing
          \<lparr>sr_pullRequestId = tokenX, sr_text = [], sr_eventType = Some ''COMMENT''\<rparr> (snd fetchedX)))
       = pullRequestCache (snd fetchedX)
   \<and> pendingReviewStore cachedState (Some ''gid://gitlab/MergeRequest/5'') = None
   \<and> pullRequestCache (snd (submitReview gitlabMock
          \<lparr>sr_pullRequestId = tokenX, sr_text = [], sr_eventType = Some ''COMMENT''\<rparr> cachedState))
       = pullRequestCache cachedState"
proof -
  let ?X = "Some ''gid://gitlab/MergeRequest/5''"
  let ?staged = "snd (createPullRequestReviewComment commentA cachedState)"
  have d1: "decodeIdOnly (rc_pullRequestId commentA) = Inr ?X"
    by (simp add: commentA_def tokenX_idOnly)
  have d3: "decodeUnguarded (cc_pullRequestId commitCommentA)
       = Inr (?X, Some ''group/project'', Some ''17'')"
    by (simp add: commitCommentA_def tokenX_unguarded)
  have del: "\<not> isl (fst (deletePullRequestComment gitlabMock ''gid://gitlab/Note/9'' tokenX cachedState))"
    by (simp add: deletePullRequestComment_def tokenX_idOnly mutate_def getClient_def restCall_def
        perform_def gitlabMock_def offline_def answering_def cachedState_def freshProvider_def)
  have com: "\<not> isl (fst (createCommitComment gitlabMock commitCommentA cachedState))"
    by (simp add: createCommitComment_def commitCommentA_def tokenX_unguarded restCall_def
        perform_def gitlabMock_def offline_def answering_def)
  have st: "\<not> tokenError ?staged \<and> truthy (accessToken ?staged)"
    by (simp add: createPullRequestReviewComment_def d1 cachedState_def freshProvider_def)
  note T1 = cache_invalidation [where staged = commentA and s = cachedState and aidS = ?X
      and pullRequestId = tokenX and aidD = ?X and t = gitlabMock and noteId = "''gid://gitlab/Note/9''"
      and comment = commitCommentA and aidC = ?X and pC = "Some ''group/project''" and iC = "Some ''17''"]
  have a1: "pullRequestCache ?staged ?X = None"
    using T1 d1 by blast
  have a2: "pullRequestCache (snd (deletePullRequestComment gitlabMock ''gid://gitlab/Note/9'' tokenX cachedState)) ?X = None"
    using T1 tokenX_idOnly del by blast
  have a3: "pullRequestCache (snd (createCommitComment gitlabMock commitCommentA cachedState)) ?X = None"
    using T1 d3 com by blast
  note T2 = cache_invalidation [where s = ?staged and pullRequestId = tokenX and aidF = ?X
      and pF = "Some ''group/project''" and iF = "''17''" and t = gitlabMock]
  have a4: "\<exists>more. calls (snd (getPullRequest gitlabMock tokenX False ?staged))
        = calls ?staged @ Call ''QUERY'' ''GetPullRequest'' (Some ''group/project'') (Some ''17'') # more"
    using T2 tokenX_guarded a1 st by blast
  let ?review = "\<lparr>sr_pullRequestId = tokenX, sr_text = [], sr_eventType = Some ''COMMENT''\<rparr>"
  have stR: "pendingReviewStore (snd fetchedX) ?X = Some [Bare commentA, Wrapped commentB]"
    using fetchedX_state by (simp add: stagedTwice_eq)
  have idR: "decodeIdOnly (sr_pullRequestId ?review) = Inr ?X"
    by (simp add: tokenX_idOnly)
  have validR: "validEventType (effectiveEventType (sr_eventType ?review))"
    by (simp add: effectiveEventType_def validEventType_def)
  note T3 = cache_invalidation [where review = ?review and s = "snd fetchedX" and aidR = ?X
      and entries = "[Bare commentA, Wrapped commentB]" and t = gitlabMock]
  have first: "\<exists>k<length [Bare commentA, Wrapped commentB].
      \<not> isl (fst (createPullRequestInlineComment gitlabMock
                   (entryRequest (sr_pullRequestId ?review) ([Bare commentA, Wrapped commentB] ! k))
                   (flushPending gitlabMock (sr_pullRequestId ?review)
                      (take k [Bare commentA, Wrapped commentB]) (snd fetchedX))))"
    using mock_first_post_accepted [of "snd fetchedX"] by (intro exI [of _ 0]) simp
  have a5: "pullRequestCache (snd (submitReview gitlabMock ?review (snd fetchedX))) ?X = None"
  proof -
    from T3 idR validR stR
    have "pullRequestCache (snd (submitReview gitlabMock ?review (snd fetchedX)))
        = (if \<exists>k<length [Bare commentA, Wrapped commentB].
            \<not> isl (fst (createPullRequestInlineComment gitlabMock
                   (entryRequest (sr_pullRequestId ?review) ([Bare commentA, Wrapped commentB] ! k))
                   (flushPending gitlabMock (sr_pullRequestId ?review)
                      (take k [Bare commentA, Wrapped commentB]) (snd fetchedX))))
           then (pullRequestCache (snd fetchedX))(?X := None) else pullRequestCache (snd fetchedX))"
      by blast
    with first show ?thesis by (simp only: if_True fun_upd_same)
  qed
  note T4 = cache_invalidation [where review = ?review and s = "snd fetchedX" and aidR = ?X
      and entries = "[Bare commentA, Wrapped commentB]" and t = gitlabRefusing]
  have none: "\<not> (\<exists>k<length [Bare commentA, Wrapped commentB].
      \<not> isl (fst (createPullRequestInlineComment gitlabRefusing
                   (entryRequest (sr_pullRequestId ?review) ([Bare commentA, Wrapped commentB] ! k))
                   (flushPending gitlabRefusing (sr_pullRequestId ?review)
                      (take k [Bare commentA, Wrapped commentB]) (snd fetchedX)))))"
    using refusing_post_refused by simp
  have a6: "pullRequestCache (snd (submitReview gitlabRefusing ?review (snd fetchedX)))
      = pullRequestCache (snd fetchedX)"
  proof -
    from T4 idR validR stR
    have "pullRequestCache (snd (submitReview gitlabRefusing ?review (snd fetchedX)))
        = (if \<exists>k<length [Bare commentA, Wrapped commentB].
            \<not> isl (fst (createPullRequestInlineComment gitlabRefusing
                   (entryRequest (sr_pullRequestId ?review) ([Bare commentA, Wrapped commentB] ! k))
                   (flushPending gitlabRefusing (sr_pullRequestId ?review)
                      (take k [Bare commentA, Wrapped commentB]) (snd fetchedX))))
           then (pullRequestCache (snd fetchedX))(?X := None) else pullRequestCache (snd fetchedX))"
      by blast
    with none show ?thesis by (simp only: if_False)
  qed
  note T5 = cache_invalidation [where review = ?review and s = cachedState and aidR = ?X
      and entries = "[]" and t = gitlabMock]
  have e: "pendingReviewStore cachedState ?X = None"
    by (simp add: cachedState_def freshProvider_def)
  have "\<forall>aid. decodeIdOnly (sr_pullRequestId ?review) = Inr aid
           \<longrightarrow> \<not> validEventType (effectiveEventType (sr_eventType ?review))
               \<or> pendingReviewStore cachedState aid = None"
    using idR e by simp
  with T5 have a7: "pullRequestCache (snd (submitReview gitlabMock ?review cachedState))
       = pullRequestCache cachedState"
    by blast
  show ?thesis
    using d1 a1 del a2 d3 com a3 tokenX_guarded st a4 stR fetchedX_cached a5 a6 e a7
    by (intro conjI) blast+
qed

text \<open>After a submit the store holds the empty list, which the detail fetch still
  renders: a pending node without notes and a pending review of zero comments.\<close>

lemma empty_review_still_rendered:
  assumes "store (Some (mr_id (mergeRequest r))) = Some []"
  shows "mr_pendingReview (mergeRequest (withPending now store r)) = Some 0
    \<and> mr_discussions (mergeRequest (withPending now store r))
        = mr_discussions (mergeRequest r) @ [pendingNode now []]"
  using assms by (simp add: withPending_def)

end
